theory Spec2Isabelle
  imports Complex_Main "HOL-Library.AList" "HOL-Library.Multiset"
    "HOL-Library.Char_ord" "HOL-Library.List_Lexorder"
begin

section \<open>Bar tables\<close>

text \<open>
  The bot moves market data around as pandas tables. A table is modelled row by row:
  the kind of its index, the names of its columns, and one (label, cells) pair per row.
  Python floats are idealised as reals, with NaN as a value of its own; a cell that
  holds anything that is not a number is \<open>Obj\<close>. An index label is an integer: an instant
  on the time line for a \<open>DatetimeIndex\<close> (whose time zone is \<open>None\<close> when it is naive), a
  plain integer label for every other index (pandas names such an index, or not).
  NaT labels are not modelled, and column names are taken to be distinct (a lookup
  finds the first).
\<close>

datatype error = APIError | TypeError | ValueError | KeyError

datatype cell = Num real | NaN | Obj string

datatype index_kind = DatetimeIndex "string option" | OtherIndex "string option"

record frame =
  kind :: index_kind
  colnames :: "string list"
  rows :: "(int \<times> cell list) list"

text \<open>
  The conversions pandas applies to cells are not part of the repository: they are
  parameters. \<open>to_datetime\<close> is \<open>pd.to_datetime(..., utc=True)\<close> on one cell and
  \<open>parse_float\<close> is the conversion of a non-numeric object to a float; \<open>None\<close> means
  that pandas raises.
\<close>

record pandas =
  to_datetime :: "cell \<Rightarrow> int option"
  parse_float :: "string \<Rightarrow> cell option"

definition len :: "frame \<Rightarrow> int" where
  "len df = int (length (rows df))"

definition empty :: "frame \<Rightarrow> bool" where
  "empty df \<longleftrightarrow> rows df = [] \<or> colnames df = []"

definition labels :: "frame \<Rightarrow> int list" where
  "labels df = map fst (rows df)"

fun pos :: "string \<Rightarrow> string list \<Rightarrow> nat option" where
  "pos n [] = None"
| "pos n (c # cs) = (if c = n then Some 0 else map_option Suc (pos n cs))"

definition get_cell :: "string list \<Rightarrow> cell list \<Rightarrow> string \<Rightarrow> cell" where
  "get_cell names vs n =
     (case pos n names of
        Some i \<Rightarrow> if i < length vs then vs ! i else NaN
      | None \<Rightarrow> NaN)"

definition column :: "frame \<Rightarrow> string \<Rightarrow> cell list" where
  "column df n = map (\<lambda>r. get_cell (colnames df) (snd r) n) (rows df)"

text \<open>\<open>df[~df.index.duplicated(keep='first')]\<close>: of the rows with one label, the first stays.\<close>

fun drop_duplicated :: "(int \<times> 'a) list \<Rightarrow> (int \<times> 'a) list" where
  "drop_duplicated [] = []"
| "drop_duplicated (r # rs) = r # filter (\<lambda>q. fst q \<noteq> fst r) (drop_duplicated rs)"

definition drop_duplicated_index :: "frame \<Rightarrow> frame" where
  "drop_duplicated_index df = df\<lparr>rows := drop_duplicated (rows df)\<rparr>"

text \<open>
  \<open>df.sort_index()\<close>: the rows in ascending order of their labels. (The order pandas
  gives to rows with equal labels is not used by any statement below.)
\<close>

definition sort_index :: "frame \<Rightarrow> frame" where
  "sort_index df = df\<lparr>rows := sort_key fst (rows df)\<rparr>"

text \<open>
  \<open>pd.concat([a, b])\<close>: the rows of \<open>a\<close>, then those of \<open>b\<close>, over the union of the
  columns (a column a table lacks is filled with NaN). Two datetime indexes in one time
  zone stay a datetime index; any other pair gives a plain index.
\<close>

definition concat_kind :: "index_kind \<Rightarrow> index_kind \<Rightarrow> index_kind" where
  "concat_kind a b =
     (case (a, b) of
        (DatetimeIndex s, DatetimeIndex t) \<Rightarrow>
          if s = t then DatetimeIndex s else OtherIndex None
      | (OtherIndex s, OtherIndex t) \<Rightarrow> OtherIndex (if s = t then s else None)
      | _ \<Rightarrow> OtherIndex None)"

definition concat_frames :: "frame \<Rightarrow> frame \<Rightarrow> frame" where
  "concat_frames a b =
     (let names = colnames a @ filter (\<lambda>n. n \<notin> set (colnames a)) (colnames b);
          widen = (\<lambda>df. map (\<lambda>r. (fst r, map (get_cell (colnames df) (snd r)) names)) (rows df))
      in \<lparr>kind = concat_kind (kind a) (kind b), colnames = names, rows = widen a @ widen b\<rparr>)"

text \<open>
  \<open>df.reset_index()\<close> on a table whose index is not a datetime index: the labels
  become the first column, named after the index (\<open>index\<close>, or \<open>level_0\<close> when a column
  \<open>index\<close> exists, for an index with no name), and the rows are numbered from 0. pandas
  raises \<open>ValueError\<close> when the column exists already.
\<close>

fun renumber :: "int \<Rightarrow> (int \<times> cell list) list \<Rightarrow> (int \<times> cell list) list" where
  "renumber i [] = []"
| "renumber i (r # rs) = (i, Num (of_int (fst r)) # snd r) # renumber (i + 1) rs"

definition reset_index :: "string option \<Rightarrow> frame \<Rightarrow> error + frame" where
  "reset_index name df =
     (let c = (case name of
                 Some n \<Rightarrow> n
               | None \<Rightarrow> if ''index'' \<in> set (colnames df) then ''level_0'' else ''index'')
      in if c \<in> set (colnames df) then Inl ValueError
         else Inr \<lparr>kind = OtherIndex None, colnames = c # colnames df,
                   rows = renumber 0 (rows df)\<rparr>)"

definition rename_column :: "string \<Rightarrow> string \<Rightarrow> frame \<Rightarrow> frame" where
  "rename_column old new df = df\<lparr>colnames := map (\<lambda>c. if c = old then new else c) (colnames df)\<rparr>"

text \<open>
  \<open>df['timestamp'] = pd.to_datetime(df['timestamp'], utc=True)\<close> followed by
  \<open>df.set_index('timestamp')\<close>: the converted column becomes the (UTC) datetime index
  and leaves the columns.
\<close>

fun those_all :: "'a option list \<Rightarrow> 'a list option" where
  "those_all [] = Some []"
| "those_all (x # xs) =
     (case x of
        None \<Rightarrow> None
      | Some y \<Rightarrow> (case those_all xs of None \<Rightarrow> None | Some ys \<Rightarrow> Some (y # ys)))"

definition without_nth :: "nat \<Rightarrow> 'a list \<Rightarrow> 'a list" where
  "without_nth i xs = take i xs @ drop (Suc i) xs"

definition set_timestamp_index :: "pandas \<Rightarrow> frame \<Rightarrow> error + frame" where
  "set_timestamp_index pd df =
     (case pos ''timestamp'' (colnames df) of
        None \<Rightarrow> Inl KeyError
      | Some i \<Rightarrow>
          (case those_all (map (to_datetime pd) (column df ''timestamp'')) of
             None \<Rightarrow> Inl ValueError
           | Some ts \<Rightarrow>
               Inr \<lparr>kind = DatetimeIndex (Some ''UTC''),
                    colnames = without_nth i (colnames df),
                    rows = map (\<lambda>(t, r). (t, without_nth i (snd r))) (zip ts (rows df))\<rparr>))"

text \<open>\<open>df[required_cols].astype(float)\<close>; a cell that is no float raises.\<close>

definition required_cols :: "string list" where
  "required_cols = [''open'', ''high'', ''low'', ''close'', ''volume'']"

definition astype_float :: "pandas \<Rightarrow> cell \<Rightarrow> cell option" where
  "astype_float pd c = (case c of Num r \<Rightarrow> Some (Num r) | NaN \<Rightarrow> Some NaN | Obj s \<Rightarrow> parse_float pd s)"

definition select_astype_float :: "pandas \<Rightarrow> string list \<Rightarrow> frame \<Rightarrow> error + frame" where
  "select_astype_float pd names df =
     (case those_all
             (map (\<lambda>r. map_option (Pair (fst r))
                          (those_all (map (\<lambda>n. astype_float pd (get_cell (colnames df) (snd r) n)) names)))
                  (rows df)) of
        None \<Rightarrow> Inl ValueError
      | Some rs \<Rightarrow> Inr \<lparr>kind = kind df, colnames = names, rows = rs\<rparr>)"

section \<open>The standardizer of the resilient fetcher\<close>

text \<open>
  \<open>MarketDataFetcher._standardize_dataframe\<close>. Every exception of its body is caught and
  turned into \<open>None\<close>. The function returns a pair: the caller's table as it is after the
  call, and the result. With a datetime index the source assigns the converted index
  to \<open>df.index\<close>, that is to the object the caller passed; with any other index it
  rebinds \<open>df\<close> to the new table \<open>reset_index\<close> returns, and the caller's object is not
  touched.
\<close>

definition standardize_tail :: "pandas \<Rightarrow> frame \<Rightarrow> frame option" where
  "standardize_tail pd df0 =
     (let df = sort_index df0
      in if \<not> list_all (\<lambda>c. c \<in> set (colnames df)) required_cols then None
         else (case select_astype_float pd required_cols df of
                 Inl e \<Rightarrow> None
               | Inr out \<Rightarrow> Some out))"

definition standardize_dataframe :: "pandas \<Rightarrow> frame \<Rightarrow> frame \<times> frame option" where
  "standardize_dataframe pd df =
     (case kind df of
        DatetimeIndex tz \<Rightarrow>
          (let df' = df\<lparr>kind := DatetimeIndex (Some ''UTC'')\<rparr>
           in (df', standardize_tail pd df'))
      | OtherIndex name \<Rightarrow>
          (df,
           case reset_index name df of
             Inl e \<Rightarrow> None
           | Inr df1 \<Rightarrow>
               (let ts_col = (if ''timestamp'' \<in> set (colnames df1) then Some ''timestamp''
                              else if ''index'' \<in> set (colnames df1) then Some ''index''
                              else None)
                in case ts_col of
                     None \<Rightarrow> None
                   | Some c \<Rightarrow>
                       (case set_timestamp_index pd (rename_column c ''timestamp'' df1) of
                          Inl e \<Rightarrow> None
                        | Inr df2 \<Rightarrow> standardize_tail pd df2))))"

text \<open>
  The first half of \<open>_standardize_dataframe\<close> on its own: the table the source sorts,
  that is the input once its timestamps are its index, or \<open>None\<close> when the source
  returns \<open>None\<close> or raises before it comes to \<open>sort_index\<close>. A table has a usable
  timestamp when this is not \<open>None\<close>.
\<close>

definition timestamps_to_index :: "pandas \<Rightarrow> frame \<Rightarrow> frame option" where
  "timestamps_to_index pd df =
     (case kind df of
        DatetimeIndex tz \<Rightarrow> Some (df\<lparr>kind := DatetimeIndex (Some ''UTC'')\<rparr>)
      | OtherIndex name \<Rightarrow>
          (case reset_index name df of
             Inl e \<Rightarrow> None
           | Inr df1 \<Rightarrow>
               (let ts_col = (if ''timestamp'' \<in> set (colnames df1) then Some ''timestamp''
                              else if ''index'' \<in> set (colnames df1) then Some ''index''
                              else None)
                in case ts_col of
                     None \<Rightarrow> None
                   | Some c \<Rightarrow>
                       (case set_timestamp_index pd (rename_column c ''timestamp'' df1) of
                          Inl e \<Rightarrow> None
                        | Inr df2 \<Rightarrow> Some df2))))"

section \<open>The cleaning step of the data provider\<close>

text \<open>
  \<open>DataProvider._clean_and_prepare_data\<close>. It works on a copy, so the model is a pure
  function. \<open>pd.DataFrame()\<close> is the table with no column and no row.
\<close>

definition empty_frame :: frame where
  "empty_frame = \<lparr>kind = OtherIndex None, colnames = [], rows = []\<rparr>"

definition isna :: "cell \<Rightarrow> bool" where
  "isna c \<longleftrightarrow> c = NaN"

definition dropna :: "string list \<Rightarrow> frame \<Rightarrow> frame" where
  "dropna names df =
     df\<lparr>rows := filter (\<lambda>r. \<not> list_ex (\<lambda>n. isna (get_cell (colnames df) (snd r) n)) names) (rows df)\<rparr>"

definition to_numeric :: "pandas \<Rightarrow> cell \<Rightarrow> cell" where
  "to_numeric pd c =
     (case c of
        Num r \<Rightarrow> Num r
      | NaN \<Rightarrow> NaN
      | Obj s \<Rightarrow> (case parse_float pd s of Some v \<Rightarrow> v | None \<Rightarrow> NaN))"

text \<open>
  \<open>.fillna(0).astype(np.int64)\<close> on the numbers \<open>to_numeric\<close> left: NaN has become 0, the
  fraction is dropped (towards zero), and a number whose integer part does not fit in
  64 bits comes out as the least 64-bit integer, \<open>-2^63\<close> (the conversion does not wrap
  and does not raise on a finite float). The infinite floats, on which \<open>astype\<close> raises,
  are no reals: like NaT they are not modelled.
\<close>

definition int64_min :: int where
  "int64_min = - (2 ^ 63)"

definition to_int64 :: "cell \<Rightarrow> cell" where
  "to_int64 c =
     (case c of
        Num r \<Rightarrow>
          (let i = (if 0 \<le> r then \<lfloor>r\<rfloor> else \<lceil>r\<rceil>)
           in Num (of_int (if int64_min \<le> i \<and> i < 2 ^ 63 then i else int64_min)))
      | _ \<Rightarrow> Num 0)"

definition map_column :: "string \<Rightarrow> (cell \<Rightarrow> cell) \<Rightarrow> frame \<Rightarrow> frame" where
  "map_column n f df =
     (case pos n (colnames df) of
        None \<Rightarrow> df
      | Some i \<Rightarrow> df\<lparr>rows := map (\<lambda>r. (fst r, (snd r)[i := f (get_cell (colnames df) (snd r) n)])) (rows df)\<rparr>)"

definition clean_and_prepare_data :: "pandas \<Rightarrow> frame \<Rightarrow> frame" where
  "clean_and_prepare_data pd df =
     (if empty df then df
      else if \<not> list_all (\<lambda>c. c \<in> set (colnames df)) required_cols then empty_frame
      else
        (let df1 = dropna required_cols df;
             df2 = drop_duplicated_index df1;
             df3 = sort_index df2;
             df4 = fold (\<lambda>c. map_column c (to_numeric pd)) [''open'', ''high'', ''low'', ''close''] df3
         in map_column ''volume'' (\<lambda>c. to_int64 (to_numeric pd c)) df4))"

text \<open>
  What the conversions at the end of \<open>_clean_and_prepare_data\<close> make of the cells of one
  row: \<open>to_numeric\<close> on the four prices, then \<open>to_numeric\<close> and the conversion to
  \<open>int64\<close> on the volume.
\<close>

definition convert_cell :: "string list \<Rightarrow> string \<Rightarrow> (cell \<Rightarrow> cell) \<Rightarrow> cell list \<Rightarrow> cell list" where
  "convert_cell names n f vs =
     (case pos n names of None \<Rightarrow> vs | Some i \<Rightarrow> vs[i := f (get_cell names vs n)])"

definition clean_cells :: "pandas \<Rightarrow> string list \<Rightarrow> cell list \<Rightarrow> cell list" where
  "clean_cells pd names vs =
     convert_cell names ''volume'' (\<lambda>c. to_int64 (to_numeric pd c))
       (fold (\<lambda>c. convert_cell names c (to_numeric pd)) [''open'', ''high'', ''low'', ''close''] vs)"

section \<open>The resilient bar fetcher\<close>

text \<open>
  \<open>MarketDataFetcher\<close>. The brokerage client is an external collaborator: it is a
  parameter that answers the request it is given, and may answer the same request
  differently as the calls go by (its first argument is the number of requests made
  before). It returns a table, \<open>None\<close>, or raises.

  The state of the fetcher is its statistics, with two logs kept beside them: the
  requests sent to the client, and the (timeframe, lookback) of every call of
  \<open>get_bars\<close>, written where the source counts \<open>attempts\<close>.
\<close>

record bars_request =
  req_symbol :: string
  req_limit :: int
  req_timeframe :: string
  req_feed :: "string option"
  req_end :: "int option"

type_synonym bars_client = "nat \<Rightarrow> bars_request \<Rightarrow> error + frame option"

record fetcher =
  attempts :: nat
  successes :: nat
  feed_successes :: "string \<Rightarrow> nat"
  timeframe_successes :: "string \<rightharpoonup> nat"
  requests :: "bars_request list"
  attempt_log :: "(string \<times> int) list"

definition call_client :: "bars_client \<Rightarrow> bars_request \<Rightarrow> fetcher \<Rightarrow> fetcher \<times> (error + frame option)" where
  "call_client client rq st = (st\<lparr>requests := requests st @ [rq]\<rparr>, client (length (requests st)) rq)"

definition index_min :: "frame \<Rightarrow> int" where
  "index_min df = fold min (tl (labels df)) (hd (labels df))"

text \<open>
  One turn of the loop over the feeds, for one feed: \<open>Inl st\<close> when the loop goes on to
  the next feed (the fetch raised, gave nothing, could not be standardized or is too
  short), \<open>Inr (st, df)\<close> when \<open>get_bars\<close> returns \<open>df\<close>.
\<close>

definition try_feed ::
  "pandas \<Rightarrow> bars_client \<Rightarrow> string \<Rightarrow> int \<Rightarrow> string \<Rightarrow> int \<Rightarrow> string option \<Rightarrow> fetcher
     \<Rightarrow> fetcher + fetcher \<times> frame" where
  "try_feed pd client symbol lookback_bars timeframe min_required_bars feed st =
     (let feed_name = (case feed of Some f \<Rightarrow> f | None \<Rightarrow> ''default'');
          params = \<lparr>req_symbol = symbol, req_limit = min 1000 lookback_bars,
                    req_timeframe = timeframe, req_feed = feed, req_end = None\<rparr>;
          (st1, r1) = call_client client params st
      in case r1 of
           Inl e \<Rightarrow> Inl st1
         | Inr None \<Rightarrow> Inl st1
         | Inr (Some bars_df) \<Rightarrow>
             (let paginate = (\<not> empty bars_df \<and> len bars_df < lookback_bars);
                  (st2, r2) =
                     (if paginate
                      then call_client client (params\<lparr>req_end := Some (index_min bars_df)\<rparr>) st1
                      else (st1, Inr None))
              in case r2 of
                   Inl e \<Rightarrow> Inl st2
                 | Inr more_r \<Rightarrow>
                     (let bars_df2 =
                            (case more_r of
                               None \<Rightarrow> bars_df
                             | Some more_bars_df \<Rightarrow>
                                 if empty more_bars_df then bars_df
                                 else drop_duplicated_index (concat_frames more_bars_df bars_df))
                      in if empty bars_df2 then Inl st2
                         else (case snd (standardize_dataframe pd bars_df2) of
                                 None \<Rightarrow> Inl st2
                               | Some out \<Rightarrow>
                                   if len out \<ge> min_required_bars
                                   then Inr (st2\<lparr>successes := successes st2 + 1,
                                                 feed_successes := (feed_successes st2)
                                                     (feed_name := feed_successes st2 feed_name + 1),
                                                 timeframe_successes := (timeframe_successes st2)
                                                     (timeframe \<mapsto>
                                                        (case timeframe_successes st2 timeframe of
                                                           None \<Rightarrow> 0 | Some k \<Rightarrow> k) + 1)\<rparr>,
                                             out)
                                   else Inl st2))))"

fun try_feeds ::
  "pandas \<Rightarrow> bars_client \<Rightarrow> string \<Rightarrow> int \<Rightarrow> string \<Rightarrow> int \<Rightarrow> string option list \<Rightarrow> fetcher
     \<Rightarrow> fetcher \<times> frame option" where
  "try_feeds pd client symbol lookback_bars timeframe min_required_bars [] st = (st, None)"
| "try_feeds pd client symbol lookback_bars timeframe min_required_bars (feed # feeds) st =
     (case try_feed pd client symbol lookback_bars timeframe min_required_bars feed st of
        Inr (st', df) \<Rightarrow> (st', Some df)
      | Inl st' \<Rightarrow> try_feeds pd client symbol lookback_bars timeframe min_required_bars feeds st')"

definition feeds_to_try :: "string option list" where
  "feeds_to_try = [Some ''sip'', None, Some ''iex'']"

text \<open>The table of fallback paths of \<open>_try_timeframe_fallbacks\<close>, as it is written there.\<close>

definition fallbacks :: "string \<Rightarrow> string list" where
  "fallbacks timeframe =
     (if timeframe = ''1Min'' then [''2Min'', ''5Min'', ''15Min'', ''1H'', ''1D'']
      else if timeframe = ''2Min'' then [''5Min'', ''15Min'', ''1H'', ''1D'']
      else if timeframe = ''5Min'' then [''15Min'', ''1H'', ''1D'']
      else if timeframe = ''15Min'' then [''30Min'', ''1H'', ''1D'']
      else if timeframe = ''30Min'' then [''1H'', ''1D'']
      else if timeframe = ''1H'' then [''1D'']
      else [])"

text \<open>How far a timeframe is from the end of the fallback paths (0 when it has none).\<close>

definition depth :: "string \<Rightarrow> nat" where
  "depth timeframe =
     (if timeframe = ''1Min'' then 6
      else if timeframe = ''2Min'' then 5
      else if timeframe = ''5Min'' then 4
      else if timeframe = ''15Min'' then 3
      else if timeframe = ''30Min'' then 2
      else if timeframe = ''1H'' then 1
      else 0)"

text \<open>\<open>min_required_bars or lookback_bars\<close>: \<open>None\<close> and 0 both give the lookback.\<close>

definition or_default :: "int option \<Rightarrow> int \<Rightarrow> int" where
  "or_default v d = (case v of None \<Rightarrow> d | Some x \<Rightarrow> if x = 0 then d else x)"

text \<open>
  \<open>get_bars\<close> and \<open>_try_timeframe_fallbacks\<close> call each other. The recursion ends: a
  fallback moves to a timeframe of smaller depth, and the retry of the daily timeframe
  asks for at most 100 bars, which rules a second retry out.
\<close>

function get_bars ::
    "pandas \<Rightarrow> bars_client \<Rightarrow> string \<Rightarrow> int \<Rightarrow> string \<Rightarrow> int option \<Rightarrow> fetcher
       \<Rightarrow> fetcher \<times> frame option"
  and try_timeframe_fallbacks ::
    "pandas \<Rightarrow> bars_client \<Rightarrow> string \<Rightarrow> int \<Rightarrow> string \<Rightarrow> int \<Rightarrow> fetcher
       \<Rightarrow> fetcher \<times> frame option" where
  "get_bars pd client symbol lookback_bars timeframe min_required_bars st =
     (let st0 = st\<lparr>attempts := attempts st + 1,
                   attempt_log := attempt_log st @ [(timeframe, lookback_bars)]\<rparr>;
          min_required = or_default min_required_bars lookback_bars
      in case try_feeds pd client symbol lookback_bars timeframe min_required feeds_to_try st0 of
           (st1, Some df) \<Rightarrow> (st1, Some df)
         | (st1, None) \<Rightarrow>
             try_timeframe_fallbacks pd client symbol lookback_bars timeframe min_required st1)"
| "try_timeframe_fallbacks pd client symbol lookback_bars timeframe min_required_bars st =
     (case fallbacks timeframe of
        [] \<Rightarrow>
          if timeframe = ''1D'' \<and> lookback_bars > 100
          then get_bars pd client symbol (min 100 min_required_bars) timeframe
                 (Some min_required_bars) st
          else (st, None)
      | next_timeframe # others \<Rightarrow>
          get_bars pd client symbol lookback_bars next_timeframe (Some min_required_bars) st)"
  by pat_completeness auto

termination
proof (relation "measure (\<lambda>a. case a of
          Inl (pd, client, symbol, lookback_bars, timeframe, min_required_bars, st) \<Rightarrow>
            4 * depth timeframe + (if lookback_bars > 100 then 2 else 0) + 1
        | Inr (pd, client, symbol, lookback_bars, timeframe, min_required_bars, st) \<Rightarrow>
            4 * depth timeframe + (if lookback_bars > 100 then 2 else 0))", goal_cases)
  case 1
  show ?case by simp
next
  case (2 pd client symbol lookback_bars timeframe min_required_bars st)
  show ?case by simp
next
  case (3 pd client symbol lookback_bars timeframe min_required_bars st)
  then show ?case by simp
next
  case (4 pd client symbol lookback_bars timeframe min_required_bars st next_timeframe others)
  then have "depth next_timeframe < depth timeframe"
    by (auto simp: fallbacks_def depth_def split: if_splits)
  then show ?case by simp
qed

declare get_bars.simps [simp del] try_timeframe_fallbacks.simps [simp del]

text \<open>
  The timeframes \<open>get_bars\<close> goes through from a given one when every feed fails:
  each time the first option of the fallback path. \<open>expected\<close> is the whole list of
  its calls in that case, the retry of the daily timeframe with at most 100 bars at
  the end.
\<close>

function path :: "string \<Rightarrow> string list" where
  "path timeframe =
     timeframe # (case fallbacks timeframe of [] \<Rightarrow> [] | next_timeframe # others \<Rightarrow> path next_timeframe)"
  by pat_completeness auto

termination
  by (relation "measure depth") (auto simp: fallbacks_def depth_def split: if_splits)

declare path.simps [simp del]

definition expected :: "string \<Rightarrow> int \<Rightarrow> int \<Rightarrow> (string \<times> int) list" where
  "expected timeframe lookback_bars min_required =
     map (\<lambda>t. (t, lookback_bars)) (path timeframe) @
     (if last (path timeframe) = ''1D'' \<and> lookback_bars > 100
      then [(''1D'', min 100 min_required)] else [])"

definition chain :: "string list" where
  "chain = [''1Min'', ''2Min'', ''5Min'', ''15Min'', ''30Min'', ''1H'', ''1D'']"

section \<open>The brokerage and the clock\<close>

text \<open>
  The trading bot talks to the brokerage through the asynchronous client of
  \<open>src/api/alpaca.py\<close>, an external collaborator: each of its operations is a parameter
  that may raise, and that may answer differently from one call to the next (the first
  argument is the number of calls made before). \<open>clock\<close> gives the successive readings
  of \<open>datetime.now()\<close>, in microseconds. Every call is logged with its answer.

  A dictionary is an association list in insertion order (\<open>AList.update\<close> is the
  assignment \<open>d[k] = v\<close>).
\<close>

record position =
  pos_symbol :: string
  pos_qty :: int

record bars_query =
  q_symbols :: "string list"
  q_timeframe :: string
  q_limit :: int
  q_start :: "string option"
  q_end :: "string option"

record order_request =
  o_symbol :: string
  o_qty :: int
  o_side :: string
  o_type :: string
  o_stop_price :: "real option"
  o_time_in_force :: string

type_synonym bars_data = "(string \<times> frame) list"

text \<open>
  The dictionary an order comes back as: \<open>None\<close> is the empty dictionary the client
  returns when the submission failed, \<open>Some oid\<close> a dictionary whose \<open>id\<close> is \<open>oid\<close>.
\<close>

type_synonym order_dict = "string option"

record env =
  api_get_account :: "nat \<Rightarrow> error + (string \<times> real) list"
  api_list_positions :: "nat \<Rightarrow> error + position list"
  api_get_bars :: "nat \<Rightarrow> bars_query \<Rightarrow> error + bars_data"
  api_create_order :: "nat \<Rightarrow> order_request \<Rightarrow> error + order_dict"
  api_close_position :: "nat \<Rightarrow> string \<Rightarrow> error + order_dict"
  clock :: "nat \<Rightarrow> int"

datatype call =
    GetAccount
  | ListPositions
  | GetBars bars_query
  | CreateOrder order_request
  | ClosePosition string

datatype reply =
    Raised error
  | GotAccount "(string \<times> real) list"
  | GotPositions "position list"
  | GotBars bars_data
  | GotOrder order_dict

record world =
  calls :: "(call \<times> reply) list"
  ticks :: nat

definition now :: "env \<Rightarrow> world \<Rightarrow> int \<times> world" where
  "now e w = (clock e (ticks w), w\<lparr>ticks := ticks w + 1\<rparr>)"

definition logged :: "call \<Rightarrow> ('a \<Rightarrow> reply) \<Rightarrow> error + 'a \<Rightarrow> world \<Rightarrow> (error + 'a) \<times> world" where
  "logged c wrap r w =
     (r, w\<lparr>calls := calls w @ [(c, case r of Inl err \<Rightarrow> Raised err | Inr v \<Rightarrow> wrap v)]\<rparr>)"

definition get_account :: "env \<Rightarrow> world \<Rightarrow> (error + (string \<times> real) list) \<times> world" where
  "get_account e w = logged GetAccount GotAccount (api_get_account e (length (calls w))) w"

definition list_positions :: "env \<Rightarrow> world \<Rightarrow> (error + position list) \<times> world" where
  "list_positions e w = logged ListPositions GotPositions (api_list_positions e (length (calls w))) w"

definition client_get_bars :: "env \<Rightarrow> bars_query \<Rightarrow> world \<Rightarrow> (error + bars_data) \<times> world" where
  "client_get_bars e q w = logged (GetBars q) GotBars (api_get_bars e (length (calls w)) q) w"

definition create_order :: "env \<Rightarrow> order_request \<Rightarrow> world \<Rightarrow> (error + order_dict) \<times> world" where
  "create_order e rq w = logged (CreateOrder rq) GotOrder (api_create_order e (length (calls w)) rq) w"

definition close_position :: "env \<Rightarrow> string \<Rightarrow> world \<Rightarrow> (error + order_dict) \<times> world" where
  "close_position e s w = logged (ClosePosition s) GotOrder (api_close_position e (length (calls w)) s) w"

section \<open>The data provider and its cache\<close>

text \<open>\<open>DataProvider\<close>: the cache, the time each entry was stored, and the counters.\<close>

record provider =
  cache :: "(string \<times> bars_data) list"
  cache_timestamps :: "(string \<times> int) list"
  stat_requests :: nat
  stat_cache_hits :: nat
  stat_failed_requests :: nat
  last_request_time :: "int option"

text \<open>\<open>timedelta(minutes=5)\<close>, in microseconds.\<close>

definition cache_duration :: int where
  "cache_duration = 5 * 60 * 1000000"

text \<open>The decimal notation of an integer, as an f-string prints it.\<close>

function str_nat :: "nat \<Rightarrow> string" where
  "str_nat n =
     (if n < 10 then [char_of (48 + n)] else str_nat (n div 10) @ [char_of (48 + n mod 10)])"
  by pat_completeness auto

termination
  by (relation "measure id") auto

declare str_nat.simps [simp del]

definition str_int :: "int \<Rightarrow> string" where
  "str_int i = (if i < 0 then CHR ''-'' # str_nat (nat (- i)) else str_nat (nat i))"

fun join :: "string \<Rightarrow> string list \<Rightarrow> string" where
  "join sep [] = []"
| "join sep [x] = x"
| "join sep (x # y # zs) = x @ sep @ join sep (y # zs)"

text \<open>\<open>f"{','.join(sorted(symbols))}_{timeframe}_{limit}"\<close>\<close>

definition make_cache_key :: "string list \<Rightarrow> string \<Rightarrow> int \<Rightarrow> string" where
  "make_cache_key syms timeframe limit =
     join '','' (sort syms) @ ''_'' @ timeframe @ ''_'' @ str_int limit"

text \<open>
  \<open>_is_cache_valid\<close>: the clock is read only when the key has a timestamp.
\<close>

definition is_cache_valid :: "env \<Rightarrow> string \<Rightarrow> provider \<Rightarrow> world \<Rightarrow> bool \<times> world" where
  "is_cache_valid e cache_key p w =
     (case map_of (cache_timestamps p) cache_key of
        None \<Rightarrow> (False, w)
      | Some stamp \<Rightarrow> (let (t, w') = now e w in (t - stamp < cache_duration, w')))"

definition clean_all :: "pandas \<Rightarrow> bars_data \<Rightarrow> bars_data" where
  "clean_all pd data = map (\<lambda>(s, df). (s, if empty df then df else clean_and_prepare_data pd df)) data"

text \<open>
  The path of \<open>DataProvider.get_bars\<close> that goes to the brokerage: fetch, clean every
  table, and store the result under the key when the cache is in use and the result is
  not empty. An exception ends in the empty dictionary and one more failed request.
\<close>

definition fetch_and_store ::
  "pandas \<Rightarrow> env \<Rightarrow> bars_query \<Rightarrow> bool \<Rightarrow> string \<Rightarrow> provider \<Rightarrow> world
     \<Rightarrow> bars_data \<times> provider \<times> world" where
  "fetch_and_store pd e q use_cache cache_key p w =
     (let (r, w1) = client_get_bars e q w
      in case r of
           Inl err \<Rightarrow> ([], p\<lparr>stat_failed_requests := stat_failed_requests p + 1\<rparr>, w1)
         | Inr raw \<Rightarrow>
             (let data = clean_all pd raw
              in if use_cache \<and> data \<noteq> []
                 then (let (t, w2) = now e w1
                       in (data,
                           p\<lparr>cache := AList.update cache_key data (cache p),
                             cache_timestamps := AList.update cache_key t (cache_timestamps p)\<rparr>,
                           w2))
                 else (data, p, w1)))"

definition provider_get_bars ::
  "pandas \<Rightarrow> env \<Rightarrow> string list \<Rightarrow> string \<Rightarrow> int \<Rightarrow> string option \<Rightarrow> string option \<Rightarrow> bool
     \<Rightarrow> provider \<Rightarrow> world \<Rightarrow> bars_data \<times> provider \<times> world" where
  "provider_get_bars pd e syms timeframe limit start end_time use_cache p w =
     (let (t0, w0) = now e w;
          p0 = p\<lparr>stat_requests := stat_requests p + 1, last_request_time := Some t0\<rparr>;
          cache_key = make_cache_key syms timeframe limit;
          q = \<lparr>q_symbols = syms, q_timeframe = timeframe, q_limit = limit,
               q_start = start, q_end = end_time\<rparr>
      in if use_cache
         then (case map_of (cache p0) cache_key of
                 None \<Rightarrow> fetch_and_store pd e q use_cache cache_key p0 w0
               | Some stored \<Rightarrow>
                   (let (valid, w1) = is_cache_valid e cache_key p0 w0
                    in if valid
                       then (stored, p0\<lparr>stat_cache_hits := stat_cache_hits p0 + 1\<rparr>, w1)
                       else fetch_and_store pd e q use_cache cache_key p0 w1))
         else fetch_and_store pd e q use_cache cache_key p0 w0)"

text \<open>
  \<open>clear_cache\<close> and \<open>close\<close>. Both are declared \<open>async\<close>: calling one builds a coroutine,
  and only \<open>await\<close> runs its body. \<open>close\<close> calls \<open>self.clear_cache()\<close> without awaiting
  it, so the coroutine is built and dropped.
\<close>

datatype coroutine = Coroutine "provider \<Rightarrow> provider"

definition await :: "coroutine \<Rightarrow> provider \<Rightarrow> provider" where
  "await c p = (case c of Coroutine body \<Rightarrow> body p)"

definition clear_cache_body :: "provider \<Rightarrow> provider" where
  "clear_cache_body p = p\<lparr>cache := [], cache_timestamps := []\<rparr>"

definition clear_cache :: coroutine where
  "clear_cache = Coroutine clear_cache_body"

definition close_body :: "provider \<Rightarrow> provider" where
  "close_body p = (let dropped = clear_cache in p)"

definition close :: coroutine where
  "close = Coroutine close_body"

section \<open>Strategies\<close>

text \<open>
  A signal is the dictionary a strategy returns, with the keys the bot reads. A
  strategy is its two operations; \<open>analyze\<close> may raise, and may return \<open>None\<close>.
\<close>

record signal =
  action :: "string option"
  price :: "real option"
  stop_loss :: "real option"

record data_requirements =
  need_timeframe :: string
  need_lookback_bars :: int
  need_min_required_bars :: int

record strategy =
  analyze :: "string \<Rightarrow> frame \<Rightarrow> error + signal option"
  get_required_data :: data_requirements

definition null_signal :: signal where
  "null_signal = \<lparr>action = None, price = None, stop_loss = None\<rparr>"

text \<open>
  \<open>rolling(window=w).mean()\<close> at row \<open>i\<close>: undefined (NaN, here \<open>None\<close>) until the window
  is full and whenever a value of the window is NaN.
\<close>

definition rolling_mean :: "int \<Rightarrow> real option list \<Rightarrow> nat \<Rightarrow> real option" where
  "rolling_mean w xs i =
     (if w \<le> 0 \<or> int i + 1 < w then None
      else map_option (\<lambda>vs. sum_list vs / real_of_int w)
             (those_all (take (nat w) (drop (i + 1 - nat w) xs))))"

text \<open>The numbers of a column; \<open>None\<close> when a cell is no number (pandas raises).\<close>

definition numeric :: "cell list \<Rightarrow> real option list option" where
  "numeric cs =
     those_all (map (\<lambda>c. case c of Num r \<Rightarrow> Some (Some r) | NaN \<Rightarrow> Some None | Obj s \<Rightarrow> None) cs)"

text \<open>\<open>series.iloc[-k]\<close> for \<open>k\<close> = 1, 2: \<open>None\<close> is the IndexError.\<close>

definition iloc_from_end :: "'a list \<Rightarrow> nat \<Rightarrow> 'a option" where
  "iloc_from_end xs k = (if 1 \<le> k \<and> k \<le> length xs then Some (xs ! (length xs - k)) else None)"

text \<open>
  \<open>MAStrategy.calculate_moving_averages\<close>: the closes with the two series of means,
  or \<open>None\<close> (too few rows, or an exception: no column \<open>close\<close>, a close that is no
  number, a negative window).
\<close>

definition calculate_moving_averages ::
  "int \<Rightarrow> int \<Rightarrow> frame \<Rightarrow> (real option list \<times> real option list \<times> real option list) option" where
  "calculate_moving_averages short_window long_window data =
     (if len data < long_window then None
      else if ''close'' \<notin> set (colnames data) then None
      else (case numeric (column data ''close'') of
              None \<Rightarrow> None
            | Some closes \<Rightarrow>
                if short_window < 0 \<or> long_window < 0 then None
                else Some (closes,
                           map (rolling_mean short_window closes) [0..<length closes],
                           map (rolling_mean long_window closes) [0..<length closes])))"

definition MA_analyze :: "int \<Rightarrow> int \<Rightarrow> string \<Rightarrow> frame \<Rightarrow> signal" where
  "MA_analyze short_window long_window symbol data =
     (case calculate_moving_averages short_window long_window data of
        None \<Rightarrow> null_signal
      | Some (closes, ma_short, ma_long) \<Rightarrow>
          if length closes < 2 then null_signal
          else (case (iloc_from_end ma_short 1, iloc_from_end ma_long 1,
                      iloc_from_end ma_short 2, iloc_from_end ma_long 2,
                      iloc_from_end closes 1) of
                  (Some (Some current_short_ma), Some (Some current_long_ma),
                   Some (Some prev_short_ma), Some (Some prev_long_ma),
                   Some (Some current_price)) \<Rightarrow>
                     if prev_short_ma \<le> prev_long_ma \<and> current_short_ma > current_long_ma
                     then \<lparr>action = Some ''buy'', price = Some current_price,
                           stop_loss = Some (current_price * 0.95)\<rparr>
                     else if prev_short_ma \<ge> prev_long_ma \<and> current_short_ma < current_long_ma
                     then \<lparr>action = Some ''sell'', price = Some current_price, stop_loss = None\<rparr>
                     else null_signal
                | _ \<Rightarrow> null_signal))"

definition MAStrategy :: "int \<Rightarrow> int \<Rightarrow> strategy" where
  "MAStrategy short_window long_window =
     \<lparr>analyze = (\<lambda>symbol data. Inr (Some (MA_analyze short_window long_window symbol data))),
      get_required_data = \<lparr>need_timeframe = ''1H'', need_lookback_bars = long_window + 10,
                            need_min_required_bars = long_window + 1\<rparr>\<rparr>"

section \<open>The trading bot\<close>

text \<open>
  \<open>TradingBot\<close>: its configuration, and the state it keeps between cycles (the data
  provider, the snapshots of the positions and of the account) together with the log
  of what happened outside.
\<close>

record bot =
  symbols :: "string list"
  strategies :: "strategy list"
  max_positions :: int
  risk_per_trade :: real
  time_frame :: string

record bot_state =
  data_provider :: provider
  positions :: "(string \<times> position) list"
  account_info :: "(string \<times> real) list"
  outside :: world

definition update_account_info :: "env \<Rightarrow> bot_state \<Rightarrow> bot_state" where
  "update_account_info e st =
     (let (r, w) = get_account e (outside st)
      in case r of
           Inl err \<Rightarrow> st\<lparr>outside := w\<rparr>
         | Inr account \<Rightarrow> st\<lparr>account_info := account, outside := w\<rparr>)"

definition update_positions :: "env \<Rightarrow> bot_state \<Rightarrow> bot_state" where
  "update_positions e st =
     (let (r, w) = list_positions e (outside st)
      in case r of
           Inl err \<Rightarrow> st\<lparr>outside := w\<rparr>
         | Inr ps \<Rightarrow> st\<lparr>positions := fold (\<lambda>p d. AList.update (pos_symbol p) p d) ps [],
                          outside := w\<rparr>)"

text \<open>
  \<open>_fetch_data_for_symbol\<close>: one request to the data provider, for the one symbol, with
  the timeframe of the bot and a limit of 100.
\<close>

definition fetch_data_for_symbol ::
  "pandas \<Rightarrow> env \<Rightarrow> bot \<Rightarrow> string \<Rightarrow> bot_state \<Rightarrow> frame option \<times> bot_state" where
  "fetch_data_for_symbol pd e b symbol st =
     (let (data, p, w) = provider_get_bars pd e [symbol] (time_frame b) 100 None None True
                            (data_provider st) (outside st);
          st' = st\<lparr>data_provider := p, outside := w\<rparr>
      in (if data = [] then None else map_of data symbol, st'))"

text \<open>\<open>int(x)\<close> on a float: towards zero.\<close>

definition py_int :: "real \<Rightarrow> int" where
  "py_int x = (if 0 \<le> x then \<lfloor>x\<rfloor> else \<lceil>x\<rceil>)"

text \<open>
  \<open>_execute_signal\<close>. \<open>not price\<close> holds of a missing price and of the price 0 alike. An
  exception of the client is caught and gives \<open>None\<close>.
\<close>

definition execute_signal ::
  "env \<Rightarrow> bot \<Rightarrow> string \<Rightarrow> signal \<Rightarrow> bot_state \<Rightarrow> string option \<times> bot_state" where
  "execute_signal e b symbol sg st =
     (if action sg \<notin> {Some ''buy'', Some ''sell'', Some ''exit''} then (None, st)
      else if action sg = Some ''buy'' then
        (let risk_amount =
               (case map_of (account_info st) ''equity'' of None \<Rightarrow> 0 | Some v \<Rightarrow> v)
                 * risk_per_trade b
         in case (price sg, stop_loss sg) of
              (Some entry, Some stop) \<Rightarrow>
                if entry = 0 \<or> stop = 0 then (None, st)
                else
                  (let risk_per_share = \<bar>entry - stop\<bar>
                   in if risk_per_share \<le> 0 then (None, st)
                      else
                        (let qty = py_int (risk_amount / risk_per_share)
                         in if qty \<le> 0 then (None, st)
                            else
                              (let (r1, w1) =
                                     create_order e
                                       \<lparr>o_symbol = symbol, o_qty = qty, o_side = ''buy'',
                                        o_type = ''market'', o_stop_price = None,
                                        o_time_in_force = ''day''\<rparr> (outside st)
                               in case r1 of
                                    Inl err \<Rightarrow> (None, st\<lparr>outside := w1\<rparr>)
                                  | Inr None \<Rightarrow> (None, st\<lparr>outside := w1\<rparr>)
                                  | Inr (Some oid) \<Rightarrow>
                                      (let (r2, w2) =
                                             create_order e
                                               \<lparr>o_symbol = symbol, o_qty = qty, o_side = ''sell'',
                                                o_type = ''stop'', o_stop_price = Some stop,
                                                o_time_in_force = ''gtc''\<rparr> w1
                                       in case r2 of
                                            Inl err \<Rightarrow> (None, st\<lparr>outside := w2\<rparr>)
                                          | Inr companion \<Rightarrow> (Some oid, st\<lparr>outside := w2\<rparr>)))))
            | _ \<Rightarrow> (None, st))
      else
        (let (r, w) = close_position e symbol (outside st)
         in case r of
              Inl err \<Rightarrow> (None, st\<lparr>outside := w\<rparr>)
            | Inr order \<Rightarrow> (order, st\<lparr>outside := w\<rparr>)))"

text \<open>
  The loop over the strategies for one symbol. The result says whether the cycle
  returned from inside the loop, and carries the slots left and the order ids obtained
  so far (every \<open>order_id\<close> that passed the test \<open>if order_id\<close>, in order). An empty
  identifier does not pass the test.
\<close>

fun apply_strategies ::
  "env \<Rightarrow> bot \<Rightarrow> string \<Rightarrow> frame \<Rightarrow> strategy list \<Rightarrow> int \<Rightarrow> string list \<Rightarrow> bot_state
     \<Rightarrow> bool \<times> int \<times> string list \<times> bot_state" where
  "apply_strategies e b symbol data [] available_slots ids st = (False, available_slots, ids, st)"
| "apply_strategies e b symbol data (s # ss) available_slots ids st =
     (case analyze s symbol data of
        Inl err \<Rightarrow> apply_strategies e b symbol data ss available_slots ids st
      | Inr None \<Rightarrow> apply_strategies e b symbol data ss available_slots ids st
      | Inr (Some sg) \<Rightarrow>
          (let (order_id, st') = execute_signal e b symbol sg st
           in case order_id of
                None \<Rightarrow> apply_strategies e b symbol data ss available_slots ids st'
              | Some oid \<Rightarrow>
                  if oid = [] then apply_strategies e b symbol data ss available_slots ids st'
                  else if available_slots - 1 \<le> 0
                  then (True, available_slots - 1, ids @ [oid], st')
                  else apply_strategies e b symbol data ss (available_slots - 1) (ids @ [oid]) st'))"

fun process_symbols ::
  "pandas \<Rightarrow> env \<Rightarrow> bot \<Rightarrow> string list \<Rightarrow> int \<Rightarrow> string list \<Rightarrow> bot_state
     \<Rightarrow> int \<times> string list \<times> bot_state" where
  "process_symbols pd e b [] available_slots ids st = (available_slots, ids, st)"
| "process_symbols pd e b (symbol # rest) available_slots ids st =
     (if map_of (positions st) symbol \<noteq> None
      then process_symbols pd e b rest available_slots ids st
      else
        (let (data, st1) = fetch_data_for_symbol pd e b symbol st
         in case data of
              None \<Rightarrow> process_symbols pd e b rest available_slots ids st1
            | Some df \<Rightarrow>
                if empty df then process_symbols pd e b rest available_slots ids st1
                else
                  (let (returned, slots, ids', st2) =
                         apply_strategies e b symbol df (strategies b) available_slots ids st1
                   in if returned then (slots, ids', st2)
                      else process_symbols pd e b rest slots ids' st2)))"

definition available_slots_of :: "bot \<Rightarrow> bot_state \<Rightarrow> int" where
  "available_slots_of b st = max 0 (max_positions b - int (length (positions st)))"

definition trading_cycle ::
  "pandas \<Rightarrow> env \<Rightarrow> bot \<Rightarrow> bot_state \<Rightarrow> int \<times> string list \<times> bot_state" where
  "trading_cycle pd e b st =
     (let st1 = update_account_info e st;
          st2 = update_positions e st1;
          available_slots = available_slots_of b st2
      in if available_slots = 0 then (available_slots, [], st2)
         else process_symbols pd e b (symbols b) available_slots [] st2)"

text \<open>\<open>_cleanup\<close> awaits the \<open>close\<close> of the data provider.\<close>

definition cleanup :: "bot_state \<Rightarrow> bot_state" where
  "cleanup st = st\<lparr>data_provider := await close (data_provider st)\<rparr>"

section \<open>Concrete inputs\<close>

text \<open>The inputs at which the statements below are instantiated.\<close>

definition nothing :: bars_client where
  "nothing = (\<lambda>k rq. Inr None)"

definition pd0 :: pandas where
  "pd0 = \<lparr>to_datetime = (\<lambda>c. case c of Num r \<Rightarrow> Some \<lfloor>r\<rfloor> | _ \<Rightarrow> None), parse_float = (\<lambda>s. None)\<rparr>"

definition f0 :: fetcher where
  "f0 = \<lparr>attempts = 0, successes = 0, feed_successes = (\<lambda>f. 0), timeframe_successes = Map.empty,
         requests = [], attempt_log = []\<rparr>"

definition f1 :: fetcher where
  "f1 = \<lparr>attempts = 1, successes = 0, feed_successes = (\<lambda>f. 0), timeframe_successes = Map.empty,
         requests = [\<lparr>req_symbol = ''AAPL'', req_limit = 150, req_timeframe = ''1Min'', req_feed = Some ''sip'', req_end = None\<rparr>,
                     \<lparr>req_symbol = ''AAPL'', req_limit = 150, req_timeframe = ''1Min'', req_feed = None, req_end = None\<rparr>,
                     \<lparr>req_symbol = ''AAPL'', req_limit = 150, req_timeframe = ''1Min'', req_feed = Some ''iex'', req_end = None\<rparr>],
         attempt_log = [(''1Min'', 150)]\<rparr>"

definition bar_row :: "int \<Rightarrow> real \<Rightarrow> int \<times> cell list" where
  "bar_row t c = (t, [Num c, Num c, Num c, Num c, Num 1000])"

definition naive_df :: frame where
  "naive_df = \<lparr>kind = DatetimeIndex None, colnames = required_cols,
               rows = [bar_row 2 10, bar_row 1 11, bar_row 2 12]\<rparr>"

definition stored_data :: bars_data where
  "stored_data = [(''AAPL'', naive_df)]"

definition p1 :: provider where
  "p1 = \<lparr>cache = [(''AAPL_1Min_100'', stored_data)], cache_timestamps = [(''AAPL_1Min_100'', 0)],
         stat_requests = 1, stat_cache_hits = 0, stat_failed_requests = 0,
         last_request_time = Some 0\<rparr>"

definition w0 :: world where
  "w0 = \<lparr>calls = [], ticks = 0\<rparr>"

definition bs1 :: bot_state where
  "bs1 = \<lparr>data_provider = p1, positions = [], account_info = [], outside = w0\<rparr>"

definition plain_df :: frame where
  "plain_df = \<lparr>kind = OtherIndex None, colnames = ''timestamp'' # required_cols,
               rows = [(0, Num 7 # snd (bar_row 7 10)), (1, Num 3 # snd (bar_row 3 11))]\<rparr>"

definition no_volume_df :: frame where
  "no_volume_df = \<lparr>kind = DatetimeIndex None, colnames = [''open'', ''high'', ''low'', ''close''],
               rows = [(1, [Num 1, Num 1, Num 1, Num 1])]\<rparr>"

text \<open>
  The quantities the statements about \<open>_execute_signal\<close> and about the crossover
  strategy are written with: the risk budget of one trade, and the rolling mean \<open>k\<close>
  rows from the end of the series (\<open>None\<close> when the row does not exist or the mean is
  NaN).
\<close>

definition risk_amount_of :: "bot \<Rightarrow> bot_state \<Rightarrow> real" where
  "risk_amount_of b st =
     (case map_of (account_info st) ''equity'' of None \<Rightarrow> 0 | Some v \<Rightarrow> v) * risk_per_trade b"

definition market_buy :: "string \<Rightarrow> int \<Rightarrow> order_request" where
  "market_buy symbol qty =
     \<lparr>o_symbol = symbol, o_qty = qty, o_side = ''buy'', o_type = ''market'',
      o_stop_price = None, o_time_in_force = ''day''\<rparr>"

definition ma_from_end :: "int \<Rightarrow> real option list \<Rightarrow> nat \<Rightarrow> real option" where
  "ma_from_end w closes k =
     (case iloc_from_end (map (rolling_mean w closes) [0..<length closes]) k of
        Some (Some v) \<Rightarrow> Some v
      | _ \<Rightarrow> None)"

definition e0 :: env where
  "e0 = \<lparr>api_get_account = (\<lambda>k. Inr [(''equity'', 10000)]),
         api_list_positions = (\<lambda>k. Inr []),
         api_get_bars = (\<lambda>k q. Inr (map (\<lambda>s. (s, naive_df)) (q_symbols q))),
         api_create_order = (\<lambda>k rq. Inr (Some ''order-1'')),
         api_close_position = (\<lambda>k s. Inr (Some ''order-2'')),
         clock = (\<lambda>k. int k)\<rparr>"

definition b0 :: bot where
  "b0 = \<lparr>symbols = [''AAPL'', ''MSFT''], strategies = [MAStrategy 20 50], max_positions = 2,
         risk_per_trade = 0.02, time_frame = ''1Min''\<rparr>"

definition bs0 :: bot_state where
  "bs0 = \<lparr>data_provider = \<lparr>cache = [], cache_timestamps = [], stat_requests = 0,
                            stat_cache_hits = 0, stat_failed_requests = 0,
                            last_request_time = None\<rparr>,
          positions = [], account_info = [(''equity'', 10000)], outside = w0\<rparr>"

definition buy_signal :: "real \<Rightarrow> real \<Rightarrow> signal" where
  "buy_signal entry stop = \<lparr>action = Some ''buy'', price = Some entry, stop_loss = Some stop\<rparr>"

definition ma_df :: frame where
  "ma_df = \<lparr>kind = DatetimeIndex (Some ''UTC''), colnames = required_cols,
             rows = [bar_row 1 3, bar_row 2 1, bar_row 3 5]\<rparr>"

definition e_down :: env where
  "e_down = e0\<lparr>api_get_bars := (\<lambda>k q. Inl APIError), clock := (\<lambda>k. 600000000 + int k)\<rparr>"

definition cache_query :: "string list \<Rightarrow> string \<Rightarrow> int \<Rightarrow> string option \<Rightarrow> string option \<Rightarrow> bars_query" where
  "cache_query syms tf n_bars start end_time =
     \<lparr>q_symbols = syms, q_timeframe = tf, q_limit = n_bars, q_start = start, q_end = end_time\<rparr>"

text \<open>The bar queries among the calls of a log, in order.\<close>

fun bars_queries :: "(call \<times> reply) list \<Rightarrow> bars_query list" where
  "bars_queries [] = []"
| "bars_queries ((GetBars q, r) # cs) = q # bars_queries cs"
| "bars_queries (c # cs) = bars_queries cs"

text \<open>The state in which a cycle starts its analysis: after the two refreshes.\<close>

definition refreshed :: "env \<Rightarrow> bot_state \<Rightarrow> bot_state" where
  "refreshed e st = update_positions e (update_account_info e st)"

definition b1 :: bot where
  "b1 = b0\<lparr>symbols := [''AAPL'']\<rparr>"

definition e_buy :: env where
  "e_buy = e0\<lparr>api_get_bars := (\<lambda>k q. Inr (map (\<lambda>s. (s, ma_df)) (q_symbols q)))\<rparr>"

definition b_buy :: bot where
  "b_buy = \<lparr>symbols = [''AAPL'', ''MSFT''], strategies = [MAStrategy 1 2], max_positions = 1,
            risk_per_trade = 0.02, time_frame = ''1Min''\<rparr>"

definition bs0_refreshed :: bot_state where
  "bs0_refreshed =
     bs0\<lparr>outside := \<lparr>calls = [(GetAccount, GotAccount [(''equity'', 10000)]),
                                (ListPositions, GotPositions [])],
                       ticks = 0\<rparr>\<rparr>"

definition nan_first_df :: frame where
  "nan_first_df = \<lparr>kind = DatetimeIndex None, colnames = required_cols,
               rows = [(2, [Num 10, Num 10, Num 10, NaN, Num 1000]), bar_row 1 11, bar_row 2 12]\<rparr>"



definition bs_held :: bot_state where
  "bs_held = bs0\<lparr>positions := [(''AAPL'', \<lparr>pos_symbol = ''AAPL'', pos_qty = 1\<rparr>)]\<rparr>"

definition e_stop_raises :: env where
  "e_stop_raises =
     e_buy\<lparr>api_create_order :=
             (\<lambda>k rq. if o_type rq = ''stop'' then Inl TypeError else Inr (Some ''order-1''))\<rparr>"

text \<open>The orders of a log that the brokerage accepted (it answered with an order), in order.\<close>

fun accepted_orders :: "(call \<times> reply) list \<Rightarrow> order_request list" where
  "accepted_orders [] = []"
| "accepted_orders ((CreateOrder rq, GotOrder (Some oid)) # cs) = rq # accepted_orders cs"
| "accepted_orders (c # cs) = accepted_orders cs"

section \<open>Properties of the resilient fetcher\<close>

lemma call_client_log: "attempt_log (fst (call_client c rq st)) = attempt_log st"
  by (simp add: call_client_def)

lemma try_feed_log:
  "(case try_feed pd c s lb tf m f st of Inl st' \<Rightarrow> attempt_log st' = attempt_log st \<and> attempts st' = attempts st
      | Inr (st', df) \<Rightarrow> attempt_log st' = attempt_log st \<and> attempts st' = attempts st)"
  by (simp add: try_feed_def call_client_def Let_def split: sum.splits option.splits prod.splits)

lemma try_feeds_log:
  "attempt_log (fst (try_feeds pd c s lb tf m fs st)) = attempt_log st \<and> attempts (fst (try_feeds pd c s lb tf m fs st)) = attempts st"
proof (induction fs arbitrary: st)
  case Nil show ?case by simp
next
  case (Cons f fs)
  show ?case using try_feed_log[where pd=pd and c=c and s=s and lb=lb and tf=tf and m=m and f=f and st=st] Cons.IH
    by (auto split: sum.splits prod.splits)
qed

lemma or_default_inv: "or_default (Some (or_default mr lb)) lb = or_default mr lb"
  by (auto simp: or_default_def split: option.splits)

lemma or_default_zero: "or_default mr lb = 0 \<Longrightarrow> lb = 0"
  by (auto simp: or_default_def split: option.splits if_splits)

lemma path_nonempty: "path tf \<noteq> []"
  by (subst path.simps) simp

lemma path_leaf: "fallbacks tf = [] \<Longrightarrow> path tf = [tf]"
  by (subst path.simps) simp

lemma path_step: "fallbacks tf = n # others \<Longrightarrow> path tf = tf # path n"
  by (subst path.simps) simp

lemma expected_leaf:
  "fallbacks tf = [] \<Longrightarrow>
     expected tf lb m = (tf, lb) # (if tf = ''1D'' \<and> lb > 100 then [(''1D'', min 100 m)] else [])"
  by (simp add: expected_def path_leaf)

lemma expected_step:
  "fallbacks tf = n # others \<Longrightarrow> expected tf lb m = (tf, lb) # expected n lb m"
  by (simp add: expected_def path_step path_nonempty)

lemma expected_Cons: "\<exists>rest. expected tf lb m = (tf, lb) # rest"
  by (cases "fallbacks tf") (simp_all add: expected_leaf expected_step)

lemma get_bars_log:
  "(\<forall>st' r. get_bars pd c s lb tf mr st = (st', r) \<longrightarrow>
      (\<exists>n\<ge>1. attempt_log st' = attempt_log st @ take n (expected tf lb (or_default mr lb))
           \<and> attempts st' = attempts st + min n (length (expected tf lb (or_default mr lb)))
           \<and> (r = None \<longrightarrow> length (expected tf lb (or_default mr lb)) \<le> n)))"
  and "(m = 0 \<longrightarrow> lb = 0) \<longrightarrow> (\<forall>st' r. try_timeframe_fallbacks pd c s lb tf m st = (st', r) \<longrightarrow>
      (\<exists>n. attempt_log st' = attempt_log st @ take n (tl (expected tf lb m))
           \<and> attempts st' = attempts st + min n (length (tl (expected tf lb m)))
           \<and> (r = None \<longrightarrow> length (tl (expected tf lb m)) \<le> n)))"
proof (induction pd c s lb tf mr st and pd c s lb tf m st rule: get_bars_try_timeframe_fallbacks.induct)
  case (1 pd client symbol lookback_bars timeframe min_required_bars st)
  define st0 where "st0 = st\<lparr>attempts := attempts st + 1,
                   attempt_log := attempt_log st @ [(timeframe, lookback_bars)]\<rparr>"
  define m where "m = or_default min_required_bars lookback_bars"
  obtain st1 r1 where tf: "try_feeds pd client symbol lookback_bars timeframe m feeds_to_try st0 = (st1, r1)"
    by (cases "try_feeds pd client symbol lookback_bars timeframe m feeds_to_try st0")
  have log1: "attempt_log st1 = attempt_log st @ [(timeframe, lookback_bars)]"
    and att1: "attempts st1 = attempts st + 1"
    using try_feeds_log[of pd client symbol lookback_bars timeframe m feeds_to_try st0] tf
    by (simp_all add: st0_def)
  obtain rest where ex: "expected timeframe lookback_bars m = (timeframe, lookback_bars) # rest"
    using expected_Cons by blast
  show ?case
  proof (cases r1)
    case (Some df)
    then have "get_bars pd client symbol lookback_bars timeframe min_required_bars st = (st1, Some df)"
      using tf by (simp add: get_bars.simps st0_def m_def Let_def)
    then show ?thesis
      using log1 att1 ex by (auto simp: m_def[symmetric] intro!: exI[of _ 1])
  next
    case None
    have gb: "get_bars pd client symbol lookback_bars timeframe min_required_bars st =
        try_timeframe_fallbacks pd client symbol lookback_bars timeframe m st1"
      using tf None by (simp add: get_bars.simps st0_def m_def Let_def)
    have inv: "m = 0 \<longrightarrow> lookback_bars = 0"
      using or_default_zero[of min_required_bars lookback_bars] by (simp add: m_def)
    have ih: "\<forall>st' r. try_timeframe_fallbacks pd client symbol lookback_bars timeframe m st1 = (st', r) \<longrightarrow>
      (\<exists>n. attempt_log st' = attempt_log st1 @ take n (tl (expected timeframe lookback_bars m))
           \<and> attempts st' = attempts st1 + min n (length (tl (expected timeframe lookback_bars m)))
           \<and> (r = None \<longrightarrow> length (tl (expected timeframe lookback_bars m)) \<le> n))"
      using "1.IH"[OF st0_def m_def] tf None inv
      by simp
    show ?thesis
    proof (intro allI impI)
      fix st' r
      assume a: "get_bars pd client symbol lookback_bars timeframe min_required_bars st = (st', r)"
      then obtain n where n: "attempt_log st' = attempt_log st1 @ take n (tl (expected timeframe lookback_bars m))"
           "attempts st' = attempts st1 + min n (length (tl (expected timeframe lookback_bars m)))"
           "r = None \<longrightarrow> length (tl (expected timeframe lookback_bars m)) \<le> n"
        using ih gb by metis
      show "\<exists>n\<ge>1. attempt_log st' = attempt_log st @ take n (expected timeframe lookback_bars (or_default min_required_bars lookback_bars))
           \<and> attempts st' = attempts st + min n (length (expected timeframe lookback_bars (or_default min_required_bars lookback_bars)))
           \<and> (r = None \<longrightarrow> length (expected timeframe lookback_bars (or_default min_required_bars lookback_bars)) \<le> n)"
        using n log1 att1 ex by (auto simp: m_def[symmetric] intro!: exI[of _ "Suc n"])
    qed
  qed
next
  case (2 pd client symbol lookback_bars timeframe min_required_bars st)
  show ?case
  proof (intro impI allI)
    fix st' r
    assume inv: "min_required_bars = 0 \<longrightarrow> lookback_bars = 0"
      and run: "try_timeframe_fallbacks pd client symbol lookback_bars timeframe min_required_bars st = (st', r)"
    let ?goal = "\<exists>n. attempt_log st' =
             attempt_log st @ take n (tl (expected timeframe lookback_bars min_required_bars)) \<and>
             attempts st' =
             attempts st + min n (length (tl (expected timeframe lookback_bars min_required_bars))) \<and>
             (r = None \<longrightarrow> length (tl (expected timeframe lookback_bars min_required_bars)) \<le> n)"
    show ?goal
    proof (cases "fallbacks timeframe")
      case Nil
      show ?thesis
      proof (cases "timeframe = ''1D'' \<and> lookback_bars > 100")
        case True
        have e1: "expected timeframe (min 100 min_required_bars) min_required_bars =
            [(''1D'', min 100 min_required_bars)]"
          using Nil True by (simp add: expected_leaf)
        have e2: "tl (expected timeframe lookback_bars min_required_bars) =
            [(''1D'', min 100 min_required_bars)]"
          using Nil True by (simp add: expected_leaf)
        have od: "or_default (Some min_required_bars) (min 100 min_required_bars) = min_required_bars"
          by (auto simp: or_default_def)
        have "get_bars pd client symbol (min 100 min_required_bars) timeframe (Some min_required_bars) st = (st', r)"
          using run Nil True by (subst (asm) try_timeframe_fallbacks.simps) simp
        with "2.IH"(1)[OF Nil True] obtain n where
          "attempt_log st' = attempt_log st @ take n [(''1D'', min 100 min_required_bars)]"
          "attempts st' = attempts st + min n (length [(''1D'', min 100 min_required_bars)])"
          "r = None \<longrightarrow> length [(''1D'', min 100 min_required_bars)] \<le> n"
          unfolding od e1 by blast
        then show ?thesis unfolding e2 by blast
      next
        case False
        then have "st' = st"
          using run Nil by (subst (asm) try_timeframe_fallbacks.simps) auto
        moreover have "tl (expected timeframe lookback_bars min_required_bars) = []"
          using Nil False by (simp add: expected_leaf)
        ultimately show ?thesis by simp
      qed
    next
      case (Cons n others)
      have od: "or_default (Some min_required_bars) lookback_bars = min_required_bars"
        using inv by (auto simp: or_default_def)
      have e2: "tl (expected timeframe lookback_bars min_required_bars) =
          expected n lookback_bars min_required_bars"
        using Cons by (simp add: expected_step)
      have "get_bars pd client symbol lookback_bars n (Some min_required_bars) st = (st', r)"
        using run Cons by (subst (asm) try_timeframe_fallbacks.simps) simp
      with "2.IH"(2)[OF Cons] obtain k where
        "attempt_log st' = attempt_log st @ take k (expected n lookback_bars min_required_bars)"
        "attempts st' = attempts st + min k (length (expected n lookback_bars min_required_bars))"
        "r = None \<longrightarrow> length (expected n lookback_bars min_required_bars) \<le> k"
        unfolding od by blast
      then show ?thesis unfolding e2 by blast
    qed
  qed
qed

lemma length_path: "length (path tf) = depth tf + 1"
proof (induction tf rule: path.induct)
  case (1 timeframe)
  show ?case
  proof (cases "fallbacks timeframe")
    case Nil
    then have "depth timeframe = 0" by (auto simp: fallbacks_def depth_def split: if_splits)
    with Nil show ?thesis by (subst path.simps) simp
  next
    case (Cons n others)
    then have "depth timeframe = depth n + 1" by (auto simp: fallbacks_def depth_def split: if_splits)
    with Cons "1.IH"[OF Cons] show ?thesis by (subst path.simps) simp
  qed
qed

lemma length_expected: "length (expected tf lb m) \<le> depth tf + 2"
  by (simp add: expected_def length_path)

lemma filter_take_le: "length (filter P (take n xs)) \<le> length (filter P xs)"
proof -
  have "filter P xs = filter P (take n xs) @ filter P (drop n xs)"
    by (metis append_take_drop_id filter_append)
  then show ?thesis by simp
qed

lemma expected_retries: "length (filter (\<lambda>a. snd a \<noteq> lb) (expected tf lb m)) \<le> 1"
  by (simp add: expected_def filter_map comp_def)

lemma expected_entries:
  "list_all (\<lambda>a. snd a = lb \<or> (fst a = ''1D'' \<and> snd a \<le> 100 \<and> 100 < lb)) (expected tf lb m)"
  by (auto simp: expected_def list_all_iff)

text \<open>
  C10: \<open>get_bars\<close> terminates, whatever the client answers. It is a total function (the
  recursion was shown to end where it is defined), and a call runs \<open>get_bars\<close> at least
  once and at most \<open>depth timeframe + 2\<close> times: the fallbacks walk down the fallback
  paths, and at most one of the calls asks for another number of bars than the caller
  did, namely the retry of the daily timeframe, which happens only for a lookback above
  100 and asks for at most 100 bars.
\<close>

theorem get_bars_terminates:
  "\<exists>st' r new.
      get_bars pd client symbol lookback_bars timeframe min_required_bars st = (st', r) \<and>
      attempt_log st' = attempt_log st @ new \<and>
      attempts st' = attempts st + length new \<and>
      1 \<le> length new \<and> length new \<le> depth timeframe + 2 \<and>
      length (filter (\<lambda>a. snd a \<noteq> lookback_bars) new) \<le> 1 \<and>
      list_all (\<lambda>a. snd a = lookback_bars \<or> (fst a = ''1D'' \<and> snd a \<le> 100 \<and> 100 < lookback_bars)) new"
proof -
  define m where "m = or_default min_required_bars lookback_bars"
  obtain st' r where run: "get_bars pd client symbol lookback_bars timeframe min_required_bars st = (st', r)"
    by (cases "get_bars pd client symbol lookback_bars timeframe min_required_bars st")
  with get_bars_log(1)[of pd client symbol lookback_bars timeframe min_required_bars st]
  obtain n where n: "1 \<le> n"
      "attempt_log st' = attempt_log st @ take n (expected timeframe lookback_bars m)"
      "attempts st' = attempts st + min n (length (expected timeframe lookback_bars m))"
    unfolding m_def by blast
  let ?new = "take n (expected timeframe lookback_bars m)"
  obtain rest where ex: "expected timeframe lookback_bars m = (timeframe, lookback_bars) # rest"
    using expected_Cons by blast
  have a: "1 \<le> length ?new" using n(1) ex by simp
  have b: "length ?new \<le> depth timeframe + 2"
    using length_expected[of timeframe lookback_bars m] by simp
  have c: "length (filter (\<lambda>a. snd a \<noteq> lookback_bars) ?new) \<le> 1"
    using filter_take_le[of "\<lambda>a. snd a \<noteq> lookback_bars" n "expected timeframe lookback_bars m"]
      expected_retries[of lookback_bars timeframe m] by linarith
  have d: "list_all (\<lambda>a. snd a = lookback_bars \<or> (fst a = ''1D'' \<and> snd a \<le> 100 \<and> 100 < lookback_bars)) ?new"
    using expected_entries[of lookback_bars timeframe m]
    by (auto simp: list_all_iff dest: in_set_takeD)
  have e: "attempts st' = attempts st + length ?new"
    using n(3) by (simp add: min.commute)
  show ?thesis using run n(2) a b c d e by blast
qed

theorem get_bars_terminates_witness:
  "\<exists>st' r new.
      get_bars pd0 nothing ''AAPL'' 150 ''1Min'' None f0 = (st', r) \<and>
      attempt_log st' = attempt_log f0 @ new \<and>
      attempts st' = attempts f0 + length new \<and>
      1 \<le> length new \<and> length new \<le> depth ''1Min'' + 2 \<and>
      length (filter (\<lambda>a. snd a \<noteq> 150) new) \<le> 1 \<and>
      list_all (\<lambda>a. snd a = 150 \<or> (fst a = ''1D'' \<and> snd a \<le> 100 \<and> (100::int) < 150)) new"
  by (rule get_bars_terminates)

lemma path_1Min: "path ''1Min'' = chain"
  by (simp add: path_step path_leaf fallbacks_def chain_def)

lemma chain_step: "i < 6 \<Longrightarrow> \<exists>others. fallbacks (chain ! i) = chain ! Suc i # others"
proof -
  assume "i < 6"
  then have "i = 0 \<or> i = 1 \<or> i = 2 \<or> i = 3 \<or> i = 4 \<or> i = 5" by arith
  then show ?thesis by (auto simp: chain_def fallbacks_def)
qed

lemma get_bars_fallback_step:
  assumes "try_feeds pd client symbol lb tf (or_default mr lb) feeds_to_try
       (st\<lparr>attempts := attempts st + 1, attempt_log := attempt_log st @ [(tf, lb)]\<rparr>) = (st1, None)"
    and "fallbacks tf = n # others"
  shows "get_bars pd client symbol lb tf mr st = get_bars pd client symbol lb n (Some (or_default mr lb)) st1"
  using assms by (simp add: get_bars.simps try_timeframe_fallbacks.simps Let_def)

text \<open>
  C2: when every feed fails at a timeframe that has a fallback entry, \<open>get_bars\<close> goes
  on exactly as \<open>get_bars\<close> on the next timeframe of the chain 1Min, 2Min, 5Min, 15Min,
  30Min, 1H, 1D, with the same symbol, lookback and minimum. A call from 1Min that ends
  without data has tried every timeframe of the chain, in order (and the daily one
  once more, with fewer bars, when the lookback is above 100). 1D has no fallback
  timeframe: a call at 1D tries no other timeframe.
\<close>

theorem timeframe_fallback_chain:
  "(try_feeds pd client symbol lb tf (or_default mr lb) feeds_to_try
       (st\<lparr>attempts := attempts st + 1, attempt_log := attempt_log st @ [(tf, lb)]\<rparr>) = (st1, None)
     \<longrightarrow> (\<forall>i<6. tf = chain ! i \<longrightarrow>
           get_bars pd client symbol lb tf mr st
             = get_bars pd client symbol lb (chain ! Suc i) (Some (or_default mr lb)) st1))
   \<and> (get_bars pd client symbol lb ''1Min'' mr st = (st', None) \<longrightarrow>
        map fst (drop (length (attempt_log st)) (attempt_log st'))
          = chain @ (if lb > 100 then [''1D''] else []))
   \<and> fallbacks ''1D'' = []
   \<and> list_all (\<lambda>a. fst a = ''1D'')
        (drop (length (attempt_log st))
           (attempt_log (fst (get_bars pd client symbol lb ''1D'' mr st))))"
proof (intro conjI impI allI)
  fix i
  assume a: "try_feeds pd client symbol lb tf (or_default mr lb) feeds_to_try
       (st\<lparr>attempts := attempts st + 1, attempt_log := attempt_log st @ [(tf, lb)]\<rparr>) = (st1, None)"
    and i: "i < 6" "tf = chain ! i"
  from chain_step[OF i(1)] obtain others where "fallbacks tf = chain ! Suc i # others"
    using i(2) by blast
  from get_bars_fallback_step[OF a this]
  show "get_bars pd client symbol lb tf mr st
             = get_bars pd client symbol lb (chain ! Suc i) (Some (or_default mr lb)) st1" .
next
  assume run: "get_bars pd client symbol lb ''1Min'' mr st = (st', None)"
  with get_bars_log(1)[of pd client symbol lb "''1Min''" mr st]
  obtain n where n: "attempt_log st' = attempt_log st @ take n (expected ''1Min'' lb (or_default mr lb))"
     "length (expected ''1Min'' lb (or_default mr lb)) \<le> n"
    by blast
  then have "drop (length (attempt_log st)) (attempt_log st') = expected ''1Min'' lb (or_default mr lb)"
    by simp
  moreover have "map fst (expected ''1Min'' lb (or_default mr lb)) = chain @ (if lb > 100 then [''1D''] else [])"
    by (simp add: expected_def path_1Min comp_def) (simp add: chain_def)
  ultimately show "map fst (drop (length (attempt_log st)) (attempt_log st'))
          = chain @ (if lb > 100 then [''1D''] else [])" by simp
next
  show "fallbacks ''1D'' = []" by (simp add: fallbacks_def)
next
  obtain st' r where run: "get_bars pd client symbol lb ''1D'' mr st = (st', r)"
    by (cases "get_bars pd client symbol lb ''1D'' mr st")
  with get_bars_log(1)[of pd client symbol lb "''1D''" mr st]
  obtain n where n: "attempt_log st' = attempt_log st @ take n (expected ''1D'' lb (or_default mr lb))"
    by blast
  have "list_all (\<lambda>a. fst a = ''1D'') (expected ''1D'' lb (or_default mr lb))"
    by (simp add: expected_leaf fallbacks_def)
  then have "list_all (\<lambda>a. fst a = ''1D'') (take n (expected ''1D'' lb (or_default mr lb)))"
    by (auto simp: list_all_iff dest: in_set_takeD)
  then show "list_all (\<lambda>a. fst a = ''1D'')
        (drop (length (attempt_log st))
           (attempt_log (fst (get_bars pd client symbol lb ''1D'' mr st))))"
    using run n by simp
qed

lemma ev_feeds: "try_feeds pd0 nothing ''AAPL'' 150 ''1Min'' (or_default None 150) feeds_to_try
       (f0\<lparr>attempts := attempts f0 + 1, attempt_log := attempt_log f0 @ [(''1Min'', 150)]\<rparr>) = (f1, None)"
  by (simp add: feeds_to_try_def try_feed_def call_client_def nothing_def or_default_def f0_def f1_def Let_def)

lemma ev_none: "snd (get_bars pd0 nothing ''AAPL'' 150 ''1Min'' None f0) = None"
  by (simp add: get_bars.simps try_timeframe_fallbacks.simps fallbacks_def feeds_to_try_def try_feed_def call_client_def nothing_def or_default_def f0_def Let_def)

theorem timeframe_fallback_chain_witness:
  "get_bars pd0 nothing ''AAPL'' 150 ''1Min'' None f0
      = get_bars pd0 nothing ''AAPL'' 150 ''2Min'' (Some 150) f1
   \<and> map fst (attempt_log (fst (get_bars pd0 nothing ''AAPL'' 150 ''1Min'' None f0)))
      = [''1Min'', ''2Min'', ''5Min'', ''15Min'', ''30Min'', ''1H'', ''1D'', ''1D'']
   \<and> fallbacks ''1D'' = []"
proof -
  obtain st' where run: "get_bars pd0 nothing ''AAPL'' 150 ''1Min'' None f0 = (st', None)"
    using ev_none by (cases "get_bars pd0 nothing ''AAPL'' 150 ''1Min'' None f0") auto
  have od: "or_default None 150 = 150" by (simp add: or_default_def)
  have c0: "chain ! 0 = ''1Min''" "chain ! Suc 0 = ''2Min''" by (simp_all add: chain_def)
  note t = timeframe_fallback_chain[of pd0 nothing "''AAPL''" 150 "''1Min''" None f0 f1 st']
  from t ev_feeds have "\<forall>i<6. ''1Min'' = chain ! i \<longrightarrow>
           get_bars pd0 nothing ''AAPL'' 150 ''1Min'' None f0
             = get_bars pd0 nothing ''AAPL'' 150 (chain ! Suc i) (Some (or_default None 150)) f1"
    by blast
  then have a: "get_bars pd0 nothing ''AAPL'' 150 ''1Min'' None f0
      = get_bars pd0 nothing ''AAPL'' 150 ''2Min'' (Some 150) f1"
    using c0 od by (metis zero_less_numeral)
  from t run have "map fst (attempt_log st') = chain @ [''1D'']"
    by (simp add: f0_def)
  then have b: "map fst (attempt_log (fst (get_bars pd0 nothing ''AAPL'' 150 ''1Min'' None f0)))
      = [''1Min'', ''2Min'', ''5Min'', ''15Min'', ''30Min'', ''1H'', ''1D'', ''1D'']"
    using run by (simp add: chain_def)
  from t have c: "fallbacks ''1D'' = []" by blast
  show ?thesis by (intro conjI) (rule a, rule b, rule c)
qed

section \<open>Shutdown\<close>

lemma close_keeps_cache: "await close p = p"
  by (simp add: await_def close_def close_body_def)

lemma awaited_clear_cache_empties: "cache (await clear_cache p) = []"
  by (simp add: await_def clear_cache_def clear_cache_body_def)

text \<open>
  C9: after the cleanup step the cache of the data provider should hold no entry. It
  does not: \<open>close\<close> never awaits \<open>clear_cache\<close>, so a provider that holds one entry
  holds it still after \<open>_cleanup\<close>.
\<close>

theorem cleanup_leaves_cache:
  "cache (data_provider (cleanup bs1)) = [(''AAPL_1Min_100'', stored_data)]"
  by (simp add: cleanup_def close_keeps_cache bs1_def p1_def)

section \<open>Properties of the standardizer and of the cleaning step\<close>

lemma standardize_other_index_frame:
  "kind df = OtherIndex name \<Longrightarrow> fst (standardize_dataframe pd df) = df"
  by (simp add: standardize_dataframe_def)

lemma standardize_datetime_index_frame:
  "kind df = DatetimeIndex tz \<Longrightarrow>
     fst (standardize_dataframe pd df) = df\<lparr>kind := DatetimeIndex (Some ''UTC'')\<rparr>"
  by (simp add: standardize_dataframe_def Let_def)

text \<open>
  C7: the standardizer should leave the table of its caller as it was. For a table
  with a naive datetime index it does not: the index of the caller's table is
  time-zone aware (UTC) after the call.
\<close>

theorem standardize_mutates_caller:
  "kind (fst (standardize_dataframe pd0 naive_df)) = DatetimeIndex (Some ''UTC'') \<and>
   kind naive_df = DatetimeIndex None \<and>
   fst (standardize_dataframe pd0 naive_df) \<noteq> naive_df"
proof -
  have k: "kind naive_df = DatetimeIndex None" by (simp add: naive_df_def)
  have "kind (fst (standardize_dataframe pd0 naive_df)) = DatetimeIndex (Some ''UTC'')"
    by (simp add: standardize_datetime_index_frame[OF k])
  with k show ?thesis by auto
qed

lemma those_all_length: "those_all xs = Some ys \<Longrightarrow> length ys = length xs"
  by (induction xs arbitrary: ys) (auto split: option.splits)

lemma those_all_map_keep:
  assumes "those_all (map f xs) = Some ys"
    and "\<And>x y. f x = Some y \<Longrightarrow> g y = h x"
  shows "map g ys = map h xs"
  using assms(1)
proof (induction xs arbitrary: ys)
  case Nil
  then show ?case by simp
next
  case (Cons x xs)
  then show ?case using assms(2) by (auto split: option.splits)
qed

lemma those_all_Some:
  "list_all (\<lambda>x. x \<noteq> None) xs \<Longrightarrow> \<exists>ys. those_all xs = Some ys"
  by (induction xs) auto

lemma select_astype_float_labels:
  assumes "select_astype_float pd names df = Inr out"
  shows "labels out = labels df" and "colnames out = names" and "kind out = kind df"
proof -
  from assms obtain rs where rs:
    "those_all (map (\<lambda>r. map_option (Pair (fst r))
        (those_all (map (\<lambda>n. astype_float pd (get_cell (colnames df) (snd r) n)) names))) (rows df)) = Some rs"
    and out: "out = \<lparr>kind = kind df, colnames = names, rows = rs\<rparr>"
    by (auto simp: select_astype_float_def split: option.splits)
  have "map fst rs = map fst (rows df)"
    by (rule those_all_map_keep[OF rs]) auto
  then show "labels out = labels df" by (simp add: labels_def out)
  show "colnames out = names" "kind out = kind df" by (simp_all add: out)
qed

lemma standardize_tail_props:
  assumes "standardize_tail pd df = Some out"
  shows "sorted (labels out)" and "length (rows out) = length (rows df)"
    and "colnames out = required_cols" and "list_all (\<lambda>c. c \<in> set (colnames df)) required_cols"
proof -
  from assms have req: "list_all (\<lambda>c. c \<in> set (colnames df)) required_cols"
    and sel: "select_astype_float pd required_cols (sort_index df) = Inr out"
    by (auto simp: standardize_tail_def Let_def sort_index_def split: if_splits sum.splits)
  from select_astype_float_labels[OF sel]
  have l: "labels out = labels (sort_index df)" and c: "colnames out = required_cols" by auto
  have l': "labels out = map fst (sort_key fst (rows df))"
    using l by (simp add: labels_def sort_index_def)
  show "sorted (labels out)" unfolding l' by (rule sorted_sort_key)
  have "length (labels out) = length (rows df)" unfolding l' by simp
  then show "length (rows out) = length (rows df)" by (simp add: labels_def)
  show "colnames out = required_cols" by (rule c)
  show "list_all (\<lambda>c. c \<in> set (colnames df)) required_cols" by (rule req)
qed

lemma length_renumber: "length (renumber i rs) = length rs"
  by (induction rs arbitrary: i) auto

lemma set_timestamp_index_props:
  assumes "set_timestamp_index pd df = Inr out"
  shows "length (rows out) = length (rows df)"
    and "set (colnames out) \<subseteq> set (colnames df)"
proof -
  from assms obtain i ts where i: "pos ''timestamp'' (colnames df) = Some i"
    and ts: "those_all (map (to_datetime pd) (column df ''timestamp'')) = Some ts"
    and out: "out = \<lparr>kind = DatetimeIndex (Some ''UTC''), colnames = without_nth i (colnames df),
                    rows = map (\<lambda>(t, r). (t, without_nth i (snd r))) (zip ts (rows df))\<rparr>"
    by (auto simp: set_timestamp_index_def split: option.splits)
  from those_all_length[OF ts] have "length ts = length (rows df)" by (simp add: column_def)
  then show "length (rows out) = length (rows df)" by (simp add: out)
  show "set (colnames out) \<subseteq> set (colnames df)"
    by (auto simp: out without_nth_def dest: in_set_takeD in_set_dropD)
qed

lemma standardize_props:
  assumes "snd (standardize_dataframe pd df) = Some out"
  shows "sorted (labels out) \<and> len out = len df \<and> colnames out = required_cols"
proof (cases "kind df")
  case (DatetimeIndex tz)
  with assms have "standardize_tail pd (df\<lparr>kind := DatetimeIndex (Some ''UTC'')\<rparr>) = Some out"
    by (simp add: standardize_dataframe_def Let_def)
  from standardize_tail_props[OF this] show ?thesis by (simp add: len_def)
next
  case (OtherIndex name)
  with assms obtain df1 c df2 where r: "reset_index name df = Inr df1"
    and s: "set_timestamp_index pd (rename_column c ''timestamp'' df1) = Inr df2"
    and t: "standardize_tail pd df2 = Some out"
    by (auto simp: standardize_dataframe_def Let_def split: sum.splits option.splits if_splits)
  from r have "length (rows df1) = length (rows df)"
    by (auto simp: reset_index_def Let_def length_renumber split: if_splits)
  moreover from set_timestamp_index_props(1)[OF s]
  have "length (rows df2) = length (rows df1)" by (simp add: rename_column_def)
  ultimately show ?thesis using standardize_tail_props[OF t] by (simp add: len_def)
qed

lemma standardize_missing_column:
  assumes miss: "\<not> list_all (\<lambda>c. c \<in> set (colnames df)) required_cols"
    and nm: "list_all (\<lambda>c. kind df \<noteq> OtherIndex (Some c)) required_cols"
  shows "snd (standardize_dataframe pd df) = None"
proof (rule ccontr)
  assume "snd (standardize_dataframe pd df) \<noteq> None"
  then obtain out where o: "snd (standardize_dataframe pd df) = Some out" by auto
  show False
  proof (cases "kind df")
    case (DatetimeIndex tz)
    with o have "standardize_tail pd (df\<lparr>kind := DatetimeIndex (Some ''UTC'')\<rparr>) = Some out"
      by (simp add: standardize_dataframe_def Let_def)
    from standardize_tail_props(4)[OF this] miss show False by simp
  next
    case (OtherIndex name)
    with o obtain df1 c df2 where r: "reset_index name df = Inr df1"
      and c: "c = ''timestamp'' \<or> c = ''index''"
      and s: "set_timestamp_index pd (rename_column c ''timestamp'' df1) = Inr df2"
      and t: "standardize_tail pd df2 = Some out"
      by (auto simp: standardize_dataframe_def Let_def split: sum.splits option.splits if_splits)
    from r obtain c0 where c0: "colnames df1 = c0 # colnames df"
      "c0 = (case name of Some n \<Rightarrow> n | None \<Rightarrow> if ''index'' \<in> set (colnames df) then ''level_0'' else ''index'')"
      by (auto simp: reset_index_def Let_def split: if_splits)
    have c0req: "c0 \<notin> set required_cols"
      using c0(2) nm OtherIndex by (auto simp: required_cols_def split: option.splits if_splits)
    have "set (colnames df2) \<subseteq> set (colnames (rename_column c ''timestamp'' df1))"
      by (rule set_timestamp_index_props(2)[OF s])
    moreover from standardize_tail_props(4)[OF t]
    have "set required_cols \<subseteq> set (colnames df2)" by (auto simp: list_all_iff)
    ultimately have "set required_cols \<subseteq> set (colnames (rename_column c ''timestamp'' df1))" by blast
    then have "\<forall>x\<in>set required_cols. x \<in> set (colnames df1)"
      using c by (auto simp: rename_column_def required_cols_def split: if_splits)
    then have "\<forall>x\<in>set required_cols. x \<in> set (colnames df)"
      using c0(1) c0req by auto
    with miss show False by (simp add: list_all_iff)
  qed
qed

lemma drop_duplicated_subset: "set (drop_duplicated rs) \<subseteq> set rs"
  by (induction rs) auto

lemma drop_duplicated_length: "length (drop_duplicated rs) \<le> length rs"
proof (induction rs)
  case Nil
  show ?case by simp
next
  case (Cons r rs)
  have "length (filter (\<lambda>q. fst q \<noteq> fst r) (drop_duplicated rs)) \<le> length (drop_duplicated rs)"
    by (rule length_filter_le)
  from this Cons have "length (filter (\<lambda>q. fst q \<noteq> fst r) (drop_duplicated rs)) \<le> length rs"
    by (rule le_trans)
  then show ?case by simp
qed

lemma drop_duplicated_distinct: "distinct (map fst (drop_duplicated rs))"
proof (induction rs)
  case Nil
  show ?case by simp
next
  case (Cons r rs)
  then show ?case by (auto simp: distinct_map_filter)
qed

lemma map_of_filter_other: "k \<noteq> a \<Longrightarrow> map_of (filter (\<lambda>q. fst q \<noteq> a) rs) k = map_of rs k"
  by (induction rs) auto

lemma drop_duplicated_first: "map_of (drop_duplicated rs) = map_of rs"
proof (induction rs)
  case Nil
  show ?case by simp
next
  case (Cons r rs)
  show ?case
  proof
    fix k
    show "map_of (drop_duplicated (r # rs)) k = map_of (r # rs) k"
      using Cons by (cases r) (simp add: map_of_filter_other)
  qed
qed

lemma labels_map_column: "labels (map_column n f df) = labels df"
  by (simp add: map_column_def labels_def comp_def split: option.splits)

lemma labels_fold_map_column: "labels (fold (\<lambda>c. map_column c f) cs df) = labels df"
  by (induction cs arbitrary: df) (simp_all add: labels_map_column)

lemma clean_labels:
  assumes "\<not> empty df" and "list_all (\<lambda>c. c \<in> set (colnames df)) required_cols"
  shows "labels (clean_and_prepare_data pd df) =
     map fst (sort_key fst (drop_duplicated (rows (dropna required_cols df))))"
  using assms
  by (simp add: clean_and_prepare_data_def Let_def labels_map_column labels_fold_map_column)
     (simp add: labels_def sort_index_def drop_duplicated_index_def)

lemma clean_props:
  assumes "list_all (\<lambda>c. c \<in> set (colnames df)) required_cols"
  shows "sorted (labels (clean_and_prepare_data pd df)) \<and>
         distinct (labels (clean_and_prepare_data pd df)) \<and>
         len (clean_and_prepare_data pd df) \<le> len df"
proof (cases "empty df")
  case True
  with assms have "rows df = []" by (auto simp: empty_def required_cols_def)
  with True show ?thesis by (simp add: clean_and_prepare_data_def labels_def len_def)
next
  case False
  let ?rs = "drop_duplicated (rows (dropna required_cols df))"
  note l = clean_labels[OF False assms, of pd]
  have "mset (map fst (sort_key fst ?rs)) = mset (map fst ?rs)" by simp
  then have d: "distinct (map fst (sort_key fst ?rs))"
    using drop_duplicated_distinct[of "rows (dropna required_cols df)"] mset_eq_imp_distinct_iff by blast
  have "length ?rs \<le> length (rows (dropna required_cols df))" by (rule drop_duplicated_length)
  also have "\<dots> \<le> length (rows df)" by (simp add: dropna_def)
  finally have "length (labels (clean_and_prepare_data pd df)) \<le> length (rows df)"
    by (simp add: l)
  then have "len (clean_and_prepare_data pd df) \<le> len df" by (simp add: len_def labels_def)
  with d show ?thesis by (simp add: l)
qed

lemma standardize_split:
  "snd (standardize_dataframe pd df) =
     (case timestamps_to_index pd df of None \<Rightarrow> None | Some d \<Rightarrow> standardize_tail pd d)"
  by (simp add: standardize_dataframe_def timestamps_to_index_def Let_def
      split: index_kind.splits sum.splits option.splits)

lemma timestamps_to_index_len:
  assumes "timestamps_to_index pd df = Some d"
  shows "len d = len df"
proof (cases "kind df")
  case (DatetimeIndex tz)
  with assms show ?thesis by (auto simp: timestamps_to_index_def len_def)
next
  case (OtherIndex name)
  with assms obtain df1 c where r: "reset_index name df = Inr df1"
    and s: "set_timestamp_index pd (rename_column c ''timestamp'' df1) = Inr d"
    by (auto simp: timestamps_to_index_def Let_def split: sum.splits option.splits if_splits)
  from r have "length (rows df1) = length (rows df)"
    by (auto simp: reset_index_def Let_def length_renumber split: if_splits)
  moreover from set_timestamp_index_props(1)[OF s]
  have "length (rows d) = length (rows df1)" by (simp add: rename_column_def)
  ultimately show ?thesis by (simp add: len_def)
qed

lemma pos_Some: "pos n names = Some i \<Longrightarrow> i < length names \<and> names ! i = n"
  by (induction names arbitrary: i) (auto split: if_splits)

lemma in_without_nth:
  assumes "x \<in> set xs" and "i < length xs" and "xs ! i \<noteq> x"
  shows "x \<in> set (without_nth i xs)"
proof -
  from assms(1) obtain j where j: "j < length xs" "xs ! j = x" by (auto simp: in_set_conv_nth)
  with assms(3) have ne: "j \<noteq> i" by auto
  show ?thesis
  proof (cases "j < i")
    case True
    then have "take i xs ! j = x" using j by simp
    moreover have "j < length (take i xs)" using True j assms(2) by simp
    ultimately have "x \<in> set (take i xs)" by (metis nth_mem)
    then show ?thesis by (simp add: without_nth_def)
  next
    case False
    with ne have gt: "Suc i \<le> j" by simp
    then have "drop (Suc i) xs ! (j - Suc i) = x" using j by simp
    moreover have "j - Suc i < length (drop (Suc i) xs)" using gt j by simp
    ultimately have "x \<in> set (drop (Suc i) xs)" by (metis nth_mem)
    then show ?thesis by (simp add: without_nth_def)
  qed
qed

lemma timestamps_to_index_columns:
  assumes "timestamps_to_index pd df = Some d"
    and "list_all (\<lambda>c. c \<in> set (colnames df)) required_cols"
  shows "list_all (\<lambda>c. c \<in> set (colnames d)) required_cols"
proof (cases "kind df")
  case (DatetimeIndex tz)
  with assms show ?thesis by (auto simp: timestamps_to_index_def)
next
  case (OtherIndex name)
  with assms(1) obtain df1 c where r: "reset_index name df = Inr df1"
    and c: "c = ''timestamp'' \<or> c = ''index''"
    and s: "set_timestamp_index pd (rename_column c ''timestamp'' df1) = Inr d"
    by (auto simp: timestamps_to_index_def Let_def split: sum.splits option.splits if_splits)
  let ?names = "colnames (rename_column c ''timestamp'' df1)"
  from s obtain i where i: "pos ''timestamp'' ?names = Some i"
    and d: "colnames d = without_nth i ?names"
    by (auto simp: set_timestamp_index_def split: option.splits)
  from pos_Some[OF i] have il: "i < length ?names" "?names ! i = ''timestamp''" by auto
  from r have sub: "set (colnames df) \<subseteq> set (colnames df1)"
    by (auto simp: reset_index_def Let_def split: if_splits)
  show ?thesis
    unfolding list_all_iff
  proof
    fix n
    assume n: "n \<in> set required_cols"
    then have ne: "n \<noteq> ''timestamp''" "n \<noteq> ''index''" by (auto simp: required_cols_def)
    from n assms(2) sub have "n \<in> set (colnames df1)" by (auto simp: list_all_iff)
    then have "n \<in> set ?names" using ne c by (auto simp: rename_column_def)
    moreover have "?names ! i \<noteq> n" using il(2) ne by simp
    ultimately show "n \<in> set (colnames d)" unfolding d using il(1) by (simp add: in_without_nth)
  qed
qed

lemma standardize_tail_success:
  assumes req: "list_all (\<lambda>c. c \<in> set (colnames d)) required_cols"
    and conv: "list_all (\<lambda>r. list_all (\<lambda>n. astype_float pd (get_cell (colnames d) (snd r) n) \<noteq> None)
                 required_cols) (rows d)"
  shows "\<exists>out. standardize_tail pd d = Some out"
proof -
  let ?g = "\<lambda>r. map_option (Pair (fst r))
              (those_all (map (\<lambda>n. astype_float pd (get_cell (colnames d) (snd r) n)) required_cols))"
  have inner: "?g r \<noteq> None" if "r \<in> set (rows d)" for r
  proof -
    from that conv have "list_all (\<lambda>n. astype_float pd (get_cell (colnames d) (snd r) n) \<noteq> None)
        required_cols" by (simp add: list_all_iff)
    then have "list_all (\<lambda>x. x \<noteq> None)
        (map (\<lambda>n. astype_float pd (get_cell (colnames d) (snd r) n)) required_cols)"
      by (simp add: list_all_iff)
    from those_all_Some[OF this] show ?thesis by auto
  qed
  have "list_all (\<lambda>x. x \<noteq> None) (map ?g (sort_key fst (rows d)))"
    using inner by (simp add: list_all_iff)
  from those_all_Some[OF this] obtain rs where "those_all (map ?g (sort_key fst (rows d))) = Some rs"
    by blast
  then show ?thesis using req
    by (simp add: standardize_tail_def select_astype_float_def sort_index_def Let_def)
qed

lemma standardize_tail_labels:
  assumes "standardize_tail pd d = Some out"
  shows "mset (labels out) = mset (labels d)"
proof -
  from assms have sel: "select_astype_float pd required_cols (sort_index d) = Inr out"
    by (auto simp: standardize_tail_def Let_def split: if_splits sum.splits)
  from select_astype_float_labels(1)[OF sel]
  have "labels out = map fst (sort_key fst (rows d))" by (simp add: labels_def sort_index_def)
  then show ?thesis by (simp add: labels_def)
qed

lemma standardize_success:
  assumes d: "timestamps_to_index pd df = Some d"
    and req: "list_all (\<lambda>c. c \<in> set (colnames df)) required_cols"
    and conv: "list_all (\<lambda>r. list_all (\<lambda>n. astype_float pd (get_cell (colnames d) (snd r) n) \<noteq> None)
                 required_cols) (rows d)"
  shows "\<exists>out. snd (standardize_dataframe pd df) = Some out \<and> sorted (labels out) \<and>
           mset (labels out) = mset (labels d) \<and> len out = len df \<and> colnames out = required_cols"
proof -
  from standardize_tail_success[OF timestamps_to_index_columns[OF d req] conv]
  obtain out where t: "standardize_tail pd d = Some out" by blast
  then have s: "snd (standardize_dataframe pd df) = Some out"
    by (simp add: standardize_split d)
  from standardize_props[OF s] standardize_tail_labels[OF t] s show ?thesis by blast
qed

lemma rows_map_column:
  "rows (map_column n f df) = map (\<lambda>r. (fst r, convert_cell (colnames df) n f (snd r))) (rows df)
   \<and> colnames (map_column n f df) = colnames df"
  by (simp add: map_column_def convert_cell_def split: option.splits)

lemma rows_fold_map_column:
  "rows (fold (\<lambda>c. map_column c f) cs df)
     = map (\<lambda>r. (fst r, fold (\<lambda>c. convert_cell (colnames df) c f) cs (snd r))) (rows df)
   \<and> colnames (fold (\<lambda>c. map_column c f) cs df) = colnames df"
proof (induction cs arbitrary: df)
  case Nil
  show ?case by simp
next
  case (Cons c cs)
  show ?case using Cons[of "map_column c f df"] by (simp add: rows_map_column comp_def)
qed

lemma clean_rows:
  assumes "\<not> empty df" and "list_all (\<lambda>c. c \<in> set (colnames df)) required_cols"
  shows "rows (clean_and_prepare_data pd df) =
     map (\<lambda>r. (fst r, clean_cells pd (colnames df) (snd r)))
       (sort_key fst (drop_duplicated (rows (dropna required_cols df))))"
  using assms
  by (simp add: clean_and_prepare_data_def Let_def rows_map_column rows_fold_map_column comp_def
      clean_cells_def sort_index_def drop_duplicated_index_def dropna_def)

lemma map_of_map_snd: "map_of (map (\<lambda>r. (fst r, f (snd r))) xs) k = map_option f (map_of xs k)"
  by (induction xs) auto

lemma map_of_sort_key:
  assumes "distinct (map fst xs)"
  shows "map_of (sort_key fst xs) = map_of xs"
proof (rule map_of_inject_set[THEN iffD2])
  have "mset (map fst (sort_key fst xs)) = mset (map fst xs)" by simp
  then show "distinct (map fst (sort_key fst xs))"
    using assms mset_eq_imp_distinct_iff by blast
  show "distinct (map fst xs)" by (rule assms)
  show "set (sort_key fst xs) = set xs" by simp
qed

lemma clean_first:
  assumes "\<not> empty df" and "list_all (\<lambda>c. c \<in> set (colnames df)) required_cols"
  shows "map_of (rows (clean_and_prepare_data pd df)) t =
     map_option (clean_cells pd (colnames df)) (map_of (rows (dropna required_cols df)) t)"
  by (simp add: clean_rows[OF assms] map_of_map_snd map_of_sort_key drop_duplicated_distinct
      drop_duplicated_first)

text \<open>
  C6, as amended. The standardizer of the fetcher: on a table with the five required
  columns and a usable timestamp (a datetime index, or after \<open>reset_index\<close> a column
  \<open>timestamp\<close> or \<open>index\<close> whose values convert to datetimes), whose required values
  convert to float, it returns a table; the table is sorted in ascending order of its
  timestamps, holds the five required columns, and carries the timestamps of the input
  with their repetitions (no row is dropped, so it has as many rows as the input).
  Whenever it returns a table, that table is sorted, holds the required columns and has
  as many rows as the input. It fails on an input that lacks a required column (among
  its columns and as the name of its index).

  The cleaning step of the data provider, on a table with the required columns, returns
  a table sorted by timestamp, with no timestamp twice and with at most as many rows as
  the input; the row it keeps for a timestamp is, converted, the first of the rows with
  that timestamp that have no NaN in a required column. On a table that is not empty and
  lacks a required column it returns the empty table.
\<close>

theorem standardizer_output:
  "(snd (standardize_dataframe pd df) = Some out \<longrightarrow>
      sorted (labels out) \<and> len out = len df \<and> colnames out = required_cols)
   \<and> snd (standardize_dataframe pd df) =
       (case timestamps_to_index pd df of None \<Rightarrow> None | Some d \<Rightarrow> standardize_tail pd d)
   \<and> (kind df = DatetimeIndex tz \<longrightarrow>
        timestamps_to_index pd df = Some (df\<lparr>kind := DatetimeIndex (Some ''UTC'')\<rparr>))
   \<and> (timestamps_to_index pd df = Some d \<and>
       list_all (\<lambda>c. c \<in> set (colnames df)) required_cols \<and>
       list_all (\<lambda>r. list_all (\<lambda>n. astype_float pd (get_cell (colnames d) (snd r) n) \<noteq> None)
                   required_cols) (rows d) \<longrightarrow>
         (\<exists>res. snd (standardize_dataframe pd df) = Some res \<and> sorted (labels res) \<and>
            mset (labels res) = mset (labels d) \<and> len res = len df \<and>
            colnames res = required_cols))
   \<and> (\<not> list_all (\<lambda>c. c \<in> set (colnames df)) required_cols \<and>
       list_all (\<lambda>c. kind df \<noteq> OtherIndex (Some c)) required_cols \<longrightarrow>
         snd (standardize_dataframe pd df) = None)
   \<and> (list_all (\<lambda>c. c \<in> set (colnames df)) required_cols \<longrightarrow>
         sorted (labels (clean_and_prepare_data pd df)) \<and>
         distinct (labels (clean_and_prepare_data pd df)) \<and>
         len (clean_and_prepare_data pd df) \<le> len df)
   \<and> (\<not> empty df \<and> list_all (\<lambda>c. c \<in> set (colnames df)) required_cols \<longrightarrow>
         map_of (rows (clean_and_prepare_data pd df)) t =
           map_option (clean_cells pd (colnames df)) (map_of (rows (dropna required_cols df)) t))
   \<and> (\<not> empty df \<and> \<not> list_all (\<lambda>c. c \<in> set (colnames df)) required_cols \<longrightarrow>
         clean_and_prepare_data pd df = empty_frame)"
proof (intro conjI impI)
  assume "snd (standardize_dataframe pd df) = Some out"
  from standardize_props[OF this]
  show "sorted (labels out)" "len out = len df" "colnames out = required_cols" by auto
next
  show "snd (standardize_dataframe pd df) =
       (case timestamps_to_index pd df of None \<Rightarrow> None | Some d \<Rightarrow> standardize_tail pd d)"
    by (rule standardize_split)
next
  assume "kind df = DatetimeIndex tz"
  then show "timestamps_to_index pd df = Some (df\<lparr>kind := DatetimeIndex (Some ''UTC'')\<rparr>)"
    by (simp add: timestamps_to_index_def)
next
  assume "timestamps_to_index pd df = Some d \<and>
       list_all (\<lambda>c. c \<in> set (colnames df)) required_cols \<and>
       list_all (\<lambda>r. list_all (\<lambda>n. astype_float pd (get_cell (colnames d) (snd r) n) \<noteq> None)
                   required_cols) (rows d)"
  then show "\<exists>res. snd (standardize_dataframe pd df) = Some res \<and> sorted (labels res) \<and>
            mset (labels res) = mset (labels d) \<and> len res = len df \<and>
            colnames res = required_cols"
    using standardize_success[of pd df d] by blast
next
  assume "\<not> list_all (\<lambda>c. c \<in> set (colnames df)) required_cols \<and>
       list_all (\<lambda>c. kind df \<noteq> OtherIndex (Some c)) required_cols"
  then show "snd (standardize_dataframe pd df) = None"
    using standardize_missing_column[of df pd] by blast
next
  assume r: "list_all (\<lambda>c. c \<in> set (colnames df)) required_cols"
  from clean_props[OF r, of pd]
  show "sorted (labels (clean_and_prepare_data pd df))"
    "distinct (labels (clean_and_prepare_data pd df))"
    "len (clean_and_prepare_data pd df) \<le> len df" by auto
next
  assume "\<not> empty df \<and> list_all (\<lambda>c. c \<in> set (colnames df)) required_cols"
  then show "map_of (rows (clean_and_prepare_data pd df)) t =
           map_option (clean_cells pd (colnames df)) (map_of (rows (dropna required_cols df)) t)"
    using clean_first[of df pd t] by blast
next
  assume "\<not> empty df \<and> \<not> list_all (\<lambda>c. c \<in> set (colnames df)) required_cols"
  then show "clean_and_prepare_data pd df = empty_frame"
    by (simp add: clean_and_prepare_data_def)
qed

lemma ev_std: "snd (standardize_dataframe pd0 naive_df) =
   Some \<lparr>kind = DatetimeIndex (Some ''UTC''), colnames = required_cols,
         rows = [bar_row 1 11, bar_row 2 10, bar_row 2 12]\<rparr>"
  by (simp add: standardize_dataframe_def standardize_tail_def sort_index_def naive_df_def
      select_astype_float_def required_cols_def bar_row_def get_cell_def astype_float_def Let_def)

lemma ev_clean: "clean_and_prepare_data pd0 naive_df =
   \<lparr>kind = DatetimeIndex None, colnames = required_cols,
         rows = [bar_row 1 11, bar_row 2 10]\<rparr>"
  by (simp add: clean_and_prepare_data_def empty_def dropna_def drop_duplicated_index_def
      sort_index_def naive_df_def map_column_def to_numeric_def to_int64_def int64_min_def isna_def
      required_cols_def bar_row_def get_cell_def Let_def)

lemma ev_ts_plain:
  "timestamps_to_index pd0 plain_df =
     Some \<lparr>kind = DatetimeIndex (Some ''UTC''), colnames = ''index'' # required_cols,
           rows = [(7, Num 0 # snd (bar_row 7 10)), (3, Num 1 # snd (bar_row 3 11))]\<rparr>"
  by (simp add: timestamps_to_index_def plain_df_def reset_index_def required_cols_def
      rename_column_def set_timestamp_index_def column_def get_cell_def pd0_def without_nth_def
      bar_row_def Let_def)

lemma ev_clean_nan: "clean_and_prepare_data pd0 nan_first_df =
   \<lparr>kind = DatetimeIndex None, colnames = required_cols,
         rows = [bar_row 1 11, bar_row 2 12]\<rparr>"
  by (simp add: clean_and_prepare_data_def empty_def dropna_def drop_duplicated_index_def
      sort_index_def nan_first_df_def map_column_def to_numeric_def to_int64_def int64_min_def isna_def
      required_cols_def bar_row_def get_cell_def Let_def)

lemma ev_int64:
  "to_int64 (Num 1000.7) = Num 1000 \<and> to_int64 (Num (2 ^ 63)) = Num (- (2 ^ 63))
   \<and> to_int64 (Num (-2.5)) = Num (-2) \<and> to_int64 NaN = Num 0"
  by (simp add: to_int64_def int64_min_def Let_def)

lemma not_empty_naive_df: "\<not> empty naive_df"
  by (simp add: empty_def naive_df_def required_cols_def)

text \<open>
  The claim as it was stated fails on the standardizer of the fetcher: a table with a
  timestamp twice comes back with that timestamp twice.
\<close>

theorem standardizer_keeps_duplicates:
  "\<not> (\<forall>pd df out. list_all (\<lambda>c. c \<in> set (colnames df)) required_cols \<and>
          snd (standardize_dataframe pd df) = Some out \<longrightarrow> distinct (labels out))"
proof
  assume a: "\<forall>pd df out. list_all (\<lambda>c. c \<in> set (colnames df)) required_cols \<and>
          snd (standardize_dataframe pd df) = Some out \<longrightarrow> distinct (labels out)"
  have "list_all (\<lambda>c. c \<in> set (colnames naive_df)) required_cols"
    by (simp add: naive_df_def list_all_iff)
  with a ev_std have "distinct (labels \<lparr>kind = DatetimeIndex (Some ''UTC''), colnames = required_cols,
         rows = [bar_row 1 11, bar_row 2 10, bar_row 2 12]\<rparr>)" by blast
  then show False by (simp add: labels_def bar_row_def)
qed

theorem standardizer_output_witness:
  "(\<exists>res. snd (standardize_dataframe pd0 naive_df) = Some res \<and> sorted (labels res) \<and>
        mset (labels res) = {#2, 1, 2#} \<and> len res = 3 \<and> colnames res = required_cols)
   \<and> (\<exists>res. snd (standardize_dataframe pd0 plain_df) = Some res \<and> sorted (labels res) \<and>
        mset (labels res) = {#7, 3#} \<and> len res = 2 \<and> colnames res = required_cols)
   \<and> snd (standardize_dataframe pd0 no_volume_df) = None
   \<and> sorted (labels (clean_and_prepare_data pd0 naive_df))
   \<and> distinct (labels (clean_and_prepare_data pd0 naive_df))
   \<and> len (clean_and_prepare_data pd0 naive_df) \<le> len naive_df
   \<and> map_of (rows (clean_and_prepare_data pd0 naive_df)) 2 = Some (snd (bar_row 2 10))
   \<and> map_of (rows (clean_and_prepare_data pd0 nan_first_df)) 2 = Some (snd (bar_row 2 12))
   \<and> clean_and_prepare_data pd0 no_volume_df = empty_frame"
proof -
  let ?d = "naive_df\<lparr>kind := DatetimeIndex (Some ''UTC'')\<rparr>"
  let ?p = "\<lparr>kind = DatetimeIndex (Some ''UTC''), colnames = ''index'' # required_cols,
           rows = [(7, Num 0 # snd (bar_row 7 10)), (3, Num 1 # snd (bar_row 3 11))]\<rparr>"
  have r: "list_all (\<lambda>c. c \<in> set (colnames naive_df)) required_cols"
    by (simp add: naive_df_def list_all_iff)
  have k: "kind naive_df = DatetimeIndex None" by (simp add: naive_df_def)
  have cv: "list_all (\<lambda>r. list_all (\<lambda>n. astype_float pd0 (get_cell (colnames ?d) (snd r) n) \<noteq> None)
                   required_cols) (rows ?d)"
    by (simp add: naive_df_def required_cols_def bar_row_def get_cell_def astype_float_def)
  have l: "mset (labels ?d) = {#2, 1, 2#}" "len naive_df = 3"
    by (simp_all add: labels_def len_def naive_df_def bar_row_def)
  have a: "\<exists>res. snd (standardize_dataframe pd0 naive_df) = Some res \<and> sorted (labels res) \<and>
        mset (labels res) = {#2, 1, 2#} \<and> len res = 3 \<and> colnames res = required_cols"
    using standardizer_output[where pd=pd0 and df=naive_df and tz=None and d="?d"] r k cv
    unfolding l[symmetric] by blast
  have rp: "list_all (\<lambda>c. c \<in> set (colnames plain_df)) required_cols"
    by (simp add: plain_df_def list_all_iff)
  have cvp: "list_all (\<lambda>r. list_all (\<lambda>n. astype_float pd0 (get_cell (colnames ?p) (snd r) n) \<noteq> None)
                   required_cols) (rows ?p)"
    by (simp add: required_cols_def bar_row_def get_cell_def astype_float_def)
  have lp: "mset (labels ?p) = {#7, 3#}" "len plain_df = 2"
    by (simp_all add: labels_def len_def plain_df_def bar_row_def)
  have b: "\<exists>res. snd (standardize_dataframe pd0 plain_df) = Some res \<and> sorted (labels res) \<and>
        mset (labels res) = {#7, 3#} \<and> len res = 2 \<and> colnames res = required_cols"
    using standardizer_output[where pd=pd0 and df=plain_df and d="?p"] rp ev_ts_plain cvp
    unfolding lp[symmetric] by blast
  have m: "\<not> list_all (\<lambda>c. c \<in> set (colnames no_volume_df)) required_cols"
    "list_all (\<lambda>c. kind no_volume_df \<noteq> OtherIndex (Some c)) required_cols"
    "\<not> empty no_volume_df"
    by (simp_all add: no_volume_df_def required_cols_def empty_def)
  have c: "snd (standardize_dataframe pd0 no_volume_df) = None"
    "clean_and_prepare_data pd0 no_volume_df = empty_frame"
    using standardizer_output[where pd=pd0 and df=no_volume_df] m by blast+
  have d: "sorted (labels (clean_and_prepare_data pd0 naive_df))"
    "distinct (labels (clean_and_prepare_data pd0 naive_df))"
    "len (clean_and_prepare_data pd0 naive_df) \<le> len naive_df"
    using standardizer_output[where pd=pd0 and df=naive_df] r by blast+
  have e1: "map_option (clean_cells pd0 (colnames naive_df))
       (map_of (rows (dropna required_cols naive_df)) 2) = Some (snd (bar_row 2 10))"
    by (simp add: dropna_def naive_df_def required_cols_def bar_row_def get_cell_def isna_def
        clean_cells_def convert_cell_def to_numeric_def to_int64_def int64_min_def Let_def)
  have e: "map_of (rows (clean_and_prepare_data pd0 naive_df)) 2 = Some (snd (bar_row 2 10))"
    using standardizer_output[where pd=pd0 and df=naive_df and t=2] r not_empty_naive_df
    unfolding e1[symmetric] by blast
  have rn: "list_all (\<lambda>c. c \<in> set (colnames nan_first_df)) required_cols" "\<not> empty nan_first_df"
    by (simp_all add: nan_first_df_def list_all_iff empty_def required_cols_def)
  have f1: "map_option (clean_cells pd0 (colnames nan_first_df))
       (map_of (rows (dropna required_cols nan_first_df)) 2) = Some (snd (bar_row 2 12))"
    by (simp add: dropna_def nan_first_df_def required_cols_def bar_row_def get_cell_def isna_def
        clean_cells_def convert_cell_def to_numeric_def to_int64_def int64_min_def Let_def)
  have f: "map_of (rows (clean_and_prepare_data pd0 nan_first_df)) 2 = Some (snd (bar_row 2 12))"
    using standardizer_output[where pd=pd0 and df=nan_first_df and t=2] rn
    unfolding f1[symmetric] by blast
  show ?thesis using a b c d e f by blast
qed

section \<open>Properties of the position sizer\<close>

lemma py_int_floor: "(py_int x \<le> 0 \<longleftrightarrow> \<lfloor>x\<rfloor> \<le> 0) \<and> (0 < \<lfloor>x\<rfloor> \<longrightarrow> py_int x = \<lfloor>x\<rfloor>)"
proof (cases "0 \<le> x")
  case True
  then show ?thesis by (simp add: py_int_def)
next
  case False
  then have "x < 0" by simp
  then have "\<lceil>x\<rceil> \<le> 0" "\<lfloor>x\<rfloor> \<le> 0" by (simp_all add: ceiling_le_zero floor_le_zero le_floor_iff)
  with False show ?thesis by (simp add: py_int_def)
qed

lemma execute_buy_rejected:
  assumes "action sg = Some ''buy''"
    and "price sg = None \<or> stop_loss sg = None \<or> price sg = Some 0 \<or> stop_loss sg = Some 0 \<or>
         (\<exists>entry stop. price sg = Some entry \<and> stop_loss sg = Some stop \<and>
            (\<bar>entry - stop\<bar> \<le> 0 \<or> \<lfloor>risk_amount_of b st / \<bar>entry - stop\<bar>\<rfloor> \<le> 0))"
  shows "execute_signal e b symbol sg st = (None, st)"
  using assms py_int_floor[of "risk_amount_of b st / \<bar>the (price sg) - the (stop_loss sg)\<bar>"]
  by (auto simp: execute_signal_def risk_amount_of_def Let_def split: option.splits)

lemma execute_buy_submits:
  assumes "action sg = Some ''buy''" "price sg = Some entry" "stop_loss sg = Some stop"
    and "entry \<noteq> 0" "stop \<noteq> 0" "\<bar>entry - stop\<bar> > 0"
    and "\<lfloor>risk_amount_of b st / \<bar>entry - stop\<bar>\<rfloor> > 0"
  shows "\<exists>reply rest. calls (outside (snd (execute_signal e b symbol sg st))) =
           calls (outside st) @
           (CreateOrder (market_buy symbol \<lfloor>risk_amount_of b st / \<bar>entry - stop\<bar>\<rfloor>), reply) # rest"
proof -
  let ?q = "\<lfloor>risk_amount_of b st / \<bar>entry - stop\<bar>\<rfloor>"
  have q: "py_int (risk_amount_of b st / \<bar>entry - stop\<bar>) = ?q" "\<not> ?q \<le> 0"
    using assms(7) py_int_floor[of "risk_amount_of b st / \<bar>entry - stop\<bar>"] by auto
  have ne: "entry \<noteq> stop" using assms(6) by auto
  show ?thesis
    using assms(1-5) ne q
    by (auto simp: execute_signal_def risk_amount_of_def[symmetric] market_buy_def Let_def
        create_order_def logged_def split: sum.splits option.splits prod.splits)
qed

text \<open>
  C5, as amended: for a buy signal, with \<open>risk_amount = equity * risk_fraction\<close> and
  \<open>risk_per_share = |entry - stop_loss|\<close>, \<open>_execute_signal\<close> returns no order and calls
  the brokerage not at all when the entry or the stop-loss is missing or is zero, when
  \<open>risk_per_share \<le> 0\<close> (so when entry and stop are equal), or when
  \<open>floor(risk_amount / risk_per_share) \<le> 0\<close>; otherwise its first call of the brokerage
  is a market buy of \<open>floor(risk_amount / risk_per_share)\<close> shares. With an equity of
  10000, a risk fraction of 0.02, an entry of 100 and a stop of 95 the quantity is 40.
\<close>

theorem position_sizer:
  "action sg = Some ''buy'' \<longrightarrow>
     ((price sg = None \<or> stop_loss sg = None \<or> price sg = Some 0 \<or> stop_loss sg = Some 0 \<or>
         (\<exists>entry stop. price sg = Some entry \<and> stop_loss sg = Some stop \<and>
            (\<bar>entry - stop\<bar> \<le> 0 \<or> \<lfloor>risk_amount_of b st / \<bar>entry - stop\<bar>\<rfloor> \<le> 0))
       \<longrightarrow> execute_signal e b symbol sg st = (None, st))
      \<and> (price sg = Some entry \<and> stop_loss sg = Some stop \<and> entry \<noteq> 0 \<and> stop \<noteq> 0 \<and>
            \<bar>entry - stop\<bar> > 0 \<and> \<lfloor>risk_amount_of b st / \<bar>entry - stop\<bar>\<rfloor> > 0
       \<longrightarrow> (\<exists>reply rest. calls (outside (snd (execute_signal e b symbol sg st))) =
              calls (outside st) @
              (CreateOrder (market_buy symbol \<lfloor>risk_amount_of b st / \<bar>entry - stop\<bar>\<rfloor>), reply) # rest))
      \<and> (map_of (account_info st) ''equity'' = Some 10000 \<and> risk_per_trade b = 0.02 \<and>
            price sg = Some 100 \<and> stop_loss sg = Some 95
       \<longrightarrow> (\<exists>reply rest. calls (outside (snd (execute_signal e b symbol sg st))) =
              calls (outside st) @ (CreateOrder (market_buy symbol 40), reply) # rest)))"
proof (intro impI conjI)
  assume a: "action sg = Some ''buy''"
  {
    assume "price sg = None \<or> stop_loss sg = None \<or> price sg = Some 0 \<or> stop_loss sg = Some 0 \<or>
         (\<exists>entry stop. price sg = Some entry \<and> stop_loss sg = Some stop \<and>
            (\<bar>entry - stop\<bar> \<le> 0 \<or> \<lfloor>risk_amount_of b st / \<bar>entry - stop\<bar>\<rfloor> \<le> 0))"
    from execute_buy_rejected[OF a this]
    show "execute_signal e b symbol sg st = (None, st)" .
  }
  {
    assume "price sg = Some entry \<and> stop_loss sg = Some stop \<and> entry \<noteq> 0 \<and> stop \<noteq> 0 \<and>
            \<bar>entry - stop\<bar> > 0 \<and> \<lfloor>risk_amount_of b st / \<bar>entry - stop\<bar>\<rfloor> > 0"
    then show "\<exists>reply rest. calls (outside (snd (execute_signal e b symbol sg st))) =
              calls (outside st) @
              (CreateOrder (market_buy symbol \<lfloor>risk_amount_of b st / \<bar>entry - stop\<bar>\<rfloor>), reply) # rest"
      using execute_buy_submits[OF a, of entry stop b st e symbol] by blast
  }
  {
    assume h: "map_of (account_info st) ''equity'' = Some 10000 \<and> risk_per_trade b = 0.02 \<and>
            price sg = Some 100 \<and> stop_loss sg = Some 95"
    then have r: "risk_amount_of b st / \<bar>100 - 95\<bar> = 40" by (simp add: risk_amount_of_def)
    have "\<exists>reply rest. calls (outside (snd (execute_signal e b symbol sg st))) =
              calls (outside st) @
              (CreateOrder (market_buy symbol \<lfloor>risk_amount_of b st / \<bar>100 - 95\<bar>\<rfloor>), reply) # rest"
      using h r by (intro execute_buy_submits[OF a]) simp_all
    then show "\<exists>reply rest. calls (outside (snd (execute_signal e b symbol sg st))) =
              calls (outside st) @ (CreateOrder (market_buy symbol 40), reply) # rest"
      unfolding r by simp
  }
qed

theorem position_sizer_witness:
  "(\<exists>reply rest. calls (outside (snd (execute_signal e0 b0 ''AAPL'' (buy_signal 100 95) bs0))) =
        calls (outside bs0) @ (CreateOrder (market_buy ''AAPL'' 40), reply) # rest)
   \<and> execute_signal e0 b0 ''AAPL'' (buy_signal 100 100) bs0 = (None, bs0)
   \<and> execute_signal e0 b0 ''AAPL'' (buy_signal 100 0) bs0 = (None, bs0)"
  using position_sizer[of "buy_signal 100 95" b0 bs0 e0 "''AAPL''" 100 95]
    position_sizer[of "buy_signal 100 100" b0 bs0 e0 "''AAPL''" 100 100]
    position_sizer[of "buy_signal 100 0" b0 bs0 e0 "''AAPL''" 100 0]
  by (simp add: buy_signal_def b0_def bs0_def)

text \<open>
  The claim as it was stated fails for a stop-loss of 0: it is not missing, the risk
  per share and the quantity are positive, and yet no order is submitted.
\<close>

theorem position_sizer_zero_stop:
  "\<not> (\<forall>e b symbol sg st entry stop.
        action sg = Some ''buy'' \<and> price sg = Some entry \<and> stop_loss sg = Some stop \<and>
        \<bar>entry - stop\<bar> > 0 \<and> \<lfloor>risk_amount_of b st / \<bar>entry - stop\<bar>\<rfloor> > 0
        \<longrightarrow> calls (outside (snd (execute_signal e b symbol sg st))) \<noteq> calls (outside st))"
proof
  assume a: "\<forall>e b symbol sg st entry stop.
        action sg = Some ''buy'' \<and> price sg = Some entry \<and> stop_loss sg = Some stop \<and>
        \<bar>entry - stop\<bar> > 0 \<and> \<lfloor>risk_amount_of b st / \<bar>entry - stop\<bar>\<rfloor> > 0
        \<longrightarrow> calls (outside (snd (execute_signal e b symbol sg st))) \<noteq> calls (outside st)"
  have r: "risk_amount_of b0 bs0 = 200"
    by (simp add: risk_amount_of_def b0_def bs0_def)
  have "calls (outside (snd (execute_signal e0 b0 ''AAPL'' (buy_signal 100 0) bs0))) \<noteq> calls (outside bs0)"
    using a[rule_format, of "buy_signal 100 0" 100 0 b0 bs0 e0 "''AAPL''"]
    by (simp add: buy_signal_def r)
  moreover have "execute_signal e0 b0 ''AAPL'' (buy_signal 100 0) bs0 = (None, bs0)"
    by (simp add: execute_signal_def buy_signal_def)
  ultimately show False by simp
qed

section \<open>Properties of the crossover strategy\<close>

lemma those_all_no_None: "those_all xs = Some ys \<Longrightarrow> None \<notin> set xs"
  by (induction xs arbitrary: ys) (auto split: option.splits)

lemma numeric_length: "numeric cs = Some closes \<Longrightarrow> length closes = length cs"
  using those_all_length[of "map (\<lambda>c. case c of Num r \<Rightarrow> Some (Some r) | NaN \<Rightarrow> Some None | Obj s \<Rightarrow> None) cs" closes]
  by (simp add: numeric_def)

lemma closes_length:
  "numeric (column data ''close'') = Some closes \<Longrightarrow> len data = int (length closes)"
  by (simp add: numeric_length column_def len_def)

lemma ma_from_end_Some:
  assumes "ma_from_end w closes k = Some v"
  shows "1 \<le> k" and "k \<le> length closes"
    and "iloc_from_end (map (rolling_mean w closes) [0..<length closes]) k = Some (Some v)"
    and "rolling_mean w closes (length closes - k) = Some v"
proof -
  from assms show i: "iloc_from_end (map (rolling_mean w closes) [0..<length closes]) k = Some (Some v)"
    by (auto simp: ma_from_end_def split: option.splits)
  then show k: "1 \<le> k" "k \<le> length closes"
    by (auto simp: iloc_from_end_def split: if_splits)
  then have "length closes - k < length closes" by simp
  with i k show "rolling_mean w closes (length closes - k) = Some v"
    by (simp add: iloc_from_end_def)
qed

lemma rolling_mean_Some:
  assumes "rolling_mean w closes i = Some v"
  shows "0 < w" and "w \<le> int i + 1"
  using assms by (auto simp: rolling_mean_def split: if_splits)

lemma rolling_mean_last:
  assumes "rolling_mean w closes (length closes - 1) = Some v" and "1 \<le> length closes"
  shows "\<exists>c. iloc_from_end closes 1 = Some (Some c)"
proof -
  let ?n = "length closes"
  from rolling_mean_Some[OF assms(1)] assms(2) have w: "0 < w" "nat w \<le> ?n" by auto
  let ?win = "take (nat w) (drop (?n - 1 + 1 - nat w) closes)"
  from assms(1) w obtain vs where vs: "those_all ?win = Some vs"
    by (auto simp: rolling_mean_def split: if_splits)
  have "?win = drop (?n - nat w) closes" using assms(2) w by simp
  moreover have "drop (?n - nat w) closes \<noteq> []" using w by simp
  then have "last (drop (?n - nat w) closes) = last closes" by (simp add: last_drop)
  moreover have "last (drop (?n - nat w) closes) \<in> set (drop (?n - nat w) closes)"
    using w by (intro last_in_set) simp
  ultimately have "last closes \<in> set ?win" by simp
  with those_all_no_None[OF vs] have "last closes \<noteq> None" by metis
  then obtain c where "last closes = Some c" by auto
  moreover have "closes \<noteq> []" using assms(2) by auto
  ultimately show ?thesis
    using assms(2) by (auto simp: iloc_from_end_def last_conv_nth)
qed

lemma MA_analyze_defined:
  assumes n: "numeric (column data ''close'') = Some closes" and c: "''close'' \<in> set (colnames data)"
    and m: "ma_from_end sw closes 2 = Some ps" "ma_from_end lw closes 2 = Some pl"
       "ma_from_end sw closes 1 = Some cs" "ma_from_end lw closes 1 = Some cl"
  shows "\<exists>c. iloc_from_end closes 1 = Some (Some c) \<and>
     MA_analyze sw lw symbol data =
       (if ps \<le> pl \<and> cs > cl
        then \<lparr>action = Some ''buy'', price = Some c, stop_loss = Some (0.95 * c)\<rparr>
        else if ps \<ge> pl \<and> cs < cl
        then \<lparr>action = Some ''sell'', price = Some c, stop_loss = None\<rparr>
        else null_signal)"
proof -
  from ma_from_end_Some[OF m(1)] have len2: "2 \<le> length closes" by simp
  from ma_from_end_Some(4)[OF m(3)] rolling_mean_Some[of sw closes "length closes - 1" cs]
  have sw: "0 < sw" by simp
  from ma_from_end_Some(4)[OF m(4)] rolling_mean_Some[of lw closes "length closes - 1" cl] len2
  have lw: "0 < lw" "lw \<le> int (length closes)" by auto
  from rolling_mean_last[OF ma_from_end_Some(4)[OF m(3)]] len2
  obtain c where c1: "iloc_from_end closes 1 = Some (Some c)" by auto
  have calc: "calculate_moving_averages sw lw data =
      Some (closes, map (rolling_mean sw closes) [0..<length closes],
                    map (rolling_mean lw closes) [0..<length closes])"
    using n c sw lw closes_length[OF n] by (simp add: calculate_moving_averages_def)
  show ?thesis
    using len2 c1 ma_from_end_Some(3)[OF m(1)] ma_from_end_Some(3)[OF m(2)]
      ma_from_end_Some(3)[OF m(3)] ma_from_end_Some(3)[OF m(4)]
    by (simp add: MA_analyze_def calc mult.commute)
qed

lemma MA_analyze_undefined:
  assumes n: "numeric (column data ''close'') = Some closes"
    and m: "ma_from_end sw closes 2 = None \<or> ma_from_end lw closes 2 = None \<or>
       ma_from_end sw closes 1 = None \<or> ma_from_end lw closes 1 = None"
  shows "MA_analyze sw lw symbol data = null_signal"
proof (cases "calculate_moving_averages sw lw data")
  case None
  then show ?thesis by (simp add: MA_analyze_def)
next
  case (Some t)
  with n have t: "t = (closes, map (rolling_mean sw closes) [0..<length closes],
                    map (rolling_mean lw closes) [0..<length closes])"
    by (auto simp: calculate_moving_averages_def split: if_splits)
  from m show ?thesis
    unfolding MA_analyze_def Some t
    by (auto simp: ma_from_end_def split: option.splits)
qed

lemma MA_analyze_short: "len data < lw \<Longrightarrow> MA_analyze sw lw symbol data = null_signal"
  by (simp add: MA_analyze_def calculate_moving_averages_def)

text \<open>
  C4: let the closes of the series be numbers (or NaN) and take the short and the long
  mean at the last row and at the row before. If the previous short mean is at most the
  previous long mean and the current short mean is above the current long mean,
  \<open>analyze\<close> returns the action buy, with the latest close as price and 0.95 times the
  latest close as stop-loss. If the previous short mean is at least the previous long
  mean and the current short mean is below the current long mean, it returns the action
  sell, with no stop-loss. The two rules never hold together. When one of the four
  means is undefined, or the series has fewer than \<open>long_window\<close> bars, it returns the
  signal with no action.
\<close>

theorem MA_crossover:
  "(numeric (column data ''close'') = Some closes \<and> ''close'' \<in> set (colnames data) \<longrightarrow>
      (ma_from_end sw closes 2 = Some ps \<and> ma_from_end lw closes 2 = Some pl \<and>
       ma_from_end sw closes 1 = Some cs \<and> ma_from_end lw closes 1 = Some cl \<longrightarrow>
         (ps \<le> pl \<and> cs > cl \<longrightarrow>
            (\<exists>c. iloc_from_end closes 1 = Some (Some c) \<and>
                 MA_analyze sw lw symbol data =
                   \<lparr>action = Some ''buy'', price = Some c, stop_loss = Some (0.95 * c)\<rparr>))
       \<and> (ps \<ge> pl \<and> cs < cl \<longrightarrow>
            (\<exists>c. iloc_from_end closes 1 = Some (Some c) \<and>
                 MA_analyze sw lw symbol data =
                   \<lparr>action = Some ''sell'', price = Some c, stop_loss = None\<rparr>))
       \<and> \<not> ((ps \<le> pl \<and> cs > cl) \<and> (ps \<ge> pl \<and> cs < cl)))
    \<and> (ma_from_end sw closes 2 = None \<or> ma_from_end lw closes 2 = None \<or>
        ma_from_end sw closes 1 = None \<or> ma_from_end lw closes 1 = None \<longrightarrow>
          MA_analyze sw lw symbol data = null_signal))
   \<and> (len data < lw \<longrightarrow> MA_analyze sw lw symbol data = null_signal)
   \<and> action null_signal = None"
proof (intro conjI impI)
  assume h: "numeric (column data ''close'') = Some closes \<and> ''close'' \<in> set (colnames data)"
    and m: "ma_from_end sw closes 2 = Some ps \<and> ma_from_end lw closes 2 = Some pl \<and>
       ma_from_end sw closes 1 = Some cs \<and> ma_from_end lw closes 1 = Some cl"
  from MA_analyze_defined[of data closes sw ps lw pl cs cl symbol] h m
  obtain c where c: "iloc_from_end closes 1 = Some (Some c)"
     "MA_analyze sw lw symbol data =
       (if ps \<le> pl \<and> cs > cl
        then \<lparr>action = Some ''buy'', price = Some c, stop_loss = Some (0.95 * c)\<rparr>
        else if ps \<ge> pl \<and> cs < cl
        then \<lparr>action = Some ''sell'', price = Some c, stop_loss = None\<rparr>
        else null_signal)" by blast
  {
    assume "ps \<le> pl \<and> cs > cl"
    with c show "\<exists>c. iloc_from_end closes 1 = Some (Some c) \<and>
                 MA_analyze sw lw symbol data =
                   \<lparr>action = Some ''buy'', price = Some c, stop_loss = Some (0.95 * c)\<rparr>"
      by simp
  }
  {
    assume "ps \<ge> pl \<and> cs < cl"
    with c show "\<exists>c. iloc_from_end closes 1 = Some (Some c) \<and>
                 MA_analyze sw lw symbol data =
                   \<lparr>action = Some ''sell'', price = Some c, stop_loss = None\<rparr>"
      by auto
  }
  show "\<not> ((ps \<le> pl \<and> cs > cl) \<and> (ps \<ge> pl \<and> cs < cl))" by auto
next
  assume h: "numeric (column data ''close'') = Some closes \<and> ''close'' \<in> set (colnames data)"
    and "ma_from_end sw closes 2 = None \<or> ma_from_end lw closes 2 = None \<or>
        ma_from_end sw closes 1 = None \<or> ma_from_end lw closes 1 = None"
  then show "MA_analyze sw lw symbol data = null_signal"
    using MA_analyze_undefined by blast
next
  assume "len data < lw"
  then show "MA_analyze sw lw symbol data = null_signal" by (rule MA_analyze_short)
next
  show "action null_signal = None" by (simp add: null_signal_def)
qed

lemma ev_closes: "numeric (column ma_df ''close'') = Some [Some 3, Some 1, Some 5]"
  by (simp add: numeric_def column_def ma_df_def bar_row_def get_cell_def required_cols_def)

lemma upt3: "[0..<3] = [0, 1, 2]"
  by (simp add: upt_rec)

lemma ev_ma:
  "ma_from_end 1 [Some 3, Some 1, Some 5] 2 = Some 1"
  "ma_from_end 2 [Some 3, Some 1, Some 5] 2 = Some 2"
  "ma_from_end 1 [Some 3, Some 1, Some 5] 1 = Some 5"
  "ma_from_end 2 [Some 3, Some 1, Some 5] 1 = Some 3"
  by (simp_all add: ma_from_end_def iloc_from_end_def rolling_mean_def upt3)

theorem MA_crossover_witness:
  "\<exists>c. iloc_from_end [Some 3, Some 1, Some (5::real)] 1 = Some (Some c) \<and>
       MA_analyze 1 2 ''AAPL'' ma_df =
         \<lparr>action = Some ''buy'', price = Some c, stop_loss = Some (0.95 * c)\<rparr>"
proof -
  have c: "''close'' \<in> set (colnames ma_df)" by (simp add: ma_df_def required_cols_def)
  show ?thesis
    using MA_crossover[of ma_df "[Some 3, Some 1, Some 5]" 1 1 2 2 5 3 "''AAPL''"] ev_closes ev_ma c
    by simp
qed

section \<open>Properties of the cache\<close>

lemma cache_key_order:
  assumes "mset syms = mset syms'"
  shows "make_cache_key syms tf n_bars = make_cache_key syms' tf n_bars"
proof -
  have "sort syms = sort syms'"
    by (rule properties_for_sort) (simp_all add: assms)
  then show ?thesis by (simp add: make_cache_key_def)
qed

lemma cache_hit:
  assumes "map_of (cache p) (make_cache_key syms tf n_bars) = Some stored"
    and "map_of (cache_timestamps p) (make_cache_key syms tf n_bars) = Some stamp"
    and "clock e (ticks w + 1) - stamp < cache_duration"
  shows "provider_get_bars pd e syms tf n_bars start end_time True p w =
     (stored,
      p\<lparr>stat_requests := stat_requests p + 1, last_request_time := Some (clock e (ticks w)),
        stat_cache_hits := stat_cache_hits p + 1\<rparr>,
      w\<lparr>ticks := ticks w + 2\<rparr>)"
  using assms by (simp add: provider_get_bars_def is_cache_valid_def now_def Let_def)

lemma cache_miss_stores:
  assumes "map_of (cache p) (make_cache_key syms tf n_bars) = None \<or>
           (map_of (cache_timestamps p) (make_cache_key syms tf n_bars) = Some stamp \<and>
            \<not> clock e (ticks w + 1) - stamp < cache_duration)"
    and "api_get_bars e (length (calls w)) (cache_query syms tf n_bars start end_time) = Inr raw"
    and "clean_all pd raw \<noteq> []"
  shows "\<exists>p' w' k. provider_get_bars pd e syms tf n_bars start end_time True p w
                     = (clean_all pd raw, p', w') \<and>
           calls w' = calls w @ [(GetBars (cache_query syms tf n_bars start end_time), GotBars raw)] \<and>
           map_of (cache p') (make_cache_key syms tf n_bars) = Some (clean_all pd raw) \<and>
           ticks w < k \<and>
           map_of (cache_timestamps p') (make_cache_key syms tf n_bars) = Some (clock e k)"
proof (cases "map_of (cache p) (make_cache_key syms tf n_bars)")
  case None
  show ?thesis
    using assms(2,3) None
    by (auto simp: provider_get_bars_def fetch_and_store_def now_def client_get_bars_def
        logged_def cache_query_def Let_def update_conv' intro!: exI[of _ "Suc (ticks w)"])
next
  case (Some stored)
  with assms(1) have "map_of (cache_timestamps p) (make_cache_key syms tf n_bars) = Some stamp"
    "\<not> clock e (ticks w + 1) - stamp < cache_duration" by auto
  then show ?thesis
    using assms(2,3) Some
    by (auto simp: provider_get_bars_def fetch_and_store_def is_cache_valid_def now_def
        client_get_bars_def logged_def cache_query_def Let_def update_conv'
        intro!: exI[of _ "Suc (Suc (ticks w))"])
qed

lemma cache_miss_keeps:
  assumes "map_of (cache p) (make_cache_key syms tf n_bars) = None \<or>
           (map_of (cache_timestamps p) (make_cache_key syms tf n_bars) = Some stamp \<and>
            \<not> clock e (ticks w + 1) - stamp < cache_duration)"
    and "api_get_bars e (length (calls w)) (cache_query syms tf n_bars start end_time) = Inl err \<or>
         (api_get_bars e (length (calls w)) (cache_query syms tf n_bars start end_time) = Inr raw \<and>
          clean_all pd raw = [])"
  shows "\<exists>p' w' reply. provider_get_bars pd e syms tf n_bars start end_time True p w = ([], p', w') \<and>
           calls w' = calls w @ [(GetBars (cache_query syms tf n_bars start end_time), reply)] \<and>
           cache p' = cache p \<and> cache_timestamps p' = cache_timestamps p"
proof (cases "map_of (cache p) (make_cache_key syms tf n_bars)")
  case None
  show ?thesis
    using assms(2) None
    by (auto simp: provider_get_bars_def fetch_and_store_def now_def client_get_bars_def
        logged_def cache_query_def Let_def)
next
  case (Some stored)
  with assms(1) have "map_of (cache_timestamps p) (make_cache_key syms tf n_bars) = Some stamp"
    "\<not> clock e (ticks w + 1) - stamp < cache_duration" by auto
  then show ?thesis
    using assms(2) Some
    by (auto simp: provider_get_bars_def fetch_and_store_def is_cache_valid_def now_def
        client_get_bars_def logged_def cache_query_def Let_def)
qed

text \<open>
  C8, as amended: the cache key does not depend on the order of the symbols. A fetch
  whose key has an entry younger than the TTL of 5 minutes returns the stored value,
  calls the brokerage not at all, changes no entry and adds one to the hit counter
  (and one to the request counter). A fetch whose key has no entry, or an entry whose
  age has reached the TTL, calls the brokerage once; when the result is not empty it
  is returned and stored under the key with a timestamp read from the clock during
  this call; when the brokerage raises or the result is empty, the empty result is
  returned and the cache and its timestamps are left as they were.
\<close>

theorem cache_fetch:
  "(mset syms = mset syms' \<longrightarrow> make_cache_key syms tf n_bars = make_cache_key syms' tf n_bars)
   \<and> (map_of (cache p) (make_cache_key syms tf n_bars) = Some stored \<and>
       map_of (cache_timestamps p) (make_cache_key syms tf n_bars) = Some stamp \<and>
       clock e (ticks w + 1) - stamp < cache_duration \<longrightarrow>
         provider_get_bars pd e syms tf n_bars start end_time True p w =
           (stored,
            p\<lparr>stat_requests := stat_requests p + 1, last_request_time := Some (clock e (ticks w)),
              stat_cache_hits := stat_cache_hits p + 1\<rparr>,
            w\<lparr>ticks := ticks w + 2\<rparr>))
   \<and> ((map_of (cache p) (make_cache_key syms tf n_bars) = None \<or>
           (map_of (cache_timestamps p) (make_cache_key syms tf n_bars) = Some stamp \<and>
            \<not> clock e (ticks w + 1) - stamp < cache_duration)) \<and>
       api_get_bars e (length (calls w)) (cache_query syms tf n_bars start end_time) = Inr raw \<and>
       clean_all pd raw \<noteq> [] \<longrightarrow>
         (\<exists>p' w' k. provider_get_bars pd e syms tf n_bars start end_time True p w
                     = (clean_all pd raw, p', w') \<and>
           calls w' = calls w @ [(GetBars (cache_query syms tf n_bars start end_time), GotBars raw)] \<and>
           map_of (cache p') (make_cache_key syms tf n_bars) = Some (clean_all pd raw) \<and>
           ticks w < k \<and>
           map_of (cache_timestamps p') (make_cache_key syms tf n_bars) = Some (clock e k)))
   \<and> ((map_of (cache p) (make_cache_key syms tf n_bars) = None \<or>
           (map_of (cache_timestamps p) (make_cache_key syms tf n_bars) = Some stamp \<and>
            \<not> clock e (ticks w + 1) - stamp < cache_duration)) \<and>
       (api_get_bars e (length (calls w)) (cache_query syms tf n_bars start end_time) = Inl err \<or>
         (api_get_bars e (length (calls w)) (cache_query syms tf n_bars start end_time) = Inr raw \<and>
          clean_all pd raw = [])) \<longrightarrow>
         (\<exists>p' w' reply. provider_get_bars pd e syms tf n_bars start end_time True p w = ([], p', w') \<and>
           calls w' = calls w @ [(GetBars (cache_query syms tf n_bars start end_time), reply)] \<and>
           cache p' = cache p \<and> cache_timestamps p' = cache_timestamps p))"
proof (intro conjI impI)
  assume "mset syms = mset syms'"
  then show "make_cache_key syms tf n_bars = make_cache_key syms' tf n_bars" by (rule cache_key_order)
next
  assume "map_of (cache p) (make_cache_key syms tf n_bars) = Some stored \<and>
       map_of (cache_timestamps p) (make_cache_key syms tf n_bars) = Some stamp \<and>
       clock e (ticks w + 1) - stamp < cache_duration"
  then show "provider_get_bars pd e syms tf n_bars start end_time True p w =
           (stored,
            p\<lparr>stat_requests := stat_requests p + 1, last_request_time := Some (clock e (ticks w)),
              stat_cache_hits := stat_cache_hits p + 1\<rparr>,
            w\<lparr>ticks := ticks w + 2\<rparr>)"
    using cache_hit by blast
next
  assume "(map_of (cache p) (make_cache_key syms tf n_bars) = None \<or>
           (map_of (cache_timestamps p) (make_cache_key syms tf n_bars) = Some stamp \<and>
            \<not> clock e (ticks w + 1) - stamp < cache_duration)) \<and>
       api_get_bars e (length (calls w)) (cache_query syms tf n_bars start end_time) = Inr raw \<and>
       clean_all pd raw \<noteq> []"
  then show "\<exists>p' w' k. provider_get_bars pd e syms tf n_bars start end_time True p w
                     = (clean_all pd raw, p', w') \<and>
           calls w' = calls w @ [(GetBars (cache_query syms tf n_bars start end_time), GotBars raw)] \<and>
           map_of (cache p') (make_cache_key syms tf n_bars) = Some (clean_all pd raw) \<and>
           ticks w < k \<and>
           map_of (cache_timestamps p') (make_cache_key syms tf n_bars) = Some (clock e k)"
    using cache_miss_stores[of p syms tf n_bars stamp e w start end_time raw pd] by blast
next
  assume "(map_of (cache p) (make_cache_key syms tf n_bars) = None \<or>
           (map_of (cache_timestamps p) (make_cache_key syms tf n_bars) = Some stamp \<and>
            \<not> clock e (ticks w + 1) - stamp < cache_duration)) \<and>
       (api_get_bars e (length (calls w)) (cache_query syms tf n_bars start end_time) = Inl err \<or>
         (api_get_bars e (length (calls w)) (cache_query syms tf n_bars start end_time) = Inr raw \<and>
          clean_all pd raw = []))"
  then show "\<exists>p' w' reply. provider_get_bars pd e syms tf n_bars start end_time True p w = ([], p', w') \<and>
           calls w' = calls w @ [(GetBars (cache_query syms tf n_bars start end_time), reply)] \<and>
           cache p' = cache p \<and> cache_timestamps p' = cache_timestamps p"
    using cache_miss_keeps[of p syms tf n_bars stamp e w start end_time err raw pd] by blast
qed

lemma key_AAPL: "make_cache_key [''AAPL''] ''1Min'' 100 = ''AAPL_1Min_100''"
  by code_simp

theorem cache_fetch_witness:
  "make_cache_key [''MSFT'', ''AAPL''] ''1Min'' 100 = make_cache_key [''AAPL'', ''MSFT''] ''1Min'' 100
   \<and> provider_get_bars pd0 e0 [''AAPL''] ''1Min'' 100 None None True p1 w0 =
       (stored_data,
        p1\<lparr>stat_requests := stat_requests p1 + 1, last_request_time := Some (clock e0 (ticks w0)),
           stat_cache_hits := stat_cache_hits p1 + 1\<rparr>,
        w0\<lparr>ticks := ticks w0 + 2\<rparr>)
   \<and> (\<exists>p' w' reply. provider_get_bars pd0 e_down [''AAPL''] ''1Min'' 100 None None True p1 w0 = ([], p', w') \<and>
           calls w' = calls w0 @ [(GetBars (cache_query [''AAPL''] ''1Min'' 100 None None), reply)] \<and>
           cache p' = cache p1 \<and> cache_timestamps p' = cache_timestamps p1)"
proof -
  have a: "make_cache_key [''MSFT'', ''AAPL''] ''1Min'' 100 = make_cache_key [''AAPL'', ''MSFT''] ''1Min'' 100"
    using cache_fetch[of "[''MSFT'', ''AAPL'']" "[''AAPL'', ''MSFT'']" "''1Min''" 100] by simp
  have h: "map_of (cache p1) (make_cache_key [''AAPL''] ''1Min'' 100) = Some stored_data"
    "map_of (cache_timestamps p1) (make_cache_key [''AAPL''] ''1Min'' 100) = Some 0"
    by (simp_all add: key_AAPL p1_def)
  have t: "clock e0 (ticks w0 + 1) - 0 < cache_duration"
    "\<not> clock e_down (ticks w0 + 1) - 0 < cache_duration"
    "api_get_bars e_down (length (calls w0)) (cache_query [''AAPL''] ''1Min'' 100 None None) = Inl APIError"
    by (simp_all add: e0_def e_down_def w0_def cache_duration_def)
  have b: "provider_get_bars pd0 e0 [''AAPL''] ''1Min'' 100 None None True p1 w0 =
       (stored_data,
        p1\<lparr>stat_requests := stat_requests p1 + 1, last_request_time := Some (clock e0 (ticks w0)),
           stat_cache_hits := stat_cache_hits p1 + 1\<rparr>,
        w0\<lparr>ticks := ticks w0 + 2\<rparr>)"
    using cache_fetch[of "[''AAPL'']" "[''AAPL'']" "''1Min''" 100 p1 stored_data 0 e0 w0 pd0 None None]
      h t(1) by blast
  have c: "\<exists>p' w' reply. provider_get_bars pd0 e_down [''AAPL''] ''1Min'' 100 None None True p1 w0 = ([], p', w') \<and>
           calls w' = calls w0 @ [(GetBars (cache_query [''AAPL''] ''1Min'' 100 None None), reply)] \<and>
           cache p' = cache p1 \<and> cache_timestamps p' = cache_timestamps p1"
    using cache_fetch[of "[''AAPL'']" "[''AAPL'']" "''1Min''" 100 p1 stored_data 0 e_down w0 pd0 None None _ APIError]
      h t(2,3) by blast
  show ?thesis using a b c by blast
qed

text \<open>
  The claim as it was stated fails when the fetch fails: the entry whose age has
  reached the TTL is not replaced, and keeps its old timestamp.
\<close>

theorem cache_keeps_stale_entry:
  "\<not> (\<forall>pd e syms tf n_bars p w stamp.
        map_of (cache_timestamps p) (make_cache_key syms tf n_bars) = Some stamp \<and>
        \<not> clock e (ticks w + 1) - stamp < cache_duration \<longrightarrow>
        (\<exists>k. map_of (cache_timestamps (fst (snd (provider_get_bars pd e syms tf n_bars None None True p w))))
               (make_cache_key syms tf n_bars) = Some (clock e k)))"
proof
  assume a: "\<forall>pd e syms tf n_bars p w stamp.
        map_of (cache_timestamps p) (make_cache_key syms tf n_bars) = Some stamp \<and>
        \<not> clock e (ticks w + 1) - stamp < cache_duration \<longrightarrow>
        (\<exists>k. map_of (cache_timestamps (fst (snd (provider_get_bars pd e syms tf n_bars None None True p w))))
               (make_cache_key syms tf n_bars) = Some (clock e k))"
  have h: "map_of (cache_timestamps p1) (make_cache_key [''AAPL''] ''1Min'' 100) = Some 0"
    "\<not> clock e_down (ticks w0 + 1) - 0 < cache_duration"
    by (simp_all add: key_AAPL p1_def e_down_def w0_def cache_duration_def)
  have "cache_timestamps (fst (snd (provider_get_bars pd0 e_down [''AAPL''] ''1Min'' 100 None None True p1 w0)))
      = [(''AAPL_1Min_100'', 0)]"
    by (simp add: provider_get_bars_def fetch_and_store_def is_cache_valid_def now_def
        client_get_bars_def logged_def Let_def key_AAPL p1_def e_down_def w0_def cache_duration_def)
  moreover from a h obtain k where
    "map_of (cache_timestamps (fst (snd (provider_get_bars pd0 e_down [''AAPL''] ''1Min'' 100 None None True p1 w0))))
               (make_cache_key [''AAPL''] ''1Min'' 100) = Some (clock e_down k)"
    by blast
  ultimately have "(0::int) = clock e_down k" by (simp add: key_AAPL)
  then show False by (simp add: e_down_def)
qed

section \<open>Properties of the trading cycle\<close>

lemma bars_queries_append: "bars_queries (xs @ ys) = bars_queries xs @ bars_queries ys"
  by (induction xs rule: bars_queries.induct) auto

lemma execute_signal_calls:
  "\<exists>new. calls (outside (snd (execute_signal e b symbol sg st))) = calls (outside st) @ new \<and>
         bars_queries new = [] \<and>
         positions (snd (execute_signal e b symbol sg st)) = positions st"
  by (auto simp: execute_signal_def create_order_def close_position_def logged_def Let_def
      split: option.splits sum.splits prod.splits)

lemma provider_get_bars_calls:
  "\<exists>new. calls (snd (snd (provider_get_bars pd e syms tf n_bars start end_time uc p w))) = calls w @ new \<and>
         set (bars_queries new) \<subseteq> {cache_query syms tf n_bars start end_time}"
  by (auto simp: provider_get_bars_def fetch_and_store_def is_cache_valid_def now_def
      client_get_bars_def logged_def cache_query_def Let_def
      split: option.splits sum.splits prod.splits)

lemma fetch_data_calls:
  "\<exists>new. calls (outside (snd (fetch_data_for_symbol pd e b symbol st))) = calls (outside st) @ new \<and>
         set (bars_queries new) \<subseteq> {cache_query [symbol] (time_frame b) 100 None None} \<and>
         positions (snd (fetch_data_for_symbol pd e b symbol st)) = positions st"
  using provider_get_bars_calls[of pd e "[symbol]" "time_frame b" 100 None None True
      "data_provider st" "outside st"]
  by (auto simp: fetch_data_for_symbol_def Let_def split: prod.splits)

lemma apply_strategies_calls:
  "\<exists>new. calls (outside (snd (snd (snd (apply_strategies e b symbol data ss slots ids st)))))
           = calls (outside st) @ new \<and>
         bars_queries new = [] \<and>
         positions (snd (snd (snd (apply_strategies e b symbol data ss slots ids st)))) = positions st"
proof (induction ss arbitrary: slots ids st)
  case Nil
  show ?case by simp
next
  case (Cons s ss)
  show ?case
  proof (cases "analyze s symbol data")
    case (Inl err)
    then show ?thesis using Cons.IH[of slots ids st] by simp
  next
    case (Inr r)
    show ?thesis
    proof (cases r)
      case None
      then show ?thesis using Inr Cons.IH[of slots ids st] by simp
    next
      case (Some sg)
      obtain oid st1 where ex: "execute_signal e b symbol sg st = (oid, st1)"
        by (cases "execute_signal e b symbol sg st")
      from execute_signal_calls[of e b symbol sg st] ex obtain new1 where
        n1: "calls (outside st1) = calls (outside st) @ new1" "bars_queries new1 = []"
          "positions st1 = positions st" by auto
      have step: "\<And>slots' ids'. \<exists>new. calls (outside (snd (snd (snd (apply_strategies e b symbol data ss slots' ids' st1)))))
           = calls (outside st) @ new \<and> bars_queries new = [] \<and>
           positions (snd (snd (snd (apply_strategies e b symbol data ss slots' ids' st1)))) = positions st"
      proof -
        fix slots' ids'
        from Cons.IH[of slots' ids' st1] obtain new2 where
          "calls (outside (snd (snd (snd (apply_strategies e b symbol data ss slots' ids' st1)))))
             = calls (outside st1) @ new2" "bars_queries new2 = []"
          "positions (snd (snd (snd (apply_strategies e b symbol data ss slots' ids' st1)))) = positions st1"
          by blast
        with n1 show "\<exists>new. calls (outside (snd (snd (snd (apply_strategies e b symbol data ss slots' ids' st1)))))
           = calls (outside st) @ new \<and> bars_queries new = [] \<and>
           positions (snd (snd (snd (apply_strategies e b symbol data ss slots' ids' st1)))) = positions st"
          by (intro exI[of _ "new1 @ new2"]) (simp add: bars_queries_append)
      qed
      show ?thesis
        using Inr Some ex n1 step[of slots ids] step[of "slots - 1"]
        by (auto split: option.splits)
    qed
  qed
qed

lemma process_symbols_calls:
  "\<exists>new. calls (outside (snd (snd (process_symbols pd e b syms slots ids st)))) = calls (outside st) @ new \<and>
         set (bars_queries new) \<subseteq>
           {cache_query [s] (time_frame b) 100 None None | s. s \<in> set syms \<and> map_of (positions st) s = None} \<and>
         positions (snd (snd (process_symbols pd e b syms slots ids st))) = positions st"
proof (induction syms arbitrary: slots ids st)
  case Nil
  show ?case by simp
next
  case (Cons symbol rest)
  let ?S = "\<lambda>syms. {cache_query [s] (time_frame b) 100 None None | s. s \<in> set syms \<and> map_of (positions st) s = None}"
  have mono: "?S rest \<subseteq> ?S (symbol # rest)" by auto
  show ?case
  proof (cases "map_of (positions st) symbol \<noteq> None")
    case True
    then show ?thesis using Cons.IH[of slots ids st] mono by (auto simp del: map_of_eq_None_iff)
  next
    case False
    obtain d st1 where f: "fetch_data_for_symbol pd e b symbol st = (d, st1)"
      by (cases "fetch_data_for_symbol pd e b symbol st")
    from fetch_data_calls[of pd e b symbol st] f obtain new1 where
      n1: "calls (outside st1) = calls (outside st) @ new1"
        "set (bars_queries new1) \<subseteq> {cache_query [symbol] (time_frame b) 100 None None}"
        "positions st1 = positions st" by auto
    have in1: "set (bars_queries new1) \<subseteq> ?S (symbol # rest)" using n1(2) False by auto
    have cont: "\<And>slots' ids' st2 new2.
        calls (outside (st2::bot_state)) = calls (outside st1) @ new2 \<Longrightarrow> bars_queries new2 = [] \<Longrightarrow>
        positions st2 = positions st1 \<Longrightarrow>
        \<exists>new. calls (outside (snd (snd (process_symbols pd e b rest slots' ids' st2)))) = calls (outside st) @ new \<and>
         set (bars_queries new) \<subseteq> ?S (symbol # rest) \<and>
         positions (snd (snd (process_symbols pd e b rest slots' ids' st2))) = positions st"
    proof -
      fix slots' ids' and st2 :: bot_state and new2
      assume a: "calls (outside st2) = calls (outside st1) @ new2" "bars_queries new2 = []"
        "positions st2 = positions st1"
      from Cons.IH[of slots' ids' st2] obtain new3 where
        n3: "calls (outside (snd (snd (process_symbols pd e b rest slots' ids' st2)))) = calls (outside st2) @ new3"
         "set (bars_queries new3) \<subseteq>
           {cache_query [s] (time_frame b) 100 None None | s. s \<in> set rest \<and> map_of (positions st2) s = None}"
         "positions (snd (snd (process_symbols pd e b rest slots' ids' st2))) = positions st2"
        by blast
      have "set (bars_queries new3) \<subseteq> ?S (symbol # rest)"
        using n3(2) a(3) n1(3) by auto
      with n3 a n1 in1 show "\<exists>new. calls (outside (snd (snd (process_symbols pd e b rest slots' ids' st2)))) = calls (outside st) @ new \<and>
         set (bars_queries new) \<subseteq> ?S (symbol # rest) \<and>
         positions (snd (snd (process_symbols pd e b rest slots' ids' st2))) = positions st"
        by (intro exI[of _ "new1 @ new2 @ new3"]) (simp add: bars_queries_append)
    qed
    show ?thesis
    proof (cases "d = None \<or> (\<exists>df. d = Some df \<and> empty df)")
      case True
      then have "process_symbols pd e b (symbol # rest) slots ids st =
          process_symbols pd e b rest slots ids st1"
        using False f by auto
      then show ?thesis using cont[of st1 "[]" slots ids] by simp
    next
      case False2: False
      then obtain df where df: "d = Some df" "\<not> empty df" by auto
      obtain ret slots' ids' st2 where ap:
        "apply_strategies e b symbol df (strategies b) slots ids st1 = (ret, slots', ids', st2)"
        by (cases "apply_strategies e b symbol df (strategies b) slots ids st1") auto
      from apply_strategies_calls[of e b symbol df "strategies b" slots ids st1] ap obtain new2 where
        n2: "calls (outside st2) = calls (outside st1) @ new2" "bars_queries new2 = []"
          "positions st2 = positions st1" by auto
      show ?thesis
      proof (cases ret)
        case True
        then have "process_symbols pd e b (symbol # rest) slots ids st = (slots', ids', st2)"
          using False f df ap by simp
        then show ?thesis using n1 n2 in1
          by (intro exI[of _ "new1 @ new2"]) (simp add: bars_queries_append)
      next
        case False3: False
        then have "process_symbols pd e b (symbol # rest) slots ids st =
            process_symbols pd e b rest slots' ids' st2"
          using False f df ap by simp
        then show ?thesis using cont[OF n2, of slots' ids'] by simp
      qed
    qed
  qed
qed

lemma refreshed_calls:
  "\<exists>r1 r2. calls (outside (refreshed e st)) = calls (outside st) @ [(GetAccount, r1), (ListPositions, r2)]"
  by (auto simp: refreshed_def update_account_info_def update_positions_def get_account_def
      list_positions_def logged_def Let_def split: sum.splits prod.splits)

lemma refreshed_provider: "data_provider (refreshed e st) = data_provider st"
  by (auto simp: refreshed_def update_account_info_def update_positions_def get_account_def
      list_positions_def logged_def Let_def split: sum.splits prod.splits)

lemma apply_strategies_slots:
  assumes "0 < slots"
    and "apply_strategies e b symbol data ss slots ids st = (ret, slots', ids', st')"
  shows "0 \<le> slots' \<and> int (length ids') = int (length ids) + (slots - slots') \<and> (ret \<longleftrightarrow> slots' = 0)"
  using assms
proof (induction ss arbitrary: slots ids st)
  case Nil
  then show ?case by auto
next
  case (Cons s ss)
  show ?case
  proof (cases "analyze s symbol data")
    case (Inl err)
    then show ?thesis using Cons.IH[of slots ids st] Cons.prems by simp
  next
    case (Inr r)
    show ?thesis
    proof (cases r)
      case None
      then show ?thesis using Inr Cons.IH[of slots ids st] Cons.prems by simp
    next
      case (Some sg)
      obtain oid st1 where ex: "execute_signal e b symbol sg st = (oid, st1)"
        by (cases "execute_signal e b symbol sg st")
      show ?thesis
      proof (cases "oid = None \<or> oid = Some []")
        case True
        then have "apply_strategies e b symbol data (s # ss) slots ids st =
            apply_strategies e b symbol data ss slots ids st1"
          using Inr Some ex by auto
        then show ?thesis using Cons.IH[of slots ids st1] Cons.prems by simp
      next
        case False
        then obtain i where i: "oid = Some i" "i \<noteq> []" by auto
        show ?thesis
        proof (cases "slots - 1 \<le> 0")
          case True
          then have "apply_strategies e b symbol data (s # ss) slots ids st =
              (True, slots - 1, ids @ [i], st1)"
            using Inr Some ex i by simp
          then show ?thesis using Cons.prems True by auto
        next
          case False2: False
          then have "apply_strategies e b symbol data (s # ss) slots ids st =
              apply_strategies e b symbol data ss (slots - 1) (ids @ [i]) st1"
            using Inr Some ex i by simp
          then show ?thesis using Cons.IH[of "slots - 1" "ids @ [i]" st1] Cons.prems False2 by auto
        qed
      qed
    qed
  qed
qed

declare process_symbols.simps(2) [simp del]

lemma process_symbols_step:
  "process_symbols pd e b (symbol # rest) slots ids st =
     (if map_of (positions st) symbol \<noteq> None then process_symbols pd e b rest slots ids st
      else case fetch_data_for_symbol pd e b symbol st of
             (d, st1) \<Rightarrow>
               if d = None \<or> (\<exists>df. d = Some df \<and> empty df)
               then process_symbols pd e b rest slots ids st1
               else case apply_strategies e b symbol (the d) (strategies b) slots ids st1 of
                      (ret, slots', ids', st2) \<Rightarrow>
                        if ret then (slots', ids', st2)
                        else process_symbols pd e b rest slots' ids' st2)"
  by (auto simp: process_symbols.simps(2) split: prod.splits option.splits simp del: map_of_eq_None_iff)

lemma process_symbols_slots:
  assumes "0 < slots"
    and "process_symbols pd e b syms slots ids st = (slots', ids', st')"
  shows "0 \<le> slots' \<and> int (length ids') = int (length ids) + (slots - slots')"
  using assms
proof (induction syms arbitrary: slots ids st)
  case Nil
  then show ?case by auto
next
  case (Cons symbol rest)
  obtain d st1 where f: "fetch_data_for_symbol pd e b symbol st = (d, st1)"
    by (cases "fetch_data_for_symbol pd e b symbol st")
  obtain ret s2 i2 st2 where ap:
    "apply_strategies e b symbol (the d) (strategies b) slots ids st1 = (ret, s2, i2, st2)"
    by (cases "apply_strategies e b symbol (the d) (strategies b) slots ids st1") auto
  note inv = apply_strategies_slots[OF Cons.prems(1) ap]
  show ?case
  proof (cases "map_of (positions st) symbol \<noteq> None")
    case True
    then have "process_symbols pd e b (symbol # rest) slots ids st =
        process_symbols pd e b rest slots ids st"
      by (subst process_symbols_step) simp
    then show ?thesis using Cons.IH[of slots ids st] Cons.prems by simp
  next
    case False
    show ?thesis
    proof (cases "d = None \<or> (\<exists>df. d = Some df \<and> empty df)")
      case True
      then have "process_symbols pd e b (symbol # rest) slots ids st =
          process_symbols pd e b rest slots ids st1"
        using False f by (subst process_symbols_step) simp
      then show ?thesis using Cons.IH[of slots ids st1] Cons.prems by simp
    next
      case False2: False
      show ?thesis
      proof (cases ret)
        case True
        then have "process_symbols pd e b (symbol # rest) slots ids st = (s2, i2, st2)"
          using False False2 f ap by (subst process_symbols_step) auto
        then show ?thesis using inv Cons.prems by simp
      next
        case False3: False
        then have eq: "process_symbols pd e b (symbol # rest) slots ids st =
            process_symbols pd e b rest s2 i2 st2"
          using False False2 f ap by (subst process_symbols_step) auto
        from inv False3 have "0 < s2" by auto
        from Cons.IH[OF this, of i2 st2] eq Cons.prems(2) inv show ?thesis by auto
      qed
    qed
  qed
qed

lemma process_symbols_stop:
  assumes "0 < slots" and "fst (process_symbols pd e b xs slots ids st) = 0"
  shows "process_symbols pd e b (xs @ ys) slots ids st = process_symbols pd e b xs slots ids st"
  using assms
proof (induction xs arbitrary: slots ids st)
  case Nil
  then show ?case by simp
next
  case (Cons symbol rest)
  obtain d st1 where f: "fetch_data_for_symbol pd e b symbol st = (d, st1)"
    by (cases "fetch_data_for_symbol pd e b symbol st")
  obtain ret s2 i2 st2 where ap:
    "apply_strategies e b symbol (the d) (strategies b) slots ids st1 = (ret, s2, i2, st2)"
    by (cases "apply_strategies e b symbol (the d) (strategies b) slots ids st1") auto
  note inv = apply_strategies_slots[OF Cons.prems(1) ap]
  show ?case
  proof (cases "map_of (positions st) symbol \<noteq> None")
    case True
    then have eq: "\<And>zs. process_symbols pd e b (symbol # zs) slots ids st =
        process_symbols pd e b zs slots ids st"
      by (subst process_symbols_step) simp
    from Cons.prems(2) eq[of rest] have "fst (process_symbols pd e b rest slots ids st) = 0" by simp
    from Cons.IH[OF Cons.prems(1) this] show ?thesis using eq[of rest] eq[of "rest @ ys"] by simp
  next
    case False
    show ?thesis
    proof (cases "d = None \<or> (\<exists>df. d = Some df \<and> empty df)")
      case True
      then have eq: "\<And>zs. process_symbols pd e b (symbol # zs) slots ids st =
          process_symbols pd e b zs slots ids st1"
        using False f by (subst process_symbols_step) simp
      from Cons.prems(2) eq[of rest] have "fst (process_symbols pd e b rest slots ids st1) = 0" by simp
      from Cons.IH[OF Cons.prems(1) this] show ?thesis using eq[of rest] eq[of "rest @ ys"] by simp
    next
      case False2: False
      show ?thesis
      proof (cases ret)
        case True
        then have eq: "\<And>zs. process_symbols pd e b (symbol # zs) slots ids st = (s2, i2, st2)"
          using False False2 f ap by (subst process_symbols_step) auto
        show ?thesis using eq[of rest] eq[of "rest @ ys"] by simp
      next
        case False3: False
        from inv False3 have pos: "0 < s2" by auto
        have eq: "\<And>zs. process_symbols pd e b (symbol # zs) slots ids st =
            process_symbols pd e b zs s2 i2 st2"
          using False False2 False3 f ap by (subst process_symbols_step) auto
        from Cons.prems(2) eq[of rest] have "fst (process_symbols pd e b rest s2 i2 st2) = 0" by simp
        from Cons.IH[OF pos this] show ?thesis using eq[of rest] eq[of "rest @ ys"] by simp
      qed
    qed
  qed
qed

text \<open>
  The accounting of the slots in the loop of a cycle. \<open>available_slots\<close> is
  \<open>max(0, max_positions - number of positions)\<close>, from the positions just refreshed. When
  it is zero the cycle ends after the two refreshes: no symbol is analysed, nothing is
  fetched and no order is submitted. Otherwise every order id \<open>_execute_signal\<close> returns
  takes one slot, the slots never go below zero, and the number of order ids obtained
  in the cycle is at most \<open>available_slots\<close>; once the slots are used up the symbols
  that follow are not processed.
\<close>

lemma order_ids_within_slots:
  "available_slots_of b (refreshed e st)
      = max 0 (max_positions b - int (length (positions (refreshed e st))))
   \<and> (available_slots_of b (refreshed e st) = 0 \<longrightarrow>
        trading_cycle pd e b st = (0, [], refreshed e st) \<and>
        data_provider (refreshed e st) = data_provider st \<and>
        (\<exists>r1 r2. calls (outside (refreshed e st))
                    = calls (outside st) @ [(GetAccount, r1), (ListPositions, r2)]))
   \<and> (case trading_cycle pd e b st of
         (slots_left, ids, st') \<Rightarrow>
           int (length ids) \<le> available_slots_of b (refreshed e st) \<and>
           slots_left = available_slots_of b (refreshed e st) - int (length ids) \<and>
           0 \<le> slots_left)
   \<and> (0 < slots \<and> fst (process_symbols pd e b xs slots ids0 st0) = 0 \<longrightarrow>
        process_symbols pd e b (xs @ ys) slots ids0 st0 = process_symbols pd e b xs slots ids0 st0)"
proof (intro conjI impI)
  show "available_slots_of b (refreshed e st)
      = max 0 (max_positions b - int (length (positions (refreshed e st))))"
    by (simp add: available_slots_of_def)
next
  assume z: "available_slots_of b (refreshed e st) = 0"
  then show "trading_cycle pd e b st = (0, [], refreshed e st)"
    by (simp add: trading_cycle_def refreshed_def Let_def)
  show "data_provider (refreshed e st) = data_provider st" by (rule refreshed_provider)
  show "\<exists>r1 r2. calls (outside (refreshed e st))
                    = calls (outside st) @ [(GetAccount, r1), (ListPositions, r2)]"
    by (rule refreshed_calls)
next
  let ?n = "available_slots_of b (refreshed e st)"
  show "case trading_cycle pd e b st of
         (slots_left, ids, st') \<Rightarrow>
           int (length ids) \<le> ?n \<and> slots_left = ?n - int (length ids) \<and> 0 \<le> slots_left"
  proof (cases "?n = 0")
    case True
    then show ?thesis by (simp add: trading_cycle_def refreshed_def Let_def)
  next
    case False
    then have pos: "0 < ?n" by (simp add: available_slots_of_def)
    obtain l i s' where r: "process_symbols pd e b (symbols b) ?n [] (refreshed e st) = (l, i, s')"
      by (cases "process_symbols pd e b (symbols b) ?n [] (refreshed e st)") auto
    from process_symbols_slots[OF pos r] have "0 \<le> l" "int (length i) = ?n - l" by auto
    moreover have "trading_cycle pd e b st = (l, i, s')"
      using False r by (simp add: trading_cycle_def refreshed_def Let_def)
    ultimately show ?thesis by simp
  qed
next
  assume "0 < slots \<and> fst (process_symbols pd e b xs slots ids0 st0) = 0"
  then show "process_symbols pd e b (xs @ ys) slots ids0 st0 = process_symbols pd e b xs slots ids0 st0"
    using process_symbols_stop by blast
qed

lemma key_MSFT: "make_cache_key [''MSFT''] ''1Min'' 100 = ''MSFT_1Min_100''"
  by code_simp

lemma refreshed_e0: "refreshed e0 bs0 = bs0_refreshed"
  by (simp add: refreshed_def update_account_info_def update_positions_def get_account_def
      list_positions_def logged_def e0_def bs0_def w0_def bs0_refreshed_def)

lemma ev_cycle_b1:
  "bars_queries (calls (outside (snd (snd (trading_cycle pd0 e0 b1 bs0)))))
     = [cache_query [''AAPL''] ''1Min'' 100 None None]"
proof -
  have cl: "len (clean_and_prepare_data pd0 naive_df) < 50"
    by (simp add: ev_clean len_def)
  have ne: "\<not> empty (clean_and_prepare_data pd0 naive_df)"
    by (simp add: ev_clean empty_def required_cols_def)
  have sig: "\<And>s. MA_analyze 20 50 s (clean_and_prepare_data pd0 naive_df) = null_signal"
    using cl by (rule MA_analyze_short)
  have f: "fetch_data_for_symbol pd0 e0 b1 ''AAPL'' bs0_refreshed =
     (Some (clean_and_prepare_data pd0 naive_df),
      snd (fetch_data_for_symbol pd0 e0 b1 ''AAPL'' bs0_refreshed))"
    by (simp add: fetch_data_for_symbol_def provider_get_bars_def fetch_and_store_def
        client_get_bars_def logged_def now_def clean_all_def key_AAPL not_empty_naive_df
        bs0_refreshed_def e0_def b1_def b0_def bs0_def w0_def Let_def)
  have c: "calls (outside (snd (fetch_data_for_symbol pd0 e0 b1 ''AAPL'' bs0_refreshed))) =
      [(GetAccount, GotAccount [(''equity'', 10000)]), (ListPositions, GotPositions []),
       (GetBars (cache_query [''AAPL''] ''1Min'' 100 None None), GotBars [(''AAPL'', naive_df)])]"
    by (simp add: fetch_data_for_symbol_def provider_get_bars_def fetch_and_store_def
        client_get_bars_def logged_def now_def clean_all_def key_AAPL not_empty_naive_df
        bs0_refreshed_def e0_def b1_def b0_def bs0_def w0_def Let_def cache_query_def)
  have a: "available_slots_of b1 bs0_refreshed = 2"
    by (simp add: available_slots_of_def bs0_refreshed_def b1_def b0_def bs0_def)
  have p: "map_of (positions bs0_refreshed) ''AAPL'' = None"
    by (simp add: bs0_refreshed_def bs0_def)
  have "trading_cycle pd0 e0 b1 bs0 =
      (2, [], snd (fetch_data_for_symbol pd0 e0 b1 ''AAPL'' bs0_refreshed))"
    unfolding trading_cycle_def refreshed_def[symmetric] refreshed_e0 Let_def a
    apply (simp add: b1_def)
    apply (simp add: b1_def[symmetric])
    apply (subst process_symbols_step)
    apply (subst f)
    apply (simp add: p ne)
    apply (simp add: b1_def b0_def MAStrategy_def sig execute_signal_def null_signal_def)
    done
  then show ?thesis by (simp add: c)
qed

lemma trading_cycle_calls:
  "case trading_cycle pd e b st of
     (slots_left, ids, st') \<Rightarrow>
       \<exists>new. calls (outside st') = calls (outside st) @ new \<and>
         set (bars_queries new) \<subseteq>
           {cache_query [s] (time_frame b) 100 None None | s.
              s \<in> set (symbols b) \<and> map_of (positions (refreshed e st)) s = None}"
proof -
  let ?S = "{cache_query [s] (time_frame b) 100 None None | s.
              s \<in> set (symbols b) \<and> map_of (positions (refreshed e st)) s = None}"
  from refreshed_calls[of e st] obtain r1 r2 where
    r: "calls (outside (refreshed e st)) = calls (outside st) @ [(GetAccount, r1), (ListPositions, r2)]"
    by blast
  show ?thesis
  proof (cases "available_slots_of b (refreshed e st) = 0")
    case True
    then have "trading_cycle pd e b st = (0, [], refreshed e st)"
      by (simp add: trading_cycle_def refreshed_def Let_def)
    then show ?thesis using r by simp
  next
    case False
    let ?r = "process_symbols pd e b (symbols b) (available_slots_of b (refreshed e st)) [] (refreshed e st)"
    have t: "trading_cycle pd e b st = ?r"
      using False by (simp add: trading_cycle_def refreshed_def Let_def)
    from process_symbols_calls[of pd e b "symbols b" "available_slots_of b (refreshed e st)" "[]" "refreshed e st"]
    obtain new where n: "calls (outside (snd (snd ?r))) = calls (outside (refreshed e st)) @ new"
      "set (bars_queries new) \<subseteq> ?S" by blast
    have "calls (outside (snd (snd ?r))) = calls (outside st) @ ([(GetAccount, r1), (ListPositions, r2)] @ new)"
      using n(1) r by simp
    moreover have "set (bars_queries ([(GetAccount, r1), (ListPositions, r2)] @ new)) \<subseteq> ?S"
      using n(2) by simp
    ultimately have "\<exists>new. calls (outside (snd (snd ?r))) = calls (outside st) @ new \<and>
         set (bars_queries new) \<subseteq> ?S" by blast
    then show ?thesis unfolding t by (simp add: case_prod_beta)
  qed
qed

lemma provider_get_bars_requests:
  "stat_requests (fst (snd (provider_get_bars pd e syms tf n_bars start end_time uc p w)))
     = stat_requests p + 1"
  by (auto simp: provider_get_bars_def fetch_and_store_def is_cache_valid_def now_def
      client_get_bars_def logged_def Let_def
      split: option.splits sum.splits prod.splits)

lemma fetch_data_requests:
  "stat_requests (data_provider (snd (fetch_data_for_symbol pd e b symbol st)))
     = stat_requests (data_provider st) + 1"
  using provider_get_bars_requests[of pd e "[symbol]" "time_frame b" 100 None None True
      "data_provider st" "outside st"]
  by (auto simp: fetch_data_for_symbol_def Let_def split: prod.splits)

lemma execute_signal_provider:
  "execute_signal e b symbol sg st = (oid, st1) \<Longrightarrow> data_provider st1 = data_provider st"
  by (auto simp: execute_signal_def create_order_def close_position_def logged_def Let_def
      split: option.splits sum.splits prod.splits if_splits)

lemma apply_strategies_provider:
  "data_provider (snd (snd (snd (apply_strategies e b symbol data ss slots ids st)))) = data_provider st"
proof (induction ss arbitrary: slots ids st)
  case Nil
  show ?case by simp
next
  case (Cons s ss)
  show ?case
    by (auto simp: Cons.IH split: sum.splits option.splits prod.splits dest: execute_signal_provider)
qed

lemma process_symbols_requests:
  assumes "0 < slots"
    and "process_symbols pd e b syms slots ids st = (slots', ids', st')"
  shows "stat_requests (data_provider st')
           \<le> stat_requests (data_provider st) + length (filter (\<lambda>s. map_of (positions st) s = None) syms)
         \<and> (0 < slots' \<longrightarrow> stat_requests (data_provider st')
           = stat_requests (data_provider st) + length (filter (\<lambda>s. map_of (positions st) s = None) syms))"
  using assms
proof (induction syms arbitrary: slots ids st)
  case Nil
  then show ?case by auto
next
  case (Cons symbol rest)
  obtain d st1 where f: "fetch_data_for_symbol pd e b symbol st = (d, st1)"
    by (cases "fetch_data_for_symbol pd e b symbol st")
  obtain ret s2 i2 st2 where ap:
    "apply_strategies e b symbol (the d) (strategies b) slots ids st1 = (ret, s2, i2, st2)"
    by (cases "apply_strategies e b symbol (the d) (strategies b) slots ids st1") auto
  note inv = apply_strategies_slots[OF Cons.prems(1) ap]
  from fetch_data_requests[of pd e b symbol st] fetch_data_calls[of pd e b symbol st] f
  have r1: "stat_requests (data_provider st1) = stat_requests (data_provider st) + 1"
    and p1: "positions st1 = positions st" by auto
  from apply_strategies_provider[of e b symbol "the d" "strategies b" slots ids st1]
    apply_strategies_calls[of e b symbol "the d" "strategies b" slots ids st1] ap
  have r2: "data_provider st2 = data_provider st1" and p2: "positions st2 = positions st1" by auto
  show ?case
  proof (cases "map_of (positions st) symbol \<noteq> None")
    case True
    then have "process_symbols pd e b (symbol # rest) slots ids st =
        process_symbols pd e b rest slots ids st"
      by (subst process_symbols_step) simp
    then show ?thesis using Cons.IH[of slots ids st] Cons.prems True by auto
  next
    case False
    show ?thesis
    proof (cases "d = None \<or> (\<exists>df. d = Some df \<and> empty df)")
      case True
      then have "process_symbols pd e b (symbol # rest) slots ids st =
          process_symbols pd e b rest slots ids st1"
        using False f by (subst process_symbols_step) simp
      then show ?thesis using Cons.IH[of slots ids st1] Cons.prems False r1 p1 by auto
    next
      case False2: False
      show ?thesis
      proof (cases ret)
        case True
        then have "process_symbols pd e b (symbol # rest) slots ids st = (s2, i2, st2)"
          using False False2 f ap by (subst process_symbols_step) auto
        then show ?thesis using inv Cons.prems True False r1 r2 by auto
      next
        case False3: False
        then have eq: "process_symbols pd e b (symbol # rest) slots ids st =
            process_symbols pd e b rest s2 i2 st2"
          using False False2 f ap by (subst process_symbols_step) auto
        from inv False3 have "0 < s2" by auto
        from Cons.IH[OF this, of i2 st2] eq Cons.prems(2) False r1 r2 p1 p2 show ?thesis by auto
      qed
    qed
  qed
qed

lemma process_symbols_append:
  assumes "0 < slots"
  shows "process_symbols pd e b (xs @ ys) slots ids st =
     (case process_symbols pd e b xs slots ids st of
        (s1, i1, st1) \<Rightarrow> if s1 = 0 then (s1, i1, st1) else process_symbols pd e b ys s1 i1 st1)"
  using assms
proof (induction xs arbitrary: slots ids st)
  case Nil
  then show ?case by simp
next
  case (Cons symbol rest)
  obtain d st1 where f: "fetch_data_for_symbol pd e b symbol st = (d, st1)"
    by (cases "fetch_data_for_symbol pd e b symbol st")
  obtain ret s2 i2 st2 where ap:
    "apply_strategies e b symbol (the d) (strategies b) slots ids st1 = (ret, s2, i2, st2)"
    by (cases "apply_strategies e b symbol (the d) (strategies b) slots ids st1") auto
  note inv = apply_strategies_slots[OF Cons.prems(1) ap]
  show ?case
  proof (cases "map_of (positions st) symbol \<noteq> None")
    case True
    then have eq: "\<And>zs. process_symbols pd e b (symbol # zs) slots ids st =
        process_symbols pd e b zs slots ids st"
      by (subst process_symbols_step) simp
    from Cons.IH[OF Cons.prems(1), of ids st] show ?thesis using eq[of rest] eq[of "rest @ ys"] by simp
  next
    case False
    show ?thesis
    proof (cases "d = None \<or> (\<exists>df. d = Some df \<and> empty df)")
      case True
      then have eq: "\<And>zs. process_symbols pd e b (symbol # zs) slots ids st =
          process_symbols pd e b zs slots ids st1"
        using False f by (subst process_symbols_step) simp
      from Cons.IH[OF Cons.prems(1), of ids st1] show ?thesis using eq[of rest] eq[of "rest @ ys"] by simp
    next
      case False2: False
      show ?thesis
      proof (cases ret)
        case True
        then have eq: "\<And>zs. process_symbols pd e b (symbol # zs) slots ids st = (s2, i2, st2)"
          using False False2 f ap by (subst process_symbols_step) auto
        show ?thesis using eq[of rest] eq[of "rest @ ys"] inv True by simp
      next
        case False3: False
        from inv False3 have pos: "0 < s2" by auto
        have eq: "\<And>zs. process_symbols pd e b (symbol # zs) slots ids st =
            process_symbols pd e b zs s2 i2 st2"
          using False False2 False3 f ap by (subst process_symbols_step) auto
        from Cons.IH[OF pos, of i2 st2] show ?thesis using eq[of rest] eq[of "rest @ ys"] by simp
      qed
    qed
  qed
qed

lemma process_symbols_positions:
  "process_symbols pd e b syms slots ids st = (s1, i1, st1) \<Longrightarrow> positions st1 = positions st"
  using process_symbols_calls[of pd e b syms slots ids st] by auto

lemma process_symbols_each:
  assumes "0 < slots"
    and xs: "process_symbols pd e b xs slots ids st = (s1, i1, st1)"
    and "0 < s1"
    and free: "map_of (positions st) symbol = None"
  shows "process_symbols pd e b (xs @ symbol # ys) slots ids st =
     (case fetch_data_for_symbol pd e b symbol st1 of
        (d, st2) \<Rightarrow>
          (case d of
             None \<Rightarrow> process_symbols pd e b ys s1 i1 st2
           | Some df \<Rightarrow>
               if empty df then process_symbols pd e b ys s1 i1 st2
               else (case apply_strategies e b symbol df (strategies b) s1 i1 st2 of
                       (ret, s3, i3, st3) \<Rightarrow>
                         if ret then (s3, i3, st3) else process_symbols pd e b ys s3 i3 st3)))"
proof -
  from process_symbols_positions[OF xs] free have "map_of (positions st1) symbol = None" by simp
  then show ?thesis
    using assms(3)
    by (simp add: process_symbols_append[OF assms(1)] xs process_symbols.simps(2)
        split: prod.splits option.splits)
qed

lemma fetch_cold:
  assumes "map_of (cache (data_provider st)) (make_cache_key [symbol] (time_frame b) 100) = None"
  shows "\<exists>r. calls (outside (snd (fetch_data_for_symbol pd e b symbol st))) =
           calls (outside st) @ [(GetBars (cache_query [symbol] (time_frame b) 100 None None), r)]"
  using assms
  by (auto simp: fetch_data_for_symbol_def provider_get_bars_def fetch_and_store_def now_def
      client_get_bars_def logged_def cache_query_def Let_def
      split: option.splits sum.splits prod.splits)

lemma fetch_miss:
  assumes miss: "map_of (cache (data_provider st)) (make_cache_key [s] (time_frame b) 100) = None"
    and api: "api_get_bars e (length (calls (outside st)))
                (cache_query [s] (time_frame b) 100 None None) = Inr [(s, df)]"
    and ne: "\<not> empty df"
  shows "\<exists>st1. fetch_data_for_symbol pd e b s st = (Some (clean_and_prepare_data pd df), st1) \<and>
           account_info st1 = account_info st \<and> positions st1 = positions st \<and>
           calls (outside st1) = calls (outside st) @
             [(GetBars (cache_query [s] (time_frame b) 100 None None), GotBars [(s, df)])] \<and>
           cache (data_provider st1) =
             AList.update (make_cache_key [s] (time_frame b) 100)
               [(s, clean_and_prepare_data pd df)] (cache (data_provider st))"
  using assms
  by (simp add: fetch_data_for_symbol_def provider_get_bars_def fetch_and_store_def now_def
      client_get_bars_def logged_def cache_query_def clean_all_def Let_def)

lemma trading_cycle_requests:
  "case trading_cycle pd e b st of
     (slots_left, ids, st') \<Rightarrow>
       stat_requests (data_provider st')
         \<le> stat_requests (data_provider st)
             + length (filter (\<lambda>s. map_of (positions (refreshed e st)) s = None) (symbols b)) \<and>
       (0 < slots_left \<longrightarrow>
          stat_requests (data_provider st')
            = stat_requests (data_provider st)
               + length (filter (\<lambda>s. map_of (positions (refreshed e st)) s = None) (symbols b)))"
proof (cases "available_slots_of b (refreshed e st) = 0")
  case True
  then have "trading_cycle pd e b st = (0, [], refreshed e st)"
    by (simp add: trading_cycle_def refreshed_def Let_def)
  then show ?thesis by (simp add: refreshed_provider)
next
  case False
  then have pos: "0 < available_slots_of b (refreshed e st)" by (simp add: available_slots_of_def)
  obtain l i s' where r: "process_symbols pd e b (symbols b) (available_slots_of b (refreshed e st)) []
      (refreshed e st) = (l, i, s')"
    by (cases "process_symbols pd e b (symbols b) (available_slots_of b (refreshed e st)) []
      (refreshed e st)") auto
  have t: "trading_cycle pd e b st = (l, i, s')"
    using False r by (simp add: trading_cycle_def refreshed_def Let_def)
  from process_symbols_requests[OF pos r] show ?thesis
    unfolding t by (simp add: refreshed_provider)
qed

text \<open>
  C1, as amended. In a trading cycle the symbols are taken in order, and each tracked
  symbol that is not in an open position and is reached while slots remain has its data
  asked of the data provider, by \<open>_fetch_data_for_symbol\<close>: one call of
  \<open>DataProvider.get_bars\<close> for that one symbol, with the timeframe the bot was
  configured with and the fixed limit of 100 (the provider counts the call, and when
  its cache has no entry for the key it asks the brokerage for exactly these bars).
  When nothing or an empty table comes back only that symbol is skipped, and the cycle
  goes on with the next symbol; it goes on as well after the strategies have run on a
  symbol's data, unless they used up the slots. So a cycle that ends with a slot left
  has asked the provider once for every tracked symbol without a position. A symbol in
  an open position is passed over without a fetch. No other bars are asked of the
  brokerage: what the strategies declare in \<open>get_required_data\<close> is not read, and the
  resilient fetcher takes no part.
\<close>

theorem cycle_data_requests:
  "(case trading_cycle pd e b st of
     (slots_left, ids, st') \<Rightarrow>
       \<exists>new. calls (outside st') = calls (outside st) @ new \<and>
         set (bars_queries new) \<subseteq>
           {cache_query [s] (time_frame b) 100 None None | s.
              s \<in> set (symbols b) \<and> map_of (positions (refreshed e st)) s = None})
   \<and> fetch_data_for_symbol pd e b symbol st0 =
       (case provider_get_bars pd e [symbol] (time_frame b) 100 None None True
               (data_provider st0) (outside st0) of
          (data, p, w) \<Rightarrow>
            (if data = [] then None else map_of data symbol,
             st0\<lparr>data_provider := p, outside := w\<rparr>))
   \<and> (map_of (positions st0) symbol \<noteq> None \<longrightarrow>
        process_symbols pd e b (symbol # rest) slots ids0 st0
          = process_symbols pd e b rest slots ids0 st0)
   \<and> (map_of (positions st0) symbol = None \<and>
       fetch_data_for_symbol pd e b symbol st0 = (d, st1) \<and>
       (d = None \<or> (\<exists>df. d = Some df \<and> empty df)) \<longrightarrow>
        process_symbols pd e b (symbol # rest) slots ids0 st0
          = process_symbols pd e b rest slots ids0 st1)
   \<and> (0 < slots \<and> process_symbols pd e b before slots ids0 st0 = (slots_b, ids_b, st_b) \<and>
       0 < slots_b \<and> map_of (positions st0) symbol = None \<longrightarrow>
        process_symbols pd e b (before @ symbol # rest) slots ids0 st0 =
          (case fetch_data_for_symbol pd e b symbol st_b of
             (data, st_f) \<Rightarrow>
               (case data of
                  None \<Rightarrow> process_symbols pd e b rest slots_b ids_b st_f
                | Some df \<Rightarrow>
                    if empty df then process_symbols pd e b rest slots_b ids_b st_f
                    else (case apply_strategies e b symbol df (strategies b) slots_b ids_b st_f of
                            (returned, slots_a, ids_a, st_a) \<Rightarrow>
                              if returned then (slots_a, ids_a, st_a)
                              else process_symbols pd e b rest slots_a ids_a st_a))))
   \<and> (0 < slots \<and>
       apply_strategies e b symbol data (strategies b) slots ids0 st0 = (returned, slots_a, ids_a, st_a) \<longrightarrow>
        (returned \<longleftrightarrow> slots_a = 0))
   \<and> stat_requests (data_provider (snd (fetch_data_for_symbol pd e b symbol st0)))
       = stat_requests (data_provider st0) + 1
   \<and> (map_of (cache (data_provider st0)) (make_cache_key [symbol] (time_frame b) 100) = None \<longrightarrow>
        (\<exists>r. calls (outside (snd (fetch_data_for_symbol pd e b symbol st0))) =
           calls (outside st0) @ [(GetBars (cache_query [symbol] (time_frame b) 100 None None), r)]))
   \<and> (case trading_cycle pd e b st of
        (slots_left, ids, st') \<Rightarrow>
          stat_requests (data_provider st')
            \<le> stat_requests (data_provider st)
                + length (filter (\<lambda>s. map_of (positions (refreshed e st)) s = None) (symbols b)) \<and>
          (0 < slots_left \<longrightarrow>
             stat_requests (data_provider st')
               = stat_requests (data_provider st)
                  + length (filter (\<lambda>s. map_of (positions (refreshed e st)) s = None) (symbols b))))"
proof (intro conjI impI)
  show "case trading_cycle pd e b st of
     (slots_left, ids, st') \<Rightarrow>
       \<exists>new. calls (outside st') = calls (outside st) @ new \<and>
         set (bars_queries new) \<subseteq>
           {cache_query [s] (time_frame b) 100 None None | s.
              s \<in> set (symbols b) \<and> map_of (positions (refreshed e st)) s = None}"
    by (rule trading_cycle_calls)
next
  show "fetch_data_for_symbol pd e b symbol st0 =
       (case provider_get_bars pd e [symbol] (time_frame b) 100 None None True
               (data_provider st0) (outside st0) of
          (data, p, w) \<Rightarrow>
            (if data = [] then None else map_of data symbol,
             st0\<lparr>data_provider := p, outside := w\<rparr>))"
    by (simp add: fetch_data_for_symbol_def Let_def split: prod.splits)
next
  assume "map_of (positions st0) symbol \<noteq> None"
  then show "process_symbols pd e b (symbol # rest) slots ids0 st0
          = process_symbols pd e b rest slots ids0 st0"
    by (subst process_symbols_step) simp
next
  assume "map_of (positions st0) symbol = None \<and>
       fetch_data_for_symbol pd e b symbol st0 = (d, st1) \<and>
       (d = None \<or> (\<exists>df. d = Some df \<and> empty df))"
  then show "process_symbols pd e b (symbol # rest) slots ids0 st0
          = process_symbols pd e b rest slots ids0 st1"
    by (subst process_symbols_step) auto
next
  assume "0 < slots \<and> process_symbols pd e b before slots ids0 st0 = (slots_b, ids_b, st_b) \<and>
       0 < slots_b \<and> map_of (positions st0) symbol = None"
  then show "process_symbols pd e b (before @ symbol # rest) slots ids0 st0 =
          (case fetch_data_for_symbol pd e b symbol st_b of
             (data, st_f) \<Rightarrow>
               (case data of
                  None \<Rightarrow> process_symbols pd e b rest slots_b ids_b st_f
                | Some df \<Rightarrow>
                    if empty df then process_symbols pd e b rest slots_b ids_b st_f
                    else (case apply_strategies e b symbol df (strategies b) slots_b ids_b st_f of
                            (returned, slots_a, ids_a, st_a) \<Rightarrow>
                              if returned then (slots_a, ids_a, st_a)
                              else process_symbols pd e b rest slots_a ids_a st_a)))"
    using process_symbols_each[of slots pd e b before ids0 st0 slots_b ids_b st_b symbol rest]
    by blast
next
  assume "0 < slots \<and>
       apply_strategies e b symbol data (strategies b) slots ids0 st0 = (returned, slots_a, ids_a, st_a)"
  then show "returned \<longleftrightarrow> slots_a = 0"
    using apply_strategies_slots[of slots e b symbol data "strategies b" ids0 st0 returned slots_a ids_a st_a]
    by blast
next
  show "stat_requests (data_provider (snd (fetch_data_for_symbol pd e b symbol st0)))
       = stat_requests (data_provider st0) + 1"
    by (rule fetch_data_requests)
next
  assume "map_of (cache (data_provider st0)) (make_cache_key [symbol] (time_frame b) 100) = None"
  then show "\<exists>r. calls (outside (snd (fetch_data_for_symbol pd e b symbol st0))) =
           calls (outside st0) @ [(GetBars (cache_query [symbol] (time_frame b) 100 None None), r)]"
    by (rule fetch_cold)
next
  show "case trading_cycle pd e b st of
        (slots_left, ids, st') \<Rightarrow>
          stat_requests (data_provider st')
            \<le> stat_requests (data_provider st)
                + length (filter (\<lambda>s. map_of (positions (refreshed e st)) s = None) (symbols b)) \<and>
          (0 < slots_left \<longrightarrow>
             stat_requests (data_provider st')
               = stat_requests (data_provider st)
                  + length (filter (\<lambda>s. map_of (positions (refreshed e st)) s = None) (symbols b)))"
    by (rule trading_cycle_requests)
qed

lemma ev_fetch_down:
  "fst (fetch_data_for_symbol pd0 e_down b0 ''AAPL'' bs0) = None"
  by (simp add: fetch_data_for_symbol_def provider_get_bars_def fetch_and_store_def
      client_get_bars_def logged_def now_def key_AAPL e_down_def e0_def b0_def bs0_def w0_def Let_def)

lemma apply_null:
  "len data < 50 \<Longrightarrow>
     apply_strategies e b0 s data (strategies b0) slots ids st = (False, slots, ids, st)"
  by (simp add: b0_def MAStrategy_def MA_analyze_short execute_signal_def null_signal_def)

lemma ev_process_e0:
  "\<exists>stA stB. process_symbols pd0 e0 b0 [''AAPL''] 2 [] bs0_refreshed = (2, [], stA) \<and>
     process_symbols pd0 e0 b0 [''MSFT''] 2 [] stA = (2, [], stB) \<and>
     fetch_data_for_symbol pd0 e0 b0 ''MSFT'' stA = (Some (clean_and_prepare_data pd0 naive_df), stB) \<and>
     bars_queries (calls (outside stB)) =
       [cache_query [''AAPL''] ''1Min'' 100 None None, cache_query [''MSFT''] ''1Min'' 100 None None]"
proof -
  have cl: "len (clean_and_prepare_data pd0 naive_df) < 50"
    by (simp add: ev_clean len_def)
  have ne: "\<not> empty (clean_and_prepare_data pd0 naive_df)"
    by (simp add: ev_clean empty_def required_cols_def)
  have api: "\<And>k s. api_get_bars e0 k (cache_query [s] (time_frame b0) 100 None None)
      = Inr [(s, naive_df)]"
    by (simp add: e0_def cache_query_def)
  have tf: "time_frame b0 = ''1Min''" by (simp add: b0_def)
  have st0: "positions bs0_refreshed = []" "cache (data_provider bs0_refreshed) = []"
    "bars_queries (calls (outside bs0_refreshed)) = []"
    by (simp_all add: bs0_refreshed_def bs0_def)
  have m1: "map_of (cache (data_provider bs0_refreshed))
      (make_cache_key [''AAPL''] (time_frame b0) 100) = None"
    by (simp add: st0)
  from fetch_miss[OF m1 api not_empty_naive_df, of pd0] obtain stA where
    fA: "fetch_data_for_symbol pd0 e0 b0 ''AAPL'' bs0_refreshed =
           (Some (clean_and_prepare_data pd0 naive_df), stA)"
    and A: "positions stA = []"
      "bars_queries (calls (outside stA)) = [cache_query [''AAPL''] ''1Min'' 100 None None]"
      "cache (data_provider stA) =
         AList.update (make_cache_key [''AAPL''] (time_frame b0) 100)
           [(''AAPL'', clean_and_prepare_data pd0 naive_df)] []"
    by (auto simp: st0 tf bars_queries_append)
  have m2: "map_of (cache (data_provider stA))
      (make_cache_key [''MSFT''] (time_frame b0) 100) = None"
    unfolding A(3) by (simp add: tf key_AAPL key_MSFT)
  from fetch_miss[OF m2 api not_empty_naive_df, of pd0] obtain stB where
    fB: "fetch_data_for_symbol pd0 e0 b0 ''MSFT'' stA =
           (Some (clean_and_prepare_data pd0 naive_df), stB)"
    and B: "bars_queries (calls (outside stB)) =
       [cache_query [''AAPL''] ''1Min'' 100 None None, cache_query [''MSFT''] ''1Min'' 100 None None]"
    using A by (auto simp: tf bars_queries_append)
  have pA: "map_of (positions bs0_refreshed) ''AAPL'' = None" by (simp add: st0)
  have pB: "map_of (positions stA) ''MSFT'' = None" by (simp add: A)
  have "process_symbols pd0 e0 b0 [''AAPL''] 2 [] bs0_refreshed = (2, [], stA)"
    by (subst process_symbols_step) (simp add: pA fA ne apply_null[OF cl])
  moreover have "process_symbols pd0 e0 b0 [''MSFT''] 2 [] stA = (2, [], stB)"
    by (subst process_symbols_step) (simp add: pB fB ne apply_null[OF cl])
  ultimately show ?thesis using fB B by blast
qed

theorem cycle_data_requests_witness:
  "(\<exists>new. calls (outside (snd (snd (trading_cycle pd0 e0 b1 bs0)))) = calls (outside bs0) @ new \<and>
         set (bars_queries new) \<subseteq> {cache_query [''AAPL''] ''1Min'' 100 None None})
   \<and> process_symbols pd0 e_down b0 [''AAPL'', ''MSFT''] 2 [] bs0
       = process_symbols pd0 e_down b0 [''MSFT''] 2 []
           (snd (fetch_data_for_symbol pd0 e_down b0 ''AAPL'' bs0))
   \<and> process_symbols pd0 e0 b0 [''AAPL'', ''MSFT''] 2 [] bs_held
       = process_symbols pd0 e0 b0 [''MSFT''] 2 [] bs_held
   \<and> bars_queries (calls (outside (snd (snd (trading_cycle pd0 e0 b0 bs0))))) =
       [cache_query [''AAPL''] ''1Min'' 100 None None, cache_query [''MSFT''] ''1Min'' 100 None None]
   \<and> fst (trading_cycle pd0 e0 b0 bs0) = 2
   \<and> stat_requests (data_provider (snd (snd (trading_cycle pd0 e0 b0 bs0)))) = 2
   \<and> (\<exists>r. calls (outside (snd (fetch_data_for_symbol pd0 e0 b0 ''AAPL'' bs0))) =
           [(GetBars (cache_query [''AAPL''] ''1Min'' 100 None None), r)])"
proof -
  have s: "{cache_query [s] (time_frame b1) 100 None None | s.
              s \<in> set (symbols b1) \<and> map_of (positions (refreshed e0 bs0)) s = None}
       \<subseteq> {cache_query [''AAPL''] ''1Min'' 100 None None}"
    by (auto simp: b1_def b0_def)
  from cycle_data_requests[where pd=pd0 and e=e0 and b=b1 and st=bs0]
  have "case trading_cycle pd0 e0 b1 bs0 of
     (slots_left, ids, st') \<Rightarrow>
       \<exists>new. calls (outside st') = calls (outside bs0) @ new \<and>
         set (bars_queries new) \<subseteq>
           {cache_query [s] (time_frame b1) 100 None None | s.
              s \<in> set (symbols b1) \<and> map_of (positions (refreshed e0 bs0)) s = None}"
    by (rule conjunct1)
  then obtain new where n:
    "calls (outside (snd (snd (trading_cycle pd0 e0 b1 bs0)))) = calls (outside bs0) @ new"
    "set (bars_queries new) \<subseteq>
           {cache_query [s] (time_frame b1) 100 None None | s.
              s \<in> set (symbols b1) \<and> map_of (positions (refreshed e0 bs0)) s = None}"
    by (auto simp: case_prod_beta)
  from n(2) s have "set (bars_queries new) \<subseteq> {cache_query [''AAPL''] ''1Min'' 100 None None}"
    by (rule subset_trans)
  with n(1) have a: "\<exists>new. calls (outside (snd (snd (trading_cycle pd0 e0 b1 bs0)))) = calls (outside bs0) @ new \<and>
         set (bars_queries new) \<subseteq> {cache_query [''AAPL''] ''1Min'' 100 None None}"
    by blast
  have p: "map_of (positions bs0) ''AAPL'' = None" by (simp add: bs0_def)
  have f: "fetch_data_for_symbol pd0 e_down b0 ''AAPL'' bs0 =
      (None, snd (fetch_data_for_symbol pd0 e_down b0 ''AAPL'' bs0))"
    using ev_fetch_down by (cases "fetch_data_for_symbol pd0 e_down b0 ''AAPL'' bs0") simp
  have b: "process_symbols pd0 e_down b0 [''AAPL'', ''MSFT''] 2 [] bs0
       = process_symbols pd0 e_down b0 [''MSFT''] 2 []
           (snd (fetch_data_for_symbol pd0 e_down b0 ''AAPL'' bs0))"
    using cycle_data_requests[where pd=pd0 and e=e_down and b=b0 and symbol="''AAPL''"
        and ?st0.0=bs0 and rest="[''MSFT'']" and slots=2 and ?ids0.0="[]" and d=None
        and ?st1.0="snd (fetch_data_for_symbol pd0 e_down b0 ''AAPL'' bs0)"] p f
    by blast
  have ph: "map_of (positions bs_held) ''AAPL'' \<noteq> None" by (simp add: bs_held_def)
  have c: "process_symbols pd0 e0 b0 [''AAPL'', ''MSFT''] 2 [] bs_held
       = process_symbols pd0 e0 b0 [''MSFT''] 2 [] bs_held"
    using cycle_data_requests[where pd=pd0 and e=e0 and b=b0 and symbol="''AAPL''"
        and ?st0.0=bs_held and rest="[''MSFT'']" and slots=2 and ?ids0.0="[]"] ph
    by blast
  from ev_process_e0 obtain stA stB where
    xA: "process_symbols pd0 e0 b0 [''AAPL''] 2 [] bs0_refreshed = (2, [], stA)"
    and fB: "fetch_data_for_symbol pd0 e0 b0 ''MSFT'' stA = (Some (clean_and_prepare_data pd0 naive_df), stB)"
    and qB: "bars_queries (calls (outside stB)) =
       [cache_query [''AAPL''] ''1Min'' 100 None None, cache_query [''MSFT''] ''1Min'' 100 None None]"
    by blast
  have cl: "len (clean_and_prepare_data pd0 naive_df) < 50"
    by (simp add: ev_clean len_def)
  have ne: "\<not> empty (clean_and_prepare_data pd0 naive_df)"
    by (simp add: ev_clean empty_def required_cols_def)
  have pM: "map_of (positions bs0_refreshed) ''MSFT'' = None"
    by (simp add: bs0_refreshed_def bs0_def)
  have "process_symbols pd0 e0 b0 ([''AAPL''] @ ''MSFT'' # []) 2 [] bs0_refreshed =
          (case fetch_data_for_symbol pd0 e0 b0 ''MSFT'' stA of
             (data, st_f) \<Rightarrow>
               (case data of
                  None \<Rightarrow> process_symbols pd0 e0 b0 [] 2 [] st_f
                | Some df \<Rightarrow>
                    if empty df then process_symbols pd0 e0 b0 [] 2 [] st_f
                    else (case apply_strategies e0 b0 ''MSFT'' df (strategies b0) 2 [] st_f of
                            (returned, slots_a, ids_a, st_a) \<Rightarrow>
                              if returned then (slots_a, ids_a, st_a)
                              else process_symbols pd0 e0 b0 [] slots_a ids_a st_a)))"
    using cycle_data_requests[where pd=pd0 and e=e0 and b=b0 and symbol="''MSFT''"
        and ?st0.0=bs0_refreshed and rest="[]" and slots=2 and ?ids0.0="[]" and before="[''AAPL'']"
        and slots_b=2 and ids_b="[]" and st_b=stA] xA pM
    by simp
  then have run: "process_symbols pd0 e0 b0 [''AAPL'', ''MSFT''] 2 [] bs0_refreshed = (2, [], stB)"
    by (simp add: fB ne apply_null[OF cl])
  have av: "available_slots_of b0 bs0_refreshed = 2"
    by (simp add: available_slots_of_def bs0_refreshed_def b0_def bs0_def)
  have t: "trading_cycle pd0 e0 b0 bs0 = (2, [], stB)"
    using run av
    by (simp add: trading_cycle_def refreshed_def[symmetric] refreshed_e0 Let_def)
       (simp add: b0_def)
  have fl: "length (filter (\<lambda>s. map_of (positions (refreshed e0 bs0)) s = None) (symbols b0)) = 2"
    "stat_requests (data_provider bs0) = 0"
    by (simp_all only: refreshed_e0) (simp_all add: bs0_refreshed_def bs0_def b0_def)
  from cycle_data_requests[where pd=pd0 and e=e0 and b=b0 and st=bs0,
      THEN conjunct2, THEN conjunct2, THEN conjunct2, THEN conjunct2,
      THEN conjunct2, THEN conjunct2, THEN conjunct2, THEN conjunct2]
  have "case trading_cycle pd0 e0 b0 bs0 of
        (slots_left, ids, st') \<Rightarrow>
          stat_requests (data_provider st')
            \<le> stat_requests (data_provider bs0)
                + length (filter (\<lambda>s. map_of (positions (refreshed e0 bs0)) s = None) (symbols b0)) \<and>
          (0 < slots_left \<longrightarrow>
             stat_requests (data_provider st')
               = stat_requests (data_provider bs0)
                  + length (filter (\<lambda>s. map_of (positions (refreshed e0 bs0)) s = None) (symbols b0)))"
    .
  then have g: "stat_requests (data_provider stB) = 2"
    unfolding t fl by simp
  have m: "map_of (cache (data_provider bs0)) (make_cache_key [''AAPL''] (time_frame b0) 100) = None"
    by (simp add: bs0_def)
  have h: "\<exists>r. calls (outside (snd (fetch_data_for_symbol pd0 e0 b0 ''AAPL'' bs0))) =
           [(GetBars (cache_query [''AAPL''] ''1Min'' 100 None None), r)]"
  proof -
    have c0: "calls (outside bs0) = []" "time_frame b0 = ''1Min''"
      by (simp_all add: bs0_def w0_def b0_def)
    from cycle_data_requests[where pd=pd0 and e=e0 and b=b0 and symbol="''AAPL''" and ?st0.0=bs0,
        THEN conjunct2, THEN conjunct2, THEN conjunct2, THEN conjunct2,
        THEN conjunct2, THEN conjunct2, THEN conjunct2, THEN conjunct1] m
    have "\<exists>r. calls (outside (snd (fetch_data_for_symbol pd0 e0 b0 ''AAPL'' bs0))) =
           calls (outside bs0) @ [(GetBars (cache_query [''AAPL''] (time_frame b0) 100 None None), r)]"
      by (rule mp)
    then show ?thesis unfolding c0 by simp
  qed
  show ?thesis using a b c t qB g h by simp
qed

text \<open>
  The claim as it was stated fails: a bot configured with the timeframe 1Min, running
  the crossover strategy with the windows 20 and 50 (which declares the timeframe 1H
  and a lookback of 60 bars), asks for 100 bars of 1Min.
\<close>

theorem cycle_ignores_required_data:
  "\<not> (\<forall>pd e b st.
        list_all (\<lambda>q. list_all (\<lambda>s. q_timeframe q = need_timeframe (get_required_data s) \<and>
                                   q_limit q = need_lookback_bars (get_required_data s))
                          (strategies b))
          (bars_queries (calls (outside (snd (snd (trading_cycle pd e b st)))))))"
proof
  assume "\<forall>pd e b st.
        list_all (\<lambda>q. list_all (\<lambda>s. q_timeframe q = need_timeframe (get_required_data s) \<and>
                                   q_limit q = need_lookback_bars (get_required_data s))
                          (strategies b))
          (bars_queries (calls (outside (snd (snd (trading_cycle pd e b st))))))"
  then have "list_all (\<lambda>q. list_all (\<lambda>s. q_timeframe q = need_timeframe (get_required_data s) \<and>
                                   q_limit q = need_lookback_bars (get_required_data s))
                          (strategies b1))
          (bars_queries (calls (outside (snd (snd (trading_cycle pd0 e0 b1 bs0))))))"
    by blast
  then have "list_all (\<lambda>q. list_all (\<lambda>s. q_timeframe q = need_timeframe (get_required_data s) \<and>
                                   q_limit q = need_lookback_bars (get_required_data s))
                          (strategies b1))
          [cache_query [''AAPL''] ''1Min'' 100 None None]"
    by (simp only: ev_cycle_b1)
  then show False
    by (simp add: cache_query_def b1_def b0_def MAStrategy_def)
qed

lemma ev_clean_ma: "clean_and_prepare_data pd0 ma_df = ma_df"
  by (simp add: clean_and_prepare_data_def empty_def dropna_def drop_duplicated_index_def
      sort_index_def ma_df_def map_column_def to_numeric_def to_int64_def int64_min_def isna_def
      required_cols_def bar_row_def get_cell_def Let_def)

lemma ev_ma_signal: "MA_analyze 1 2 s ma_df = buy_signal 5 (19 / 4)"
proof -
  have c: "''close'' \<in> set (colnames ma_df)" by (simp add: ma_df_def required_cols_def)
  from MA_analyze_defined[OF ev_closes c ev_ma(1) ev_ma(2) ev_ma(3) ev_ma(4), of s]
  show ?thesis by (auto simp: iloc_from_end_def buy_signal_def)
qed

lemma accepted_orders_append:
  "accepted_orders (xs @ ys) = accepted_orders xs @ accepted_orders ys"
  by (induction xs rule: accepted_orders.induct) auto

lemma ev_execute_stop_raises:
  assumes "account_info st = [(''equity'', 10000)]"
  shows "\<exists>st1 new. execute_signal e_stop_raises b_buy s (buy_signal 5 (19 / 4)) st = (None, st1) \<and>
           account_info st1 = account_info st \<and> positions st1 = positions st \<and>
           data_provider st1 = data_provider st \<and>
           calls (outside st1) = calls (outside st) @ new \<and>
           accepted_orders new = [market_buy s 800]"
  using assms
  by (simp add: execute_signal_def buy_signal_def b_buy_def create_order_def logged_def
      e_stop_raises_def e_buy_def e0_def py_int_def market_buy_def Let_def)

lemma refreshed_e_stop: "refreshed e_stop_raises bs0 = bs0_refreshed"
  by (simp add: refreshed_def update_account_info_def update_positions_def get_account_def
      list_positions_def logged_def e_stop_raises_def e_buy_def e0_def bs0_def w0_def bs0_refreshed_def)

text \<open>
  C3 fails on the code. The bot may take one more position, for \<open>max_positions\<close> is 1 and it
  holds none; it tracks two symbols, and the strategy signals a buy on each. The
  brokerage accepts each market buy and raises on the stop order that
  \<open>_execute_signal\<close> submits next: the \<open>except\<close> clause then returns \<open>None\<close>, so the cycle
  obtains no order id for the accepted buy, takes no slot for it and goes on to the
  next symbol. The cycle ends with its one slot still counted as free and with two
  accepted buys, one more than \<open>max_positions\<close> minus the number of positions.
\<close>

theorem cycle_overfills_slots:
  "length (positions (refreshed e_stop_raises bs0)) = 0
   \<and> available_slots_of b_buy (refreshed e_stop_raises bs0) = 1
   \<and> fst (trading_cycle pd0 e_stop_raises b_buy bs0) = 1
   \<and> fst (snd (trading_cycle pd0 e_stop_raises b_buy bs0)) = []
   \<and> accepted_orders (calls (outside (snd (snd (trading_cycle pd0 e_stop_raises b_buy bs0)))))
       = [market_buy ''AAPL'' 800, market_buy ''MSFT'' 800]"
proof -
  have ne: "\<not> empty ma_df" by (simp add: empty_def ma_df_def required_cols_def)
  have s1: "strategies b_buy = [MAStrategy 1 2]" by (simp add: b_buy_def)
  have s2: "\<And>s. analyze (MAStrategy 1 2) s ma_df = Inr (Some (buy_signal 5 (19 / 4)))"
    by (simp add: MAStrategy_def ev_ma_signal)
  have api: "\<And>k s. api_get_bars e_stop_raises k (cache_query [s] (time_frame b_buy) 100 None None)
      = Inr [(s, ma_df)]"
    by (simp add: e_stop_raises_def e_buy_def e0_def cache_query_def)
  have st0: "positions bs0_refreshed = []" "account_info bs0_refreshed = [(''equity'', 10000)]"
    "cache (data_provider bs0_refreshed) = []"
    "accepted_orders (calls (outside bs0_refreshed)) = []"
    by (simp_all add: bs0_refreshed_def bs0_def)
  have m1: "map_of (cache (data_provider bs0_refreshed))
      (make_cache_key [''AAPL''] (time_frame b_buy) 100) = None"
    by (simp add: st0)
  from fetch_miss[OF m1 api ne, of pd0] obtain stA where
    fA: "fetch_data_for_symbol pd0 e_stop_raises b_buy ''AAPL'' bs0_refreshed = (Some ma_df, stA)"
    and A: "account_info stA = [(''equity'', 10000)]" "positions stA = []"
      "accepted_orders (calls (outside stA)) = []"
      "cache (data_provider stA) =
         AList.update (make_cache_key [''AAPL''] (time_frame b_buy) 100) [(''AAPL'', ma_df)] []"
    by (auto simp: ev_clean_ma st0 accepted_orders_append)
  from ev_execute_stop_raises[OF A(1), of "''AAPL''"] obtain stA' where
    xA: "execute_signal e_stop_raises b_buy ''AAPL'' (buy_signal 5 (19 / 4)) stA = (None, stA')"
    and A': "account_info stA' = [(''equity'', 10000)]" "positions stA' = []"
      "accepted_orders (calls (outside stA')) = [market_buy ''AAPL'' 800]"
      "cache (data_provider stA') =
         AList.update (make_cache_key [''AAPL''] (time_frame b_buy) 100) [(''AAPL'', ma_df)] []"
    using A by (auto simp: accepted_orders_append)
  have apA: "apply_strategies e_stop_raises b_buy ''AAPL'' ma_df (strategies b_buy) 1 [] stA =
        (False, 1, [], stA')"
    unfolding s1 by (simp add: s2 xA)
  have m2: "map_of (cache (data_provider stA'))
      (make_cache_key [''MSFT''] (time_frame b_buy) 100) = None"
    unfolding A'(4) by (simp add: b_buy_def key_AAPL key_MSFT)
  from fetch_miss[OF m2 api ne, of pd0] obtain stB where
    fB: "fetch_data_for_symbol pd0 e_stop_raises b_buy ''MSFT'' stA' = (Some ma_df, stB)"
    and B: "account_info stB = [(''equity'', 10000)]" "positions stB = []"
      "accepted_orders (calls (outside stB)) = [market_buy ''AAPL'' 800]"
    using A' by (auto simp: ev_clean_ma accepted_orders_append)
  from ev_execute_stop_raises[OF B(1), of "''MSFT''"] obtain stB' where
    xB: "execute_signal e_stop_raises b_buy ''MSFT'' (buy_signal 5 (19 / 4)) stB = (None, stB')"
    and B': "accepted_orders (calls (outside stB')) = [market_buy ''AAPL'' 800, market_buy ''MSFT'' 800]"
    using B by (auto simp: accepted_orders_append)
  have apB': "apply_strategies e_stop_raises b_buy ''MSFT'' ma_df (strategies b_buy) 1 [] stB =
        (False, 1, [], stB')"
    unfolding s1 by (simp add: s2 xB)
  have pA: "map_of (positions bs0_refreshed) ''AAPL'' = None" by (simp add: st0)
  have pB: "map_of (positions stA') ''MSFT'' = None" by (simp add: A')
  have "process_symbols pd0 e_stop_raises b_buy [''MSFT''] 1 [] stA' = (1, [], stB')"
    by (subst process_symbols_step) (simp add: pB fB ne apB')
  then have run: "process_symbols pd0 e_stop_raises b_buy [''AAPL'', ''MSFT''] 1 [] bs0_refreshed
      = (1, [], stB')"
    by (subst process_symbols_step) (simp add: pA fA ne apA)
  have a: "available_slots_of b_buy bs0_refreshed = 1"
    by (simp add: available_slots_of_def b_buy_def st0)
  have t: "trading_cycle pd0 e_stop_raises b_buy bs0 = (1, [], stB')"
    using run a
    by (simp add: trading_cycle_def refreshed_def[symmetric] refreshed_e_stop Let_def)
       (simp add: b_buy_def)
  show ?thesis using a t B' st0 by (simp add: refreshed_e_stop)
qed

end
